(* ===== verification/Prelude.thy ===== *)
theory Prelude
  imports Main
begin

text \<open>
  The shared base of the development: the collections of rewrite rules that the component
  theories add to, and the generic lemmas on lists and loops that several components use.
  The loop \<open>assign_loop\<close> is the deduplicating loop that the relay writes in
  \<^verbatim>\<open>splitRecipients\<close> (four times) and in \<^verbatim>\<open>normalizeDomains\<close>.
\<close>

named_theorems bytes_simps \<open>evaluation of bytes, runes and strings\<close>
named_theorems reply_simps \<open>SMTP reply classes of classified errors\<close>

section \<open>Signed 64-bit arithmetic\<close>

text \<open>
  Go's \<^verbatim>\<open>int\<close>, \<^verbatim>\<open>int64\<close> and \<^verbatim>\<open>time.Duration\<close> are 64-bit two's
  complement; \<open>wrap64\<close> is the value an overflowing operation leaves.
\<close>

definition wrap64 :: "int \<Rightarrow> int" where
  "wrap64 x = (x + 2 ^ 63) mod 2 ^ 64 - 2 ^ 63"

definition int64 :: "int \<Rightarrow> bool" where
  "int64 x \<longleftrightarrow> - (2 ^ 63) \<le> x \<and> x < 2 ^ 63"

lemma wrap64_range: "int64 (wrap64 x)"
  by (simp add: wrap64_def int64_def)

lemma wrap64_id: "int64 x \<Longrightarrow> wrap64 x = x"
  by (simp add: wrap64_def int64_def)

lemma wrap64_dvd:
  assumes "k \<le> 63" and "2 ^ k dvd x"
  shows "2 ^ k dvd wrap64 x"
proof -
  have k63: "(2::int) ^ k dvd 2 ^ 63"
    by (rule le_imp_power_dvd) (use assms(1) in simp)
  have k64: "(2::int) ^ k dvd 2 ^ 64"
    by (rule le_imp_power_dvd) (use assms(1) in simp)
  have "2 ^ k dvd (x + 2 ^ 63) mod 2 ^ 64"
    using assms(2) k63 k64 by (metis dvd_add dvd_mod)
  then show ?thesis
    unfolding wrap64_def using k63 by (rule dvd_diff)
qed

text \<open>Durations are nanoseconds; \<^verbatim>\<open>t.Sub(u)\<close> saturates.\<close>

definition second :: int where
  "second = 1000000000"

definition timeSub :: "int \<Rightarrow> int \<Rightarrow> int" where
  "timeSub t u = max (- (2 ^ 63)) (min (2 ^ 63 - 1) (t - u))"

section \<open>Loops that collect the first occurrence of each key\<close>

text \<open>
  \<open>assign_loop key mk ok xs assigned\<close> runs over \<open>xs\<close>: an item whose key is empty, fails
  \<open>ok\<close> or is already assigned is skipped (the three \<^verbatim>\<open>continue\<close>s), any other item
  is appended as \<open>mk x\<close> and its key is assigned. The set of assigned keys is threaded
  through, as the loops of one function share it.
\<close>

fun assign_loop ::
  "('a \<Rightarrow> string) \<Rightarrow> ('a \<Rightarrow> 'b) \<Rightarrow> (string \<Rightarrow> bool) \<Rightarrow> 'a list \<Rightarrow> string set \<Rightarrow> 'b list \<times> string set"
where
  "assign_loop key mk ok [] assigned = ([], assigned)"
| "assign_loop key mk ok (x # xs) assigned =
     (let k = key x in
      if k = [] \<or> \<not> ok k \<or> k \<in> assigned then assign_loop key mk ok xs assigned
      else (case assign_loop key mk ok xs (insert k assigned) of
              (out, assigned') \<Rightarrow> (mk x # out, assigned')))"

text \<open>The keys a loop may assign: non-empty and admitted by \<open>ok\<close>.\<close>

definition loop_keys :: "('a \<Rightarrow> string) \<Rightarrow> (string \<Rightarrow> bool) \<Rightarrow> 'a list \<Rightarrow> string set" where
  "loop_keys key ok xs = {k \<in> key ` set xs. k \<noteq> [] \<and> ok k}"

lemma loop_keys_Nil [simp]: "loop_keys key ok [] = {}"
  by (simp add: loop_keys_def)

lemma loop_keys_Cons:
  "loop_keys key ok (x # xs) =
     (if key x \<noteq> [] \<and> ok (key x) then insert (key x) (loop_keys key ok xs)
      else loop_keys key ok xs)"
  by (auto simp: loop_keys_def)

lemma assign_loop_assigned:
  "snd (assign_loop key mk ok xs assigned) = assigned \<union> loop_keys key ok xs"
  by (induction xs arbitrary: assigned) (auto simp: loop_keys_Cons case_prod_beta Let_def)

text \<open>
  The output, seen through a key of its items, is duplicate-free and holds exactly the
  new keys.
\<close>

lemma assign_loop_output:
  assumes "\<And>x. key' (mk x) = key x"
  shows "distinct (map key' (fst (assign_loop key mk ok xs assigned))) \<and>
    set (map key' (fst (assign_loop key mk ok xs assigned))) = loop_keys key ok xs - assigned"
proof (induction xs arbitrary: assigned)
  case Nil
  show ?case by simp
next
  case (Cons x xs)
  show ?case
  proof (cases "key x = [] \<or> \<not> ok (key x) \<or> key x \<in> assigned")
    case True
    with Cons.IH [of assigned] show ?thesis by (auto simp: loop_keys_Cons Let_def)
  next
    case False
    with Cons.IH [of "insert (key x) assigned"] show ?thesis
      by (auto simp: loop_keys_Cons assms case_prod_beta Let_def)
  qed
qed

section \<open>Lists\<close>

lemma dropWhile_rev_append_keep:
  "\<not> P (last xs) \<Longrightarrow> xs \<noteq> [] \<Longrightarrow> rev (dropWhile P (rev xs)) = xs"
  by (induction xs rule: rev_induct) auto

lemma rev_dropWhile_rev_take: "\<exists>k. rev (dropWhile P (rev xs)) = take k xs"
  by (simp only: dropWhile_eq_drop rev_drop rev_rev_ident) blast

lemma last_rev_dropWhile_rev:
  assumes "rev (dropWhile P (rev xs)) \<noteq> []"
  shows "\<not> P (last (rev (dropWhile P (rev xs))))"
proof -
  have "dropWhile P (rev xs) \<noteq> []" using assms by (simp only: rev_is_Nil_conv not_False_eq_True)
  from hd_dropWhile [OF this] show ?thesis
    using \<open>dropWhile P (rev xs) \<noteq> []\<close> by (simp only: last_rev not_False_eq_True)
qed

lemma dropWhile_append_keep:
  "x \<in> set xs \<Longrightarrow> \<not> P x \<Longrightarrow> dropWhile P (xs @ ys) = dropWhile P xs @ ys"
  by (induction xs) auto

end
