(* ===== verification/Go_Utf8.thy ===== *)
theory Go_Utf8
  imports Prelude
begin

text \<open>
  Go strings are byte sequences (\<open>string\<close>, a list of 8-bit characters) that the
  standard library reads as UTF-8. This theory holds \<^verbatim>\<open>utf8.DecodeRune\<close>,
  \<^verbatim>\<open>utf8.EncodeRune\<close>, the cutting of a string into runes, and their laws: decoding
  consumes its input, an ASCII byte is a boundary, encoding and decoding are inverse.
\<close>

section \<open>Bytes and runes\<close>

type_synonym rune = nat

abbreviation byte :: "char \<Rightarrow> nat" where
  "byte c \<equiv> of_char c"

definition runeError :: rune where
  "runeError = 0xFFFD"

definition valid_rune :: "rune \<Rightarrow> bool" where
  "valid_rune r \<longleftrightarrow> r < 0xD800 \<or> (0xE000 \<le> r \<and> r \<le> 0x10FFFF)"

definition in_range :: "nat \<Rightarrow> nat \<Rightarrow> char \<Rightarrow> bool" where
  "in_range lo hi c \<longleftrightarrow> lo \<le> byte c \<and> byte c \<le> hi"

text \<open>
  \<^verbatim>\<open>utf8.DecodeRune\<close>: the first rune and its width; an ill-formed sequence is
  \<open>runeError\<close> of width 1. \<open>x\<close> is the lead byte.
\<close>

fun decode2 :: "nat \<Rightarrow> string \<Rightarrow> rune \<times> nat" where
  "decode2 x (b1 # _) =
     (if in_range 0x80 0xBF b1 then ((x mod 32) * 64 + byte b1 mod 64, 2) else (runeError, 1))"
| "decode2 x [] = (runeError, 1)"

fun decode3 :: "nat \<Rightarrow> string \<Rightarrow> rune \<times> nat" where
  "decode3 x (b1 # b2 # _) =
     (if in_range (if x = 0xE0 then 0xA0 else 0x80) (if x = 0xED then 0x9F else 0xBF) b1 \<and>
         in_range 0x80 0xBF b2
      then ((x mod 16) * 4096 + (byte b1 mod 64) * 64 + byte b2 mod 64, 3)
      else (runeError, 1))"
| "decode3 x _ = (runeError, 1)"

fun decode4 :: "nat \<Rightarrow> string \<Rightarrow> rune \<times> nat" where
  "decode4 x (b1 # b2 # b3 # _) =
     (if in_range (if x = 0xF0 then 0x90 else 0x80) (if x = 0xF4 then 0x8F else 0xBF) b1 \<and>
         in_range 0x80 0xBF b2 \<and> in_range 0x80 0xBF b3
      then ((x mod 8) * 262144 + (byte b1 mod 64) * 4096 + (byte b2 mod 64) * 64 + byte b3 mod 64, 4)
      else (runeError, 1))"
| "decode4 x _ = (runeError, 1)"

fun decode_rune :: "string \<Rightarrow> rune \<times> nat" where
  "decode_rune [] = (runeError, 0)"
| "decode_rune (b0 # t) =
     (let x = byte b0 in
      if x < 0x80 then (x, 1)
      else if 0xC2 \<le> x \<and> x \<le> 0xDF then decode2 x t
      else if 0xE0 \<le> x \<and> x \<le> 0xEF then decode3 x t
      else if 0xF0 \<le> x \<and> x \<le> 0xF4 then decode4 x t
      else (runeError, 1))"

text \<open>
  \<open>segs s\<close> cuts a string into its runes, each with the bytes it was read from: what
  \<^verbatim>\<open>for range s\<close> and \<^verbatim>\<open>[]rune(s)\<close> see.
\<close>

fun segs :: "string \<Rightarrow> (rune \<times> string) list" where
  "segs [] = []"
| "segs (c # cs) =
     (case decode_rune (c # cs) of
        (r, n) \<Rightarrow> (r, take n (c # cs)) # segs (drop (n - 1) cs))"

definition runes :: "string \<Rightarrow> rune list" where
  "runes s = map fst (segs s)"

definition seg_bytes :: "(rune \<times> string) list \<Rightarrow> string" where
  "seg_bytes ps = concat (map snd ps)"

text \<open>\<^verbatim>\<open>utf8.EncodeRune\<close>: an invalid rune is written as \<open>runeError\<close>.\<close>

definition encode_rune :: "rune \<Rightarrow> string" where
  "encode_rune r0 =
     (if r0 < 0x80 then [char_of r0]
      else (let r = (if valid_rune r0 then r0 else runeError) in
        if r < 0x800 then [char_of (0xC0 + r div 64), char_of (0x80 + r mod 64)]
        else if r < 0x10000 then
          [char_of (0xE0 + r div 4096), char_of (0x80 + (r div 64) mod 64), char_of (0x80 + r mod 64)]
        else
          [char_of (0xF0 + r div 262144), char_of (0x80 + (r div 4096) mod 64),
           char_of (0x80 + (r div 64) mod 64), char_of (0x80 + r mod 64)]))"

definition encode :: "rune list \<Rightarrow> string" where
  "encode rs = concat (map encode_rune rs)"

section \<open>Facts about decoding\<close>

lemma byte_lt_256: "byte c < 256"
  by (metis mod_less_divisor of_char_mod_256 zero_less_numeral)

lemma byte_char_of: "n < 256 \<Longrightarrow> byte (char_of n) = n"
  by simp

lemma decode2_width: "1 \<le> snd (decode2 x t) \<and> snd (decode2 x t) \<le> Suc (length t)"
  by (cases "(x, t)" rule: decode2.cases) auto

lemma decode3_width: "1 \<le> snd (decode3 x t) \<and> snd (decode3 x t) \<le> Suc (length t)"
  by (cases "(x, t)" rule: decode3.cases) auto

lemma decode4_width: "1 \<le> snd (decode4 x t) \<and> snd (decode4 x t) \<le> Suc (length t)"
  by (cases "(x, t)" rule: decode4.cases) auto

lemma decode_rune_width:
  "1 \<le> snd (decode_rune (c # cs)) \<and> snd (decode_rune (c # cs)) \<le> Suc (length cs)"
  using decode2_width decode3_width decode4_width by (auto simp: Let_def)

lemma decode_rune_ascii: "byte c < 0x80 \<Longrightarrow> decode_rune (c # cs) = (byte c, 1)"
  by simp

declare decode_rune.simps(2) [simp del]

lemma segs_ascii: "byte c < 0x80 \<Longrightarrow> segs (c # cs) = (byte c, [c]) # segs cs"
  by (simp add: decode_rune_ascii)

lemma segs_unfold:
  "segs (c # cs) =
     (fst (decode_rune (c # cs)), take (snd (decode_rune (c # cs))) (c # cs)) #
     segs (drop (snd (decode_rune (c # cs))) (c # cs))"
  using decode_rune_width [of c cs]
  by (cases "decode_rune (c # cs)") (auto simp: drop_Cons' Suc_le_eq)

declare segs.simps(2) [simp del]

text \<open>
  The recursion of \<open>segs\<close> over whole strings: what holds of the rest after the first
  rune holds of the string.
\<close>

lemma segs_induct [case_names Nil Step]:
  assumes "P []"
    and "\<And>s. s \<noteq> [] \<Longrightarrow> P (drop (snd (decode_rune s)) s) \<Longrightarrow> P s"
  shows "P s"
proof (induction s rule: length_induct)
  case (1 s)
  show ?case
  proof (cases s)
    case Nil
    with assms(1) show ?thesis by simp
  next
    case (Cons c cs)
    then have "length (drop (snd (decode_rune s)) s) < length s"
      using decode_rune_width [of c cs] by simp
    with 1 Cons show ?thesis by (auto intro: assms(2))
  qed
qed

lemma segs_step:
  "s \<noteq> [] \<Longrightarrow>
     segs s = (fst (decode_rune s), take (snd (decode_rune s)) s) # segs (drop (snd (decode_rune s)) s)"
  by (cases s) (simp_all only: segs_unfold, simp)

lemma seg_bytes_Nil [simp]: "seg_bytes [] = []"
  by (simp add: seg_bytes_def)

lemma seg_bytes_Cons [simp]: "seg_bytes (p # ps) = snd p @ seg_bytes ps"
  by (simp add: seg_bytes_def)

lemma seg_bytes_append [simp]: "seg_bytes (ps @ qs) = seg_bytes ps @ seg_bytes qs"
  by (simp add: seg_bytes_def)

lemma seg_bytes_segs [simp]: "seg_bytes (segs s) = s"
  by (induction s rule: segs_induct) (simp_all add: segs_step)

text \<open>
  Decoding looks only at the bytes it consumes: a string followed by more bytes decodes
  to the same first rune, unless the rune would reach past its end.
\<close>

lemma decode_rune_ext:
  assumes "s \<noteq> []" and "snd (decode_rune (s @ t)) \<le> length s"
  shows "decode_rune s = decode_rune (s @ t)"
proof -
  obtain c cs where s: "s = c # cs" using assms(1) by (cases s) auto
  have 2: "decode2 x cs = decode2 x (cs @ t)" if "snd (decode2 x (cs @ t)) \<le> Suc (length cs)" for x
    using that by (cases "(x, cs)" rule: decode2.cases; cases t) (auto split: if_splits)
  have 3: "decode3 x cs = decode3 x (cs @ t)" if "snd (decode3 x (cs @ t)) \<le> Suc (length cs)" for x
    using that by (cases "(x, cs)" rule: decode3.cases; cases "(x, cs @ t)" rule: decode3.cases)
      (auto split: if_splits)
  have 4: "decode4 x cs = decode4 x (cs @ t)" if "snd (decode4 x (cs @ t)) \<le> Suc (length cs)" for x
    using that by (cases "(x, cs)" rule: decode4.cases; cases "(x, cs @ t)" rule: decode4.cases)
      (auto split: if_splits)
  from assms(2) show ?thesis
    by (auto simp: s decode_rune.simps(2) Let_def intro: 2 3 4 split: if_splits)
qed

text \<open>An ASCII byte is never part of a longer sequence, so it is a boundary.\<close>

lemma decode_rune_before_ascii:
  assumes "s \<noteq> []" and "byte c < 0x80"
  shows "snd (decode_rune (s @ c # t)) \<le> length s"
proof -
  obtain d ds where s: "s = d # ds" using assms(1) by (cases s) auto
  have [simp]: "\<not> in_range 0x80 hi c" "\<not> in_range 0xA0 hi c" "\<not> in_range 0x90 hi c" for hi
    using assms(2) by (auto simp: in_range_def)
  have 2: "snd (decode2 x (ds @ c # t)) \<le> Suc (length ds)" for x
    by (cases "(x, ds)" rule: decode2.cases) auto
  have 3: "snd (decode3 x (ds @ c # t)) \<le> Suc (length ds)" for x
    by (cases "(x, ds)" rule: decode3.cases; cases "(x, ds @ c # t)" rule: decode3.cases) auto
  have 4: "snd (decode4 x (ds @ c # t)) \<le> Suc (length ds)" for x
    by (cases "(x, ds)" rule: decode4.cases; cases "(x, ds @ c # t)" rule: decode4.cases) auto
  show ?thesis
    using 2 3 4 by (auto simp: s decode_rune.simps(2) Let_def)
qed

lemma segs_append_ascii:
  assumes "byte c < 0x80"
  shows "segs (s @ c # t) = segs s @ segs (c # t)"
proof (induction s rule: segs_induct)
  case Nil
  show ?case by simp
next
  case (Step s)
  note le = decode_rune_before_ascii [OF Step(1) assms, of t]
  note eq = decode_rune_ext [OF Step(1) le]
  have "segs (s @ c # t) =
      (fst (decode_rune s), take (snd (decode_rune s)) s) # segs (drop (snd (decode_rune s)) s @ c # t)"
    using le eq Step(1) by (subst segs_step) (auto)
  with Step show ?case by (simp add: segs_step [OF Step(1)])
qed

section \<open>Encoding and decoding are inverse\<close>

lemma valid_runeError [simp]: "valid_rune runeError"
  by (simp add: valid_rune_def runeError_def)

lemma lead_mod: "d < m \<Longrightarrow> (m * k + d) mod m = (d::nat)"
  by simp

lemma base64_digits:
  fixes r :: nat
  obtains a b c d where "a < 64" "b < 64" "c < 64"
    "r mod 64 = a" "r div 64 mod 64 = b" "r div 4096 mod 64 = c" "r div 262144 = d"
    "r div 64 = d * 4096 + c * 64 + b" "r div 4096 = d * 64 + c"
    "r = d * 262144 + c * 4096 + b * 64 + a"
proof
  have split: "n = n div 64 * 64 + n mod 64" for n :: nat by simp
  have q: "r div 64 div 64 = r div 4096" "r div 4096 div 64 = r div 262144"
    by (simp_all flip: div_mult2_eq)
  show p: "r div 4096 = r div 262144 * 64 + r div 4096 mod 64"
    using split [of "r div 4096"] by (simp only: q)
  show q': "r div 64 = r div 262144 * 4096 + r div 4096 mod 64 * 64 + r div 64 mod 64"
    using split [of "r div 64"] unfolding q(1) by (subst (asm) p) (simp add: algebra_simps)
  show "r = r div 262144 * 262144 + r div 4096 mod 64 * 4096 + r div 64 mod 64 * 64 + r mod 64"
    using split [of r] by (subst (asm) q') (simp add: algebra_simps)
qed simp_all

lemma cont_byte [simp]:
  assumes "a < 64"
  shows "byte (char_of (0x80 + a :: nat)) = 0x80 + a" and "(0x80 + a) mod 64 = a"
  using assms lead_mod [of a 64 2] by simp_all

lemma decode2_digits:
  assumes "a < 64" and "c < 32"
  shows "decode2 (0xC0 + c) (char_of (0x80 + a) # t) = (c * 64 + a, 2)"
  using assms lead_mod [of c 32 6] by (simp add: in_range_def)

lemma decode3_digits:
  assumes "a < 64" and "b < 64" and "d < 16"
    and "d = 0 \<Longrightarrow> 0x20 \<le> b" and "d = 13 \<Longrightarrow> b < 0x20"
  shows "decode3 (0xE0 + d) (char_of (0x80 + b) # char_of (0x80 + a) # t) =
    (d * 4096 + b * 64 + a, 3)"
  using assms lead_mod [of d 16 14] by (auto simp: in_range_def)

lemma decode4_digits:
  assumes "a < 64" and "b < 64" and "c < 64" and "d < 8"
    and "d = 0 \<Longrightarrow> 0x10 \<le> c" and "d = 4 \<Longrightarrow> c < 0x10"
  shows "decode4 (0xF0 + d) (char_of (0x80 + c) # char_of (0x80 + b) # char_of (0x80 + a) # t) =
    (d * 262144 + c * 4096 + b * 64 + a, 4)"
  using assms lead_mod [of d 8 30] by (auto simp: in_range_def)

lemma decode_encode_rune:
  assumes "valid_rune r"
  shows "decode_rune (encode_rune r @ t) = (r, length (encode_rune r))"
proof -
  have top: "r \<le> 0x10FFFF" and sur: "r < 0xD800 \<or> 0xE000 \<le> r"
    using assms by (auto simp: valid_rune_def)
  obtain a b c d where lt: "a < 64" "b < 64" "c < 64"
    and dig: "r mod 64 = a" "r div 64 mod 64 = b" "r div 4096 mod 64 = c" "r div 262144 = d"
      "r div 64 = d * 4096 + c * 64 + b" "r div 4096 = d * 64 + c"
    and r: "r = d * 262144 + c * 4096 + b * 64 + a"
    by (rule base64_digits)
  consider "r < 0x80" | "0x80 \<le> r" "r < 0x800" | "0x800 \<le> r" "r < 0x10000" | "0x10000 \<le> r"
    by linarith
  then show ?thesis
  proof cases
    case 1
    then show ?thesis by (simp add: encode_rune_def assms decode_rune_ascii)
  next
    case 2
    then have "d < 1" "c < 1" using r lt by linarith+
    then have z: "d = 0" "c = 0" by simp_all
    with 2 r lt have b: "b < 32" "2 \<le> b" by linarith+
    have "encode_rune r = [char_of (0xC0 + b), char_of (0x80 + a)]"
      using 2 by (simp add: encode_rune_def assms dig z Let_def)
    moreover have "byte (char_of (0xC0 + b)) = 0xC0 + b" using b by simp
    ultimately show ?thesis
      using decode2_digits [OF lt(1) b(1), of t] b r z
      by (simp add: decode_rune.simps(2) Let_def del: decode2.simps)
  next
    case 3
    then have "d < 1" using r lt by linarith
    then have d: "d = 0" by simp
    with 3 r lt sur have c: "c < 16" and z: "c = 0 \<Longrightarrow> 0x20 \<le> b" "c = 13 \<Longrightarrow> b < 0x20"
      by linarith+
    have "encode_rune r = [char_of (0xE0 + c), char_of (0x80 + b), char_of (0x80 + a)]"
      using 3 lt by (simp add: encode_rune_def assms dig d Let_def)
    moreover have "byte (char_of (0xE0 + c)) = 0xE0 + c" using c by simp
    ultimately show ?thesis
      using decode3_digits [OF lt(1,2) c z, of t] c r d
      by (simp add: decode_rune.simps(2) Let_def del: decode3.simps)
  next
    case 4
    then have d: "d < 8" "d \<le> 4" and z: "d = 0 \<Longrightarrow> 0x10 \<le> c" "d = 4 \<Longrightarrow> c < 0x10"
      using r lt top by linarith+
    have "encode_rune r =
        [char_of (0xF0 + d), char_of (0x80 + c), char_of (0x80 + b), char_of (0x80 + a)]"
      using 4 lt by (simp add: encode_rune_def assms dig(1-4) Let_def)
    moreover have "byte (char_of (0xF0 + d)) = 0xF0 + d" using d by simp
    ultimately show ?thesis
      using decode4_digits [OF lt d(1) z, of t] d r
      by (simp add: decode_rune.simps(2) Let_def del: decode4.simps)
  qed
qed

lemma encode_rune_nonempty [simp]: "encode_rune r \<noteq> []"
  by (simp add: encode_rune_def Let_def)

lemma runes_Nil [simp]: "runes [] = []"
  by (simp add: runes_def)

lemma runes_encode: "\<forall>r \<in> set rs. valid_rune r \<Longrightarrow> runes (encode rs) = rs"
proof (induction rs)
  case Nil
  show ?case by (simp add: encode_def)
next
  case (Cons r rs)
  then have "decode_rune (encode_rune r @ encode rs) = (r, length (encode_rune r))"
    by (simp add: decode_encode_rune)
  with Cons show ?case
    by (simp add: encode_def runes_def segs_step)
qed

text \<open>Decoding yields scalar values only, or \<open>runeError\<close>.\<close>

lemma decode2_valid: "valid_rune (fst (decode2 x t))"
proof (cases "(x, t)" rule: decode2.cases)
  case (1 x' b1 t')
  have "x mod 32 \<le> 31" and "byte b1 mod 64 \<le> 63"
    using mod_less_divisor [of 32 x] mod_less_divisor [of 64 "byte b1"] by simp_all
  with 1 show ?thesis by (auto simp: valid_rune_def [of "_ + _"])
qed simp

lemma decode3_valid:
  assumes "0xE0 \<le> x" and "x \<le> 0xEF"
  shows "valid_rune (fst (decode3 x t))"
proof (cases "(x, t)" rule: decode3.cases)
  case (1 x' b1 b2 t')
  define d where "d = x - 0xE0"
  have x: "x = 0xE0 + d" and d: "d < 16" using assms by (auto simp: d_def)
  then have m: "(0xE0 + d) mod 16 = d" using lead_mod [of d 16 14] by simp
  define b where "b = byte b1 mod 64"
  define a where "a = byte b2 mod 64"
  have lt: "a < 64" "b < 64" by (simp_all add: a_def b_def)
  have sur: "b < 0x20" if rng: "in_range 0x80 0x9F b1"
  proof -
    define k where "k = byte b1 - 0x80"
    have "byte b1 = 0x80 + k" "k < 0x20" using rng by (auto simp: in_range_def k_def)
    then show ?thesis using lead_mod [of k 64 2] by (simp add: b_def)
  qed
  show ?thesis
    using 1 x d lt sur by (cases "d = 13") (auto simp: m valid_rune_def [of "_ + _"] simp flip: a_def b_def)
qed simp_all

lemma decode4_valid:
  assumes "0xF0 \<le> x" and "x \<le> 0xF4"
  shows "valid_rune (fst (decode4 x t))"
proof (cases "(x, t)" rule: decode4.cases)
  case (1 x' b1 b2 b3 t')
  define d where "d = x - 0xF0"
  have x: "x = 0xF0 + d" and d: "d \<le> 4" using assms by (auto simp: d_def)
  then have m: "(0xF0 + d) mod 8 = d" using lead_mod [of d 8 30] by simp
  define c where "c = byte b1 mod 64"
  define b where "b = byte b2 mod 64"
  define a where "a = byte b3 mod 64"
  have lt: "a < 64" "b < 64" "c < 64" by (simp_all add: a_def b_def c_def)
  have hi: "c < 0x10" if rng: "in_range 0x80 0x8F b1"
  proof -
    define k where "k = byte b1 - 0x80"
    have "byte b1 = 0x80 + k" "k < 0x10" using rng by (auto simp: in_range_def k_def)
    then show ?thesis using lead_mod [of k 64 2] by (simp add: c_def)
  qed
  have lo: "0x10 \<le> c" if rng: "in_range 0x90 hi b1" "hi \<le> 0xBF" for hi
  proof -
    define k where "k = byte b1 - 0x80"
    have "byte b1 = 0x80 + k" "0x10 \<le> k" "k < 64" using rng by (auto simp: in_range_def k_def)
    then show ?thesis using lead_mod [of k 64 2] by (simp add: c_def)
  qed
  show ?thesis
    using 1 x d lt hi lo [of "0xBF"] by (cases "d = 4"; cases "d = 0")
      (auto simp: m valid_rune_def [of "_ + _"] simp flip: a_def b_def c_def)
qed simp_all

lemma decode_rune_valid: "valid_rune (fst (decode_rune s))"
proof (cases s)
  case (Cons c cs)
  have "valid_rune x" if "x < 0x80" for x using that by (simp add: valid_rune_def)
  then show ?thesis
    by (auto simp: Cons decode_rune.simps(2) Let_def
        intro: decode2_valid decode3_valid decode4_valid)
qed simp

lemma runes_valid: "r \<in> set (runes s) \<Longrightarrow> valid_rune r"
  by (induction s rule: segs_induct) (auto simp: runes_def segs_step decode_rune_valid)

end
