(* ===== verification/Go_Segments.thy ===== *)
theory Go_Segments
  imports Go_Utf8
begin

text \<open>
  The segments of a string, that is its runes with the bytes they were read from: each one
  reads the same in every other context, and there are only three shapes of them.
\<close>

section \<open>Multi-byte runes are not ASCII\<close>

text \<open>Continuation bytes carry at least as much as the shortest-form rules demand.\<close>

lemma cont_low_bits:
  assumes "0x80 + k \<le> byte c" and "byte c \<le> 0xBF"
  shows "k \<le> byte c mod 64"
proof -
  define j where "j = byte c - 0x80"
  have "byte c = 0x80 + j" "k \<le> j" "j < 64" using assms by (auto simp: j_def)
  then show ?thesis using lead_mod [of j 64 2] by simp
qed

lemma decode2_high:
  assumes "0xC2 \<le> x" and "x \<le> 0xDF"
  shows "0x80 \<le> fst (decode2 x t)"
proof -
  define k where "k = x - 0xC0"
  have "x = 0xC0 + k" "2 \<le> k" "k < 32" using assms by (auto simp: k_def)
  then have "2 \<le> x mod 32" using lead_mod [of k 32 6] by simp
  then show ?thesis by (cases "(x, t)" rule: decode2.cases) (auto simp: runeError_def)
qed

lemma cont_A0: "in_range 0xA0 0xBF c \<Longrightarrow> 0x20 \<le> byte c mod 64"
  using cont_low_bits [of "0x20" c] by (simp add: in_range_def)

lemma cont_90: "in_range 0x90 0xBF c \<Longrightarrow> 0x10 \<le> byte c mod 64"
  using cont_low_bits [of "0x10" c] by (simp add: in_range_def)

lemma decode3_high:
  assumes "0xE0 \<le> x" and "x \<le> 0xEF"
  shows "0x80 \<le> fst (decode3 x t)"
proof -
  define k where "k = x - 0xE0"
  have x: "x = 0xE0 + k" and k: "k < 16" using assms by (auto simp: k_def)
  then have m: "(0xE0 + k) mod 16 = k" using lead_mod [of k 16 14] by simp
  show ?thesis
    by (cases "(x, t)" rule: decode3.cases; cases "k = 0")
      (auto simp: x m runeError_def dest!: cont_A0)
qed

lemma decode4_high:
  assumes "0xF0 \<le> x" and "x \<le> 0xF4"
  shows "0x80 \<le> fst (decode4 x t)"
proof -
  define k where "k = x - 0xF0"
  have x: "x = 0xF0 + k" and k: "k < 8" using assms by (auto simp: k_def)
  then have m: "(0xF0 + k) mod 8 = k" using lead_mod [of k 8 30] by simp
  show ?thesis
    by (cases "(x, t)" rule: decode4.cases; cases "k = 0")
      (auto simp: x m runeError_def dest!: cont_90)
qed

section \<open>Runes that were read once read the same again\<close>

text \<open>A rune of several bytes: its width, its bytes, and that no later byte matters.\<close>

lemma decode2_read:
  assumes "decode2 x cs = (r, n)"
  shows "n \<noteq> 1 \<Longrightarrow> n = 2 \<and> decode2 x (take 1 cs @ u) = (r, n) \<and> (\<forall>b \<in> set (take 1 cs). 0x80 \<le> byte b)"
    and "n = 1 \<Longrightarrow> r = runeError"
  using assms by (cases "(x, cs)" rule: decode2.cases; auto simp: in_range_def split: if_splits)+

lemma decode3_read:
  assumes "decode3 x cs = (r, n)"
  shows "n \<noteq> 1 \<Longrightarrow> n = 3 \<and> decode3 x (take 2 cs @ u) = (r, n) \<and> (\<forall>b \<in> set (take 2 cs). 0x80 \<le> byte b)"
    and "n = 1 \<Longrightarrow> r = runeError"
  using assms by (cases "(x, cs)" rule: decode3.cases; auto simp: in_range_def split: if_splits)+

lemma decode4_read:
  assumes "decode4 x cs = (r, n)"
  shows "n \<noteq> 1 \<Longrightarrow> n = 4 \<and> decode4 x (take 3 cs @ u) = (r, n) \<and> (\<forall>b \<in> set (take 3 cs). 0x80 \<le> byte b)"
    and "n = 1 \<Longrightarrow> r = runeError"
  using assms by (cases "(x, cs)" rule: decode4.cases; auto simp: in_range_def split: if_splits)+

lemma decode_rune_cases:
  assumes "decode_rune (c # cs) = (r, n)" and "0x80 \<le> byte c"
  obtains (error) "r = runeError" "n = 1"
  | (two) "0xC2 \<le> byte c" "byte c \<le> 0xDF" "decode2 (byte c) cs = (r, n)"
  | (three) "0xE0 \<le> byte c" "byte c \<le> 0xEF" "decode3 (byte c) cs = (r, n)"
  | (four) "0xF0 \<le> byte c" "byte c \<le> 0xF4" "decode4 (byte c) cs = (r, n)"
  using assms by (auto simp: decode_rune.simps(2) Let_def split: if_splits)

lemma decode_rune_long:
  assumes "decode_rune (c # cs) = (r, n)" and "0x80 \<le> byte c" and "n \<noteq> 1"
  shows "decode_rune (take n (c # cs) @ u) = (r, n)" and "\<forall>b \<in> set (take n (c # cs)). 0x80 \<le> byte b"
    and "0x80 \<le> r"
proof -
  have "decode_rune (take n (c # cs) @ u) = (r, n) \<and> (\<forall>b \<in> set (take n (c # cs)). 0x80 \<le> byte b)
      \<and> 0x80 \<le> r"
    using assms(1,2)
  proof (cases rule: decode_rune_cases)
    case error
    with assms(3) show ?thesis by simp
  next
    case two
    with decode2_read(1) [OF two(3) assms(3), of u] decode2_high [OF two(1,2), of cs] assms(2)
    show ?thesis by (simp add: decode_rune.simps(2) Let_def)
  next
    case three
    with decode3_read(1) [OF three(3) assms(3), of u] decode3_high [OF three(1,2), of cs] assms(2)
    show ?thesis by (simp add: decode_rune.simps(2) Let_def)
  next
    case four
    with decode4_read(1) [OF four(3) assms(3), of u] decode4_high [OF four(1,2), of cs] assms(2)
    show ?thesis by (simp add: decode_rune.simps(2) Let_def)
  qed
  then show "decode_rune (take n (c # cs) @ u) = (r, n)"
    "\<forall>b \<in> set (take n (c # cs)). 0x80 \<le> byte b" "0x80 \<le> r" by simp_all
qed

text \<open>A piece reads as \<open>r\<close> when decoding it yields \<open>r\<close> and consumes it, whatever follows.\<close>

definition reads_as :: "string \<Rightarrow> rune \<Rightarrow> bool" where
  "reads_as b r \<longleftrightarrow> b \<noteq> [] \<and> (\<forall>u. decode_rune (b @ u) = (r, length b))"

lemma reads_as_encode: "valid_rune r \<Longrightarrow> reads_as (encode_rune r) r"
  by (simp add: reads_as_def decode_encode_rune)

lemma runes_pieces:
  "list_all (\<lambda>p. reads_as (g p) (fst p)) ps \<Longrightarrow> runes (concat (map g ps)) = map fst ps"
proof (induction ps)
  case Nil
  show ?case by simp
next
  case (Cons p ps)
  then show ?case by (simp add: reads_as_def runes_def segs_step)
qed

lemma bad_lead:
  assumes "decode_rune (c # cs) = (r, 1)" and "0x80 \<le> byte c"
  shows "r = runeError"
  using assms by (cases rule: decode_rune_cases) (simp_all add: decode2_read(2) decode3_read(2) decode4_read(2))

text \<open>The three shapes of a segment: an ASCII byte, a byte that starts no rune, a longer rune.\<close>

lemma seg_cases:
  assumes "p \<in> set (segs s)"
  obtains (ascii) c where "p = (byte c, [c])" "byte c < 0x80"
  | (bad) c where "p = (runeError, [c])" "0x80 \<le> byte c"
  | (long) r b where "p = (r, b)" "length b \<noteq> 1" "0x80 \<le> r" "reads_as b r" "\<forall>c \<in> set b. 0x80 \<le> byte c"
proof -
  have "(\<exists>c. p = (byte c, [c]) \<and> byte c < 0x80) \<or> (\<exists>c. p = (runeError, [c]) \<and> 0x80 \<le> byte c)
    \<or> (\<exists>r b. p = (r, b) \<and> length b \<noteq> 1 \<and> 0x80 \<le> r \<and> reads_as b r \<and> (\<forall>c \<in> set b. 0x80 \<le> byte c))"
    using assms
  proof (induction s rule: segs_induct)
    case Nil
    then show ?case by simp
  next
    case (Step s)
    obtain c cs where s: "s = c # cs" using Step(1) by (cases s) auto
    obtain r n where d: "decode_rune (c # cs) = (r, n)" by fastforce
    have w: "1 \<le> n" "n \<le> Suc (length cs)" using decode_rune_width [of c cs] d by auto
    have "?case" if p: "p = (r, take n (c # cs))"
    proof (cases "byte c < 0x80")
      case True
      with d have "n = 1" "r = byte c" by (simp_all add: decode_rune_ascii)
      with p True show ?thesis by simp
    next
      case high: False
      show ?thesis
      proof (cases "n = 1")
        case True
        with bad_lead [of c cs r] d p high show ?thesis by simp
      next
        case False
        have high': "0x80 \<le> byte c" using high by simp
        note long = decode_rune_long [OF d high' False]
        have "reads_as (take n (c # cs)) r" using long(1) w by (auto simp: reads_as_def)
        with p w False long(2,3) show ?thesis by auto
      qed
    qed
    then show ?case using Step by (auto simp: segs_step s d)
  qed
  with that show thesis by blast
qed

end
