(* ===== verification/Go_Strings.thy ===== *)
theory Go_Strings
  imports Go_Segments
begin

text \<open>
  The functions of Go's packages \<^verbatim>\<open>strings\<close>, \<^verbatim>\<open>unicode\<close> and
  \<^verbatim>\<open>strconv\<close> that the relay calls, and their laws. The Unicode tables beyond ASCII
  are the record \<open>unicode\<close>, an argument of the functions that consult them.
\<close>

section \<open>Unicode tables and white space\<close>

record unicode =
  uc_lower :: "rune \<Rightarrow> rune"              \<comment> \<open>\<^verbatim>\<open>unicode.ToLower\<close>\<close>
  uc_fold :: "rune \<Rightarrow> rune \<Rightarrow> bool"       \<comment> \<open>same \<^verbatim>\<open>unicode.SimpleFold\<close> orbit\<close>
  uc_print :: "rune \<Rightarrow> bool"              \<comment> \<open>\<^verbatim>\<open>strconv.IsPrint\<close>\<close>

text \<open>A table that leaves runes beyond ASCII alone, for concrete runs.\<close>

definition ascii_tables :: unicode where
  "ascii_tables = \<lparr>uc_lower = (\<lambda>r. r), uc_fold = (\<lambda>a b. a = b), uc_print = (\<lambda>r. True)\<rparr>"

definition isSpace :: "rune \<Rightarrow> bool" where
  "isSpace r =
     (if r \<le> 0xFF then
        r = 9 \<or> r = 10 \<or> r = 11 \<or> r = 12 \<or> r = 13 \<or> r = 32 \<or> r = 0x85 \<or> r = 0xA0
      else
        r = 0x1680 \<or> (0x2000 \<le> r \<and> r \<le> 0x200A) \<or> r = 0x2028 \<or> r = 0x2029 \<or> r = 0x202F \<or>
        r = 0x205F \<or> r = 0x3000)"

definition trim_segs :: "(rune \<times> string) list \<Rightarrow> (rune \<times> string) list" where
  "trim_segs ps =
     rev (dropWhile (\<lambda>p. isSpace (fst p)) (rev (dropWhile (\<lambda>p. isSpace (fst p)) ps)))"

text \<open>\<^verbatim>\<open>strings.TrimSpace\<close>\<close>

definition trimSpace :: "string \<Rightarrow> string" where
  "trimSpace s = seg_bytes (trim_segs (segs s))"

section \<open>Case\<close>

definition lower_byte :: "char \<Rightarrow> char" where
  "lower_byte c = (if 65 \<le> byte c \<and> byte c \<le> 90 then char_of (byte c + 32) else c)"

definition ascii_lower :: "rune \<Rightarrow> rune" where
  "ascii_lower r = (if 65 \<le> r \<and> r \<le> 90 then r + 32 else r)"

definition rune_lower :: "unicode \<Rightarrow> rune \<Rightarrow> rune" where
  "rune_lower U r = (if r < 0x80 then ascii_lower r else uc_lower U r)"

text \<open>\<^verbatim>\<open>strings.ToLower\<close>: an ASCII fast path, else rune by rune.\<close>

definition toLower :: "unicode \<Rightarrow> string \<Rightarrow> string" where
  "toLower U s =
     (if list_all (\<lambda>c. byte c < 0x80) s then map lower_byte s
      else encode (map (rune_lower U) (runes s)))"

definition fold_eq :: "unicode \<Rightarrow> rune \<Rightarrow> rune \<Rightarrow> bool" where
  "fold_eq U a b \<longleftrightarrow>
     a = b \<or> (if a < 0x80 \<and> b < 0x80 then ascii_lower a = ascii_lower b else uc_fold U a b)"

text \<open>\<^verbatim>\<open>strings.EqualFold\<close>\<close>

definition equalFold :: "unicode \<Rightarrow> string \<Rightarrow> string \<Rightarrow> bool" where
  "equalFold U s t = list_all2 (fold_eq U) (runes s) (runes t)"

definition hasPrefix :: "string \<Rightarrow> string \<Rightarrow> bool" where
  "hasPrefix s p \<longleftrightarrow> take (length p) s = p"

text \<open>\<^verbatim>\<open>strings.Split\<close> at a one-byte separator\<close>

fun splitOn :: "char \<Rightarrow> string \<Rightarrow> string list" where
  "splitOn sep [] = [[]]"
| "splitOn sep (c # cs) =
     (if c = sep then [] # splitOn sep cs
      else (case splitOn sep cs of [] \<Rightarrow> [[c]] | x # xs \<Rightarrow> (c # x) # xs))"

section \<open>Decimal numbers\<close>

fun show_nat :: "nat \<Rightarrow> string" where
  "show_nat n =
     (if n < 10 then [char_of (48 + n)] else show_nat (n div 10) @ [char_of (48 + n mod 10)])"

declare show_nat.simps [simp del]

text \<open>\<^verbatim>\<open>strconv.Itoa\<close> and the verb \<^verbatim>\<open>%d\<close>\<close>

definition itoa :: "int \<Rightarrow> string" where
  "itoa i = (if i < 0 then CHR ''-'' # show_nat (nat (- i)) else show_nat (nat i))"

fun digits_val :: "nat \<Rightarrow> string \<Rightarrow> nat option" where
  "digits_val acc [] = Some acc"
| "digits_val acc (c # cs) =
     (if 48 \<le> byte c \<and> byte c \<le> 57 then digits_val (10 * acc + (byte c - 48)) cs else None)"

text \<open>
  \<^verbatim>\<open>strconv.Atoi\<close> and \<^verbatim>\<open>strconv.ParseInt(s, 10, 64)\<close>: \<open>None\<close> for a
  syntax error or a value outside the signed 64-bit range.
\<close>

definition atoi :: "string \<Rightarrow> int option" where
  "atoi s =
     (let neg = (take 1 s = ''-'');
          ds = (if take 1 s = ''-'' \<or> take 1 s = ''+'' then drop 1 s else s)
      in if ds = [] then None
         else (case digits_val 0 ds of
                 None \<Rightarrow> None
               | Some n \<Rightarrow>
                   (let v = (if neg then - int n else int n)
                    in if int64 v then Some v else None)))"

section \<open>Quoting\<close>

definition hex_digit :: "nat \<Rightarrow> char" where
  "hex_digit d = (if d < 10 then char_of (48 + d) else char_of (87 + d))"

fun hex :: "nat \<Rightarrow> nat \<Rightarrow> string" where
  "hex 0 n = []"
| "hex (Suc w) n = hex w (n div 16) @ [hex_digit (n mod 16)]"

definition quote_seg :: "unicode \<Rightarrow> rune \<times> string \<Rightarrow> string" where
  "quote_seg U p =
     (let r = fst p; b = snd p in
      if r = runeError \<and> length b = 1 then [CHR 0x5C, CHR ''x''] @ hex 2 (byte (hd b))
      else if r = 0x22 \<or> r = 0x5C then CHR 0x5C # b
      else if 0x20 \<le> r \<and> r < 0x7F then b
      else if r = 7 then [CHR 0x5C, CHR ''a'']
      else if r = 8 then [CHR 0x5C, CHR ''b'']
      else if r = 9 then [CHR 0x5C, CHR ''t'']
      else if r = 10 then [CHR 0x5C, CHR ''n'']
      else if r = 11 then [CHR 0x5C, CHR ''v'']
      else if r = 12 then [CHR 0x5C, CHR ''f'']
      else if r = 13 then [CHR 0x5C, CHR ''r'']
      else if r < 0x20 \<or> r = 0x7F then [CHR 0x5C, CHR ''x''] @ hex 2 r
      else if uc_print U r then b
      else if r < 0x10000 then [CHR 0x5C, CHR ''u''] @ hex 4 r
      else [CHR 0x5C, CHR ''U''] @ hex 8 r)"

text \<open>\<^verbatim>\<open>strconv.Quote\<close>, the verb \<^verbatim>\<open>%q\<close>\<close>

definition goQuote :: "unicode \<Rightarrow> string \<Rightarrow> string" where
  "goQuote U s = CHR 0x22 # concat (map (quote_seg U) (segs s)) @ [CHR 0x22]"

text \<open>
  Text that is safe on a line of its own: no control character, so no line end either.
  Quoting makes any string safe.
\<close>

definition clean_text :: "string \<Rightarrow> bool" where
  "clean_text t \<longleftrightarrow> list_all (\<lambda>c. 0x20 \<le> byte c \<and> byte c \<noteq> 0x7F) t"

lemma clean_text_simps [simp]:
  "clean_text []" "clean_text (s @ t) \<longleftrightarrow> clean_text s \<and> clean_text t"
  "clean_text (c # t) \<longleftrightarrow> 0x20 \<le> byte c \<and> byte c \<noteq> 0x7F \<and> clean_text t"
  by (auto simp: clean_text_def)

lemma clean_text_concat: "clean_text (concat ss) \<longleftrightarrow> list_all clean_text ss"
  by (induction ss) simp_all

lemma clean_hex: "clean_text (hex w n)"
proof (induction w arbitrary: n)
  case 0
  show ?case by simp
next
  case (Suc w)
  define d where "d = n mod 16"
  have d: "d < 16" by (simp add: d_def)
  have "byte (char_of (48 + d)) = 48 + d" "byte (char_of (87 + d)) = 87 + d"
    by (rule byte_char_of, use d in simp)+
  with d have "clean_text [hex_digit d]" by (auto simp: hex_digit_def)
  with Suc show ?case by (simp flip: d_def)
qed

lemma clean_quote_seg:
  assumes "p \<in> set (segs s)"
  shows "clean_text (quote_seg U p)"
  using assms
proof (cases rule: seg_cases)
  case (ascii c)
  then show ?thesis by (auto simp: quote_seg_def Let_def clean_hex runeError_def)
next
  case (bad c)
  then show ?thesis by (simp add: quote_seg_def clean_hex)
next
  case (long r b)
  then have "clean_text b" by (fastforce simp: clean_text_def list_all_iff)
  with long show ?thesis by (auto simp: quote_seg_def Let_def clean_hex)
qed

lemma clean_goQuote: "clean_text (goQuote U s)"
  using clean_quote_seg by (auto simp: goQuote_def clean_text_concat list_all_iff)

section \<open>Laws of trimming\<close>

lemma segs_dropWhile: "segs (seg_bytes (dropWhile P (segs s))) = dropWhile P (segs s)"
  by (induction s rule: segs_induct) (auto simp: segs_step)

lemma segs_take: "segs (seg_bytes (take k (segs s))) = take k (segs s)"
proof (induction s arbitrary: k rule: segs_induct)
  case Nil
  show ?case by simp
next
  case (Step s)
  let ?n = "snd (decode_rune s)"
  obtain c cs where s: "s = c # cs" using Step(1) by (cases s) auto
  have n: "1 \<le> ?n" "?n \<le> length s" using decode_rune_width [of c cs] by (simp_all add: s)
  show ?case
  proof (cases k)
    case 0
    then show ?thesis by simp
  next
    case (Suc k')
    let ?rest = "segs (drop ?n s)"
    let ?t = "take ?n s @ seg_bytes (take k' ?rest)"
    have "s = ?t @ seg_bytes (drop k' ?rest)"
      using seg_bytes_append [of "take k' ?rest" "drop k' ?rest"] by simp
    moreover have ne: "?t \<noteq> []" and "?n \<le> length ?t" using n Step(1) by auto
    ultimately have dec: "decode_rune ?t = decode_rune s"
      using decode_rune_ext [of ?t "seg_bytes (drop k' ?rest)"] by metis
    have "segs ?t = (fst (decode_rune s), take ?n s) # segs (seg_bytes (take k' ?rest))"
      using n by (subst segs_step [OF ne]) (simp add: dec)
    then show ?thesis by (simp add: Suc segs_step [OF Step(1)] Step(2))
  qed
qed

lemma segs_trimSpace: "segs (trimSpace s) = trim_segs (segs s)"
proof -
  let ?P = "\<lambda>p :: rune \<times> string. isSpace (fst p)"
  define qs where "qs = dropWhile ?P (segs s)"
  have qs: "segs (seg_bytes qs) = qs" unfolding qs_def by (rule segs_dropWhile)
  obtain k where "trim_segs (segs s) = take k qs"
    using rev_dropWhile_rev_take [of ?P qs] by (auto simp: trim_segs_def qs_def)
  then show ?thesis
    using segs_take [of k "seg_bytes qs"] by (simp add: trimSpace_def qs)
qed

lemma trim_segs_last: "trim_segs ps \<noteq> [] \<Longrightarrow> \<not> isSpace (fst (last (trim_segs ps)))"
  unfolding trim_segs_def by (rule last_rev_dropWhile_rev)

lemma trim_segs_hd:
  assumes "trim_segs ps \<noteq> []"
  shows "\<not> isSpace (fst (hd (trim_segs ps)))"
proof -
  let ?P = "\<lambda>p :: rune \<times> string. isSpace (fst p)"
  let ?qs = "dropWhile ?P ps"
  obtain k where k: "trim_segs ps = take k ?qs"
    using rev_dropWhile_rev_take [of ?P ?qs] by (auto simp: trim_segs_def)
  with assms have "?qs \<noteq> []" and "hd (trim_segs ps) = hd ?qs"
    by (metis take_Nil) (metis k assms hd_take gr0I take_0)
  with hd_dropWhile [of ?P ps] show ?thesis by simp
qed

lemma trim_segs_id:
  assumes "ps \<noteq> []" and "\<not> isSpace (fst (hd ps))" and "\<not> isSpace (fst (last ps))"
  shows "trim_segs ps = ps"
proof -
  have "dropWhile (\<lambda>p. isSpace (fst p)) ps = ps" using assms(1,2) by (cases ps) auto
  moreover have "rev (dropWhile (\<lambda>p. isSpace (fst p)) (rev ps)) = ps"
    by (rule dropWhile_rev_append_keep) (use assms(1,3) in auto)
  ultimately show ?thesis unfolding trim_segs_def by (simp only:)
qed

lemma trim_segs_Nil [simp]: "trim_segs [] = []"
  by (simp add: trim_segs_def)

lemma trim_segs_idem: "trim_segs (trim_segs ps) = trim_segs ps"
proof (cases "trim_segs ps = []")
  case True
  then show ?thesis by simp
next
  case False
  then show ?thesis by (intro trim_segs_id trim_segs_hd trim_segs_last)
qed

lemma trimSpace_idem [simp]: "trimSpace (trimSpace s) = trimSpace s"
  by (simp add: trimSpace_def [of "trimSpace s"] segs_trimSpace trim_segs_idem)
    (simp add: trimSpace_def)

lemma trimSpace_Nil [simp]: "trimSpace [] = []"
  by (simp add: trimSpace_def trim_segs_def)

section \<open>Laws of lowering\<close>

lemma byte_lower:
  "byte (lower_byte c) = ascii_lower (byte c)"
  by (simp add: lower_byte_def ascii_lower_def)

lemma lower_byte_idem [simp]: "lower_byte (lower_byte c) = lower_byte c"
  by (simp add: lower_byte_def)

lemma map_lower_idem [simp]: "map lower_byte (map lower_byte s) = map lower_byte s"
  by simp

lemma ascii_lower_small: "ascii_lower r < 0x80 \<longleftrightarrow> r < 0x80"
  by (auto simp: ascii_lower_def)

lemma lower_byte_high: "0x80 \<le> byte c \<Longrightarrow> lower_byte c = c"
  by (simp add: lower_byte_def)

lemma in_range_lower: "0x80 \<le> lo \<Longrightarrow> in_range lo hi (lower_byte c) = in_range lo hi c"
  by (auto simp: in_range_def byte_lower ascii_lower_def)

lemma in_range_lower_byte: "in_range lo hi c \<Longrightarrow> 0x80 \<le> lo \<Longrightarrow> lower_byte c = c"
  by (simp add: in_range_def lower_byte_high)

text \<open>
  Lowering bytes in place commutes with decoding: only single-byte runes change.
\<close>

lemma decode2_lower: "decode2 x (map lower_byte t) = decode2 x t"
  by (cases "(x, t)" rule: decode2.cases) (auto simp: in_range_lower in_range_lower_byte)

lemma decode3_lower: "decode3 x (map lower_byte t) = decode3 x t"
  by (cases "(x, t)" rule: decode3.cases) (auto simp: in_range_lower in_range_lower_byte)

lemma decode4_lower: "decode4 x (map lower_byte t) = decode4 x t"
  by (cases "(x, t)" rule: decode4.cases) (auto simp: in_range_lower in_range_lower_byte)

lemma ascii_lower_high: "0x80 \<le> r \<Longrightarrow> ascii_lower r = r"
  by (simp add: ascii_lower_def)

lemma runeError_lower [simp]: "ascii_lower runeError = runeError"
  by (simp add: ascii_lower_def runeError_def)

lemma decode_rune_lower:
  "decode_rune (map lower_byte s) = (ascii_lower (fst (decode_rune s)), snd (decode_rune s))"
proof (cases s)
  case Nil
  then show ?thesis by simp
next
  case (Cons c cs)
  show ?thesis
  proof (cases "byte c < 0x80")
    case True
    then show ?thesis
      by (simp add: Cons decode_rune_ascii byte_lower ascii_lower_small)
  next
    case False
    then show ?thesis
      by (auto simp: Cons decode_rune.simps(2) Let_def lower_byte_high decode2_lower decode3_lower
          decode4_lower intro!: prod_eqI ascii_lower_high [symmetric] decode2_high decode3_high decode4_high)
  qed
qed

lemma segs_lower:
  "segs (map lower_byte s) = map (\<lambda>p. (ascii_lower (fst p), map lower_byte (snd p))) (segs s)"
proof (induction s rule: segs_induct)
  case Nil
  show ?case by simp
next
  case (Step s)
  then have "map lower_byte s \<noteq> []" by simp
  then show ?case
    using Step by (simp add: segs_step decode_rune_lower take_map drop_map)
qed

lemma runes_lower: "runes (map lower_byte s) = map ascii_lower (runes s)"
  by (simp add: runes_def segs_lower)

lemma segs_eq_Nil [simp]: "segs s = [] \<longleftrightarrow> s = []"
  by (cases "s = []") (simp_all add: segs_step)

lemma runes_eq_Nil [simp]: "runes s = [] \<longleftrightarrow> s = []"
  by (simp add: runes_def)

lemma encode_eq_Nil [simp]: "encode rs = [] \<longleftrightarrow> rs = []"
  by (auto simp: encode_def)

lemma toLower_eq_Nil [simp]: "toLower U s = [] \<longleftrightarrow> s = []"
  by (simp add: toLower_def)

section \<open>Strings that do not end in white space\<close>

definition ends_nonspace :: "string \<Rightarrow> bool" where
  "ends_nonspace s \<longleftrightarrow> s \<noteq> [] \<and> \<not> isSpace (last (runes s))"

text \<open>What the relay relies on of the case tables: lowering keeps runes valid and non-space.\<close>

definition lower_ok :: "unicode \<Rightarrow> bool" where
  "lower_ok U \<longleftrightarrow>
     (\<forall>r. valid_rune r \<and> 0x80 \<le> r \<longrightarrow>
        valid_rune (uc_lower U r) \<and> isSpace (uc_lower U r) = isSpace r)"

lemma isSpace_ascii_lower [simp]: "isSpace (ascii_lower r) = isSpace r"
  by (auto simp: ascii_lower_def isSpace_def)

lemma last_runes: "s \<noteq> [] \<Longrightarrow> last (runes s) = fst (last (segs s))"
  by (simp add: runes_def last_map)

lemma ends_nonspace_trimSpace: "trimSpace s \<noteq> [] \<Longrightarrow> ends_nonspace (trimSpace s)"
  using trim_segs_last [of "segs s"] segs_trimSpace [of s] segs_eq_Nil [of "trimSpace s"]
  by (simp add: ends_nonspace_def last_runes del: segs_eq_Nil)

lemma ends_nonspace_lower: "ends_nonspace (map lower_byte s) = ends_nonspace s"
  by (auto simp: ends_nonspace_def runes_lower last_map)

lemma valid_ascii_lower: "r < 0x80 \<Longrightarrow> valid_rune (ascii_lower r)"
  by (simp add: valid_rune_def ascii_lower_def)

lemma rune_lower_ok:
  "lower_ok U \<Longrightarrow> valid_rune r \<Longrightarrow>
     valid_rune (rune_lower U r) \<and> isSpace (rune_lower U r) = isSpace r"
  by (simp add: lower_ok_def rune_lower_def valid_ascii_lower)

lemma runes_toLower:
  assumes "lower_ok U"
  shows "runes (toLower U s) = map (rune_lower U) (runes s) \<or>
    runes (toLower U s) = map ascii_lower (runes s)"
  using assms by (auto simp: toLower_def runes_lower runes_encode rune_lower_ok runes_valid)

lemma ends_nonspace_toLower:
  assumes "lower_ok U" and "ends_nonspace s"
  shows "ends_nonspace (toLower U s)"
proof -
  have "s \<noteq> []" using assms(2) by (simp add: ends_nonspace_def)
  moreover from this have "last (runes s) \<in> set (runes s)" by simp
  then have "valid_rune (last (runes s))" by (rule runes_valid)
  then have "isSpace (rune_lower U (last (runes s))) = isSpace (last (runes s))"
    using rune_lower_ok [OF assms(1)] by blast
  ultimately show ?thesis
    using assms(2) runes_toLower [OF assms(1), of s] by (elim disjE) (simp_all add: ends_nonspace_def last_map)
qed

text \<open>
  Trimming an address whose part after an at sign ends in a non-space rune leaves that
  part alone.
\<close>

lemma trimSpace_at:
  assumes "ends_nonspace dn"
  obtains pre' where "trimSpace (pre @ CHR ''@'' # dn) = pre' @ CHR ''@'' # dn"
proof -
  let ?P = "\<lambda>p :: rune \<times> string. isSpace (fst p)"
  let ?qs = "(64, ''@'') # segs dn"
  have at: "segs (pre @ CHR ''@'' # dn) = segs pre @ ?qs"
    by (simp add: segs_append_ascii segs_ascii)
  have "dropWhile ?P (segs pre @ ?qs) = dropWhile ?P (segs pre) @ ?qs"
    by (cases "\<exists>p \<in> set (segs pre). \<not> ?P p")
      (auto simp: dropWhile_append_keep dropWhile_append isSpace_def)
  moreover have "rev (dropWhile ?P (rev (xs @ ?qs))) = xs @ ?qs" for xs
    by (rule dropWhile_rev_append_keep)
      (use assms in \<open>auto simp: ends_nonspace_def last_runes\<close>)
  ultimately have "trim_segs (segs (pre @ CHR ''@'' # dn)) = dropWhile ?P (segs pre) @ ?qs"
    by (simp only: at trim_segs_def)
  then have "trimSpace (pre @ CHR ''@'' # dn) =
      seg_bytes (dropWhile ?P (segs pre)) @ CHR ''@'' # dn"
    by (simp add: trimSpace_def)
  then show thesis by (rule that)
qed

section \<open>Decimal round trip\<close>

lemma show_nat_nonempty [simp]: "show_nat n \<noteq> []"
  by (subst show_nat.simps) simp

lemma show_nat_digits: "c \<in> set (show_nat n) \<Longrightarrow> 48 \<le> byte c \<and> byte c \<le> 57"
proof (induction n rule: show_nat.induct)
  case (1 n)
  have "n mod 10 < 10" by simp
  with 1 show ?case
    by (subst (asm) (2) show_nat.simps) (auto split: if_splits)
qed

lemma digits_val_append:
  "digits_val acc (xs @ ys) = Option.bind (digits_val acc xs) (\<lambda>a. digits_val a ys)"
  by (induction acc xs rule: digits_val.induct) auto

lemma digits_val_show_nat: "digits_val 0 (show_nat n) = Some n"
proof (induction n rule: show_nat.induct)
  case (1 n)
  show ?case
  proof (cases "n < 10")
    case True
    then show ?thesis by (subst show_nat.simps) simp
  next
    case False
    have "n mod 10 < 10" by simp
    with 1 [OF False] False show ?thesis
      by (subst show_nat.simps) (simp add: digits_val_append)
  qed
qed

lemma atoi_itoa:
  assumes "int64 i"
  shows "atoi (itoa i) = Some i"
proof (cases "i < 0")
  case True
  with assms show ?thesis by (simp add: atoi_def itoa_def digits_val_show_nat Let_def)
next
  case False
  obtain c cs where c: "show_nat (nat i) = c # cs" by (cases "show_nat (nat i)") auto
  then have "48 \<le> byte c" using show_nat_digits [of c "nat i"] by simp
  then have "c \<noteq> CHR ''-''" "c \<noteq> CHR ''+''" by auto
  with False assms c show ?thesis
    using digits_val_show_nat [of "nat i"] by (simp add: atoi_def itoa_def Let_def)
qed

end
