(* ===== verification/Email_Errors.thy ===== *)
theory Email_Errors
  imports Go_Strings
begin

text \<open>
  Go's error values and \<^verbatim>\<open>internal/email/errors.go\<close>. An \<^verbatim>\<open>error\<close> is a
  tree: sentinels and foreign errors are leaves, \<^verbatim>\<open>fmt.Errorf\<close> with
  \<^verbatim>\<open>%w\<close> and \<^verbatim>\<open>errors.Join\<close> are inner nodes, and a
  \<^verbatim>\<open>*DeliveryError\<close> is a node whose \<^verbatim>\<open>Unwrap\<close> is its
  \<^verbatim>\<open>Err\<close> field.
\<close>

section \<open>Error values\<close>

text \<open>The error values that the code compares with \<^verbatim>\<open>errors.Is\<close>.\<close>

datatype sentinel =
    DeadlineExceeded          \<comment> \<open>\<^verbatim>\<open>context.DeadlineExceeded\<close>\<close>
  | Canceled                  \<comment> \<open>\<^verbatim>\<open>context.Canceled\<close>\<close>
  | SenderNotAllowed          \<comment> \<open>\<^verbatim>\<open>email.ErrSenderNotAllowed\<close>\<close>
  | DataTooLarge              \<comment> \<open>\<^verbatim>\<open>gosmtp.ErrDataTooLarge\<close>\<close>
  | UnknownCharset            \<comment> \<open>\<^verbatim>\<open>gomessage.IsUnknownCharset\<close>\<close>
  | UnknownEncoding           \<comment> \<open>\<^verbatim>\<open>gomessage.IsUnknownEncoding\<close>\<close>
  | ServerClosed              \<comment> \<open>\<^verbatim>\<open>http.ErrServerClosed\<close>\<close>
  | NetClosed                 \<comment> \<open>\<^verbatim>\<open>net.ErrClosed\<close>\<close>
  | AuthFailed                \<comment> \<open>\<^verbatim>\<open>gosmtp.ErrAuthFailed\<close>\<close>
  | AuthUnknownMechanism      \<comment> \<open>\<^verbatim>\<open>gosmtp.ErrAuthUnknownMechanism\<close>\<close>
  | UnexpectedClientResponse  \<comment> \<open>\<^verbatim>\<open>sasl.ErrUnexpectedClientResponse\<close>\<close>

type_synonym enhanced = "int \<times> int \<times> int"

text \<open>
  \<open>ErrWrap pre e post\<close> is \<^verbatim>\<open>fmt.Errorf\<close> with \<open>e\<close> at the
  \<^verbatim>\<open>%w\<close> verb; \<open>ErrForeign\<close> is an error of a library, with its text and the
  sentinels its own \<^verbatim>\<open>Is\<close> or chain matches. \<^verbatim>\<open>DeliveryError\<close> is
  the datatype \<open>delivery_failure\<close>, over the type of its cause.
\<close>

datatype 'e delivery_failure =
    DeliveryError (Temporary: bool) (SMTPCode: int) (EnhancedCode: enhanced) (Reason: string)
      (HTTPStatus: int) (ProviderCode: int) (Attempts: int) (Err: "'e option")

datatype gerror =
    ErrNew string
  | ErrSentinel sentinel string
  | ErrForeign string "sentinel list"
  | ErrWrap string gerror string
  | ErrJoin "gerror list"
  | ErrDelivery "gerror delivery_failure"
  | ErrSMTP (smtp_code: int) (smtp_enhanced: enhanced) (smtp_message: string)

type_synonym delivery_error = "gerror delivery_failure"

text \<open>\<^verbatim>\<open>errors.Is\<close> against a sentinel\<close>

fun errorsIs :: "gerror \<Rightarrow> sentinel \<Rightarrow> bool" where
  "errorsIs (ErrNew _) s = False"
| "errorsIs (ErrSentinel s' _) s = (s' = s)"
| "errorsIs (ErrForeign _ ss) s = (s \<in> set ss)"
| "errorsIs (ErrWrap _ e _) s = errorsIs e s"
| "errorsIs (ErrJoin es) s = list_ex (\<lambda>e. errorsIs e s) es"
| "errorsIs (ErrDelivery (DeliveryError _ _ _ _ _ _ _ None)) s = False"
| "errorsIs (ErrDelivery (DeliveryError _ _ _ _ _ _ _ (Some e))) s = errorsIs e s"
| "errorsIs (ErrSMTP _ _ _) s = False"

text \<open>
  \<^verbatim>\<open>errors.As\<close> with a \<^verbatim>\<open>*DeliveryError\<close> target: the first one in a
  depth-first walk of the chain.
\<close>

fun errorsAs :: "gerror \<Rightarrow> delivery_error option"
  and errorsAsList :: "gerror list \<Rightarrow> delivery_error option"
where
  "errorsAs (ErrDelivery d) = Some d"
| "errorsAs (ErrWrap _ e _) = errorsAs e"
| "errorsAs (ErrJoin es) = errorsAsList es"
| "errorsAs (ErrNew _) = None"
| "errorsAs (ErrSentinel _ _) = None"
| "errorsAs (ErrForeign _ _) = None"
| "errorsAs (ErrSMTP _ _ _) = None"
| "errorsAsList [] = None"
| "errorsAsList (e # es) = (case errorsAs e of Some d \<Rightarrow> Some d | None \<Rightarrow> errorsAsList es)"

section \<open>\<^verbatim>\<open>internal/email/errors.go\<close>\<close>

definition DeliveryError_Error :: "delivery_error \<Rightarrow> string" where
  "DeliveryError_Error e =
     (if HTTPStatus e > 0
      then ''delivery failed (smtp '' @ itoa (SMTPCode e) @ '', http '' @ itoa (HTTPStatus e) @ ''): '' @ Reason e
      else ''delivery failed (smtp '' @ itoa (SMTPCode e) @ ''): '' @ Reason e)"

definition DeliveryError_Unwrap :: "delivery_error \<Rightarrow> gerror option" where
  "DeliveryError_Unwrap e = Err e"

definition AsDeliveryError :: "gerror \<Rightarrow> delivery_error option" where
  "AsDeliveryError err = errorsAs err"

definition ErrSenderNotAllowed :: gerror where
  "ErrSenderNotAllowed = ErrSentinel SenderNotAllowed ''sender domain not allowed''"

text \<open>The text of an error, \<^verbatim>\<open>err.Error()\<close>.\<close>

fun joinLines :: "string list \<Rightarrow> string" where
  "joinLines [] = []"
| "joinLines [x] = x"
| "joinLines (x # y # xs) = x @ CHR 0x0A # joinLines (y # xs)"

fun errorText :: "gerror \<Rightarrow> string" where
  "errorText (ErrNew m) = m"
| "errorText (ErrSentinel _ m) = m"
| "errorText (ErrForeign m _) = m"
| "errorText (ErrWrap pre e post) = pre @ errorText e @ post"
| "errorText (ErrJoin es) = joinLines (map errorText es)"
| "errorText (ErrDelivery d) = DeliveryError_Error d"
| "errorText (ErrSMTP _ _ m) = m"

section \<open>Well-classified errors\<close>

text \<open>
  The contract between the adapters and the SMTP layer: a temporary failure carries a 4xx
  reply and an enhanced code of class 4, a permanent one a 5xx reply and class 5, and the
  reason is text that fits on the line of a reply.
\<close>

definition well_classified :: "delivery_error \<Rightarrow> bool" where
  "well_classified d \<longleftrightarrow>
     (if Temporary d then SMTPCode d = 451 \<and> fst (EnhancedCode d) = 4
      else SMTPCode d = 550 \<and> fst (EnhancedCode d) = 5) \<and> clean_text (Reason d)"

lemma AsDeliveryError_ErrDelivery [simp]: "AsDeliveryError (ErrDelivery d) = Some d"
  by (simp add: AsDeliveryError_def)

lemma errorsIs_Unwrap:
  "errorsIs (ErrDelivery d) s \<longleftrightarrow> (case DeliveryError_Unwrap d of None \<Rightarrow> False | Some e \<Rightarrow> errorsIs e s)"
  by (cases d) (auto simp: DeliveryError_Unwrap_def split: option.splits)

end
