(* ===== verification/Cf_Classify.thy ===== *)
theory Cf_Classify
  imports Email_Errors
begin

text \<open>
  \<^verbatim>\<open>internal/cloudflare/classify.go\<close>: from an upstream outcome to a classified
  \<open>delivery_error\<close>, and which outcomes the retry loop repeats.
\<close>

record code_bucket =
  cb_temporary :: bool
  cb_retryable :: bool
  cb_smtp :: int
  cb_enhanced :: enhanced
  cb_reason :: string

abbreviation bucket :: "bool \<Rightarrow> bool \<Rightarrow> int \<Rightarrow> enhanced \<Rightarrow> string \<Rightarrow> code_bucket" where
  "bucket t r s e reason \<equiv>
     \<lparr>cb_temporary = t, cb_retryable = r, cb_smtp = s, cb_enhanced = e, cb_reason = reason\<rparr>"

definition codeBuckets :: "(int \<times> code_bucket) list" where
  "codeBuckets =
     [(10004, bucket True True 451 (4, 4, 5) ''upstream rate limited''),
      (10002, bucket True True 451 (4, 3, 0) ''upstream server error''),
      (10003, bucket True True 451 (4, 3, 0) ''upstream server error''),
      (10100, bucket True True 451 (4, 3, 0) ''upstream server error''),
      (10101, bucket True False 451 (4, 7, 0) ''relay credential rejected''),
      (10103, bucket True False 451 (4, 7, 0) ''relay credential rejected''),
      (10102, bucket True False 451 (4, 7, 0) ''relay not entitled''),
      (10105, bucket True False 451 (4, 7, 0) ''relay not entitled''),
      (10203, bucket True False 451 (4, 7, 0) ''relay not entitled''),
      (10001, bucket False False 550 (5, 6, 0) ''upstream rejected message''),
      (10200, bucket False False 550 (5, 6, 0) ''upstream rejected message''),
      (10201, bucket False False 550 (5, 6, 0) ''upstream rejected message''),
      (10202, bucket False False 550 (5, 6, 0) ''upstream rejected message''),
      (10000, bucket False False 550 (5, 1, 2) ''upstream resource not found'')]"

definition newDeliveryError ::
  "bool \<Rightarrow> int \<Rightarrow> enhanced \<Rightarrow> string \<Rightarrow> int \<Rightarrow> int \<Rightarrow> int \<Rightarrow> string \<Rightarrow> delivery_error"
where
  "newDeliveryError temporary smtp enhanced reason status providerCode attempts providerMessage =
     DeliveryError temporary smtp enhanced reason status providerCode attempts
       (if providerMessage \<noteq> [] then Some (ErrNew (''provider message: '' @ providerMessage)) else None)"

definition bucket_error ::
  "code_bucket \<Rightarrow> int \<Rightarrow> int \<Rightarrow> int \<Rightarrow> string \<Rightarrow> delivery_error"
where
  "bucket_error b status providerCode attempts message =
     newDeliveryError (cb_temporary b) (cb_smtp b) (cb_enhanced b) (cb_reason b)
       status providerCode attempts message"

definition classifyHTTP :: "int \<Rightarrow> int \<Rightarrow> string \<Rightarrow> int \<Rightarrow> delivery_error" where
  "classifyHTTP status providerCode providerMessage attempts =
     (case map_of codeBuckets providerCode of
        Some b \<Rightarrow> bucket_error b status providerCode attempts providerMessage
      | None \<Rightarrow>
          (let err = (\<lambda>temporary smtp enhanced reason.
             newDeliveryError temporary smtp enhanced reason status providerCode attempts providerMessage)
           in
           if status = 429 then err True 451 (4, 4, 5) ''upstream rate limited''
           else if status = 500 \<or> status = 502 \<or> status = 503 \<or> status = 504 then
             err True 451 (4, 3, 0) ''upstream server error''
           else if status = 401 then err True 451 (4, 7, 0) ''relay credential rejected''
           else if status = 403 then err True 451 (4, 7, 0) ''relay not entitled''
           else if status = 400 then err False 550 (5, 6, 0) ''upstream rejected message''
           else if status = 404 then err False 550 (5, 1, 2) ''upstream resource not found''
           else if status \<ge> 400 \<and> status < 500 then err False 550 (5, 6, 0) ''upstream rejected message''
           else if status \<ge> 500 \<and> status < 600 then err True 451 (4, 3, 0) ''upstream server error''
           else err False 550 (5, 6, 0) ''upstream rejected message''))"

definition classifyTransport :: "gerror \<Rightarrow> int \<Rightarrow> delivery_error" where
  "classifyTransport err attempts =
     DeliveryError True 451 (4, 4, 1)
       (if errorsIs err DeadlineExceeded then ''upstream request timed out''
        else ''upstream connection failed'')
       0 0 attempts (Some err)"

definition isRetryable :: "int \<Rightarrow> int \<Rightarrow> bool" where
  "isRetryable status providerCode =
     (case map_of codeBuckets providerCode of
        Some b \<Rightarrow> cb_retryable b
      | None \<Rightarrow> if status = 429 then True else if status \<ge> 500 \<and> status < 600 then True else False)"

section \<open>Every bucket is well classified\<close>

definition bucket_ok :: "code_bucket \<Rightarrow> bool" where
  "bucket_ok b \<longleftrightarrow>
     (if cb_temporary b then cb_smtp b = 451 \<and> fst (cb_enhanced b) = 4
      else cb_smtp b = 550 \<and> fst (cb_enhanced b) = 5) \<and>
     (cb_retryable b \<longrightarrow> cb_temporary b) \<and> clean_text (cb_reason b)"

lemma newDeliveryError_simps [simp]:
  "Temporary (newDeliveryError t s e r st pc a m) = t"
  "SMTPCode (newDeliveryError t s e r st pc a m) = s"
  "EnhancedCode (newDeliveryError t s e r st pc a m) = e"
  "Reason (newDeliveryError t s e r st pc a m) = r"
  "HTTPStatus (newDeliveryError t s e r st pc a m) = st"
  "ProviderCode (newDeliveryError t s e r st pc a m) = pc"
  "Attempts (newDeliveryError t s e r st pc a m) = a"
  by (simp_all add: newDeliveryError_def)

lemma codeBuckets_all_ok: "list_all (\<lambda>cb. bucket_ok (snd cb)) codeBuckets"
  by (simp add: codeBuckets_def bucket_ok_def)

lemma codeBuckets_ok: "map_of codeBuckets c = Some b \<Longrightarrow> bucket_ok b"
  using codeBuckets_all_ok by (force simp: list_all_iff dest!: map_of_SomeD)

lemma bucket_error_ok:
  "bucket_ok b \<Longrightarrow> well_classified (bucket_error b st pc a m)"
  by (simp add: bucket_ok_def bucket_error_def well_classified_def split: if_splits)

lemma bucket_error_simps [simp]:
  "Temporary (bucket_error b st pc a m) = cb_temporary b"
  "HTTPStatus (bucket_error b st pc a m) = st"
  "ProviderCode (bucket_error b st pc a m) = pc"
  "Attempts (bucket_error b st pc a m) = a"
  by (simp_all add: bucket_error_def)

lemma classifyHTTP_fields [simp]:
  "HTTPStatus (classifyHTTP st pc m a) = st"
  "ProviderCode (classifyHTTP st pc m a) = pc"
  "Attempts (classifyHTTP st pc m a) = a"
  by (simp_all add: classifyHTTP_def Let_def split: option.splits)

lemma classifyHTTP_ok: "well_classified (classifyHTTP st pc m a)"
proof (cases "map_of codeBuckets pc")
  case None
  have "well_classified (newDeliveryError True 451 (4, e) r st pc a m) = clean_text r"
    "well_classified (newDeliveryError False 550 (5, e) r st pc a m) = clean_text r" for e r st
    by (simp_all add: well_classified_def)
  with None show ?thesis by (simp add: classifyHTTP_def Let_def if_distrib [of well_classified])
next
  case (Some b)
  then show ?thesis by (simp add: classifyHTTP_def bucket_error_ok codeBuckets_ok)
qed

lemma isRetryable_Temporary: "isRetryable st pc \<Longrightarrow> Temporary (classifyHTTP st pc m a)"
  using codeBuckets_ok [of pc]
  by (cases "map_of codeBuckets pc")
    (simp_all add: isRetryable_def classifyHTTP_def Let_def bucket_ok_def split: if_splits)

lemma classifyTransport_ok: "well_classified (classifyTransport e a)"
  by (simp add: classifyTransport_def well_classified_def)

lemma classifyTransport_fields [simp]:
  "Temporary (classifyTransport e a)" "HTTPStatus (classifyTransport e a) = 0"
  "ProviderCode (classifyTransport e a) = 0" "Attempts (classifyTransport e a) = a"
  "Err (classifyTransport e a) = Some e"
  by (simp_all add: classifyTransport_def)

text \<open>The provider's message is kept out of the text the client sees.\<close>

lemma classifyHTTP_Reason:
  "Reason (classifyHTTP st pc m a) = Reason (classifyHTTP st pc m' a')"
  "EnhancedCode (classifyHTTP st pc m a) = EnhancedCode (classifyHTTP st pc m' a')"
  "SMTPCode (classifyHTTP st pc m a) = SMTPCode (classifyHTTP st pc m' a')"
  "Temporary (classifyHTTP st pc m a) = Temporary (classifyHTTP st pc m' a')"
  by (simp_all add: classifyHTTP_def bucket_error_def Let_def split: option.splits)

text \<open>
  C15. Every HTTP outcome is classified consistently, for any status and provider code:
  temporary failures carry 451 and class 4, permanent ones 550 and class 5; an outcome that
  the loop retries is always temporary; the status, code and attempt count are recorded; and
  what the client is told (code, enhanced code, reason) does not depend on the text of the
  provider's message.
\<close>

theorem classifyHTTP_consistent:
  "well_classified (classifyHTTP status code msg attempts)
   \<and> (isRetryable status code \<longrightarrow> Temporary (classifyHTTP status code msg attempts))
   \<and> HTTPStatus (classifyHTTP status code msg attempts) = status
   \<and> ProviderCode (classifyHTTP status code msg attempts) = code
   \<and> Attempts (classifyHTTP status code msg attempts) = attempts
   \<and> Reason (classifyHTTP status code msg attempts) = Reason (classifyHTTP status code msg' attempts)
   \<and> EnhancedCode (classifyHTTP status code msg attempts) = EnhancedCode (classifyHTTP status code msg' attempts)"
  using classifyHTTP_ok isRetryable_Temporary classifyHTTP_Reason [of status code msg attempts msg' attempts]
  by simp

theorem classifyHTTP_consistent_witness:
  "isRetryable 503 0 \<and> Temporary (classifyHTTP 503 0 ''boom'' 2)
   \<and> Reason (classifyHTTP 503 0 ''boom'' 2) = Reason (classifyHTTP 503 0 [] 2)"
proof -
  have "isRetryable 503 0" by (simp add: isRetryable_def codeBuckets_def)
  then show ?thesis using classifyHTTP_consistent [of 503 0 "''boom''" 2 "[]"] by simp
qed

text \<open>
  C18. The table of the operations guide, for a response whose provider code is not a
  documented one: 429 is 451 4.4.5, any 5xx is 451 4.3.0, 401 and 403 are 451 4.7.0 but never
  retried, 404 is 550 5.1.2, any other 4xx and anything below 400 or from 600 up is
  550 5.6.0 and not retried.
\<close>

theorem classifyHTTP_table:
  assumes "map_of codeBuckets code = None"
  shows "(SMTPCode (classifyHTTP status code msg a), EnhancedCode (classifyHTTP status code msg a),
      isRetryable status code) =
    (if status = 429 then (451, (4, 4, 5), True)
     else if 500 \<le> status \<and> status < 600 then (451, (4, 3, 0), True)
     else if status = 401 \<or> status = 403 then (451, (4, 7, 0), False)
     else if status = 404 then (550, (5, 1, 2), False)
     else (550, (5, 6, 0), False))"
  using assms by (auto simp: classifyHTTP_def isRetryable_def Let_def)

theorem classifyHTTP_table_witness:
  "map_of codeBuckets 0 = None \<and>
   SMTPCode (classifyHTTP 503 0 [] 1) = 451 \<and> EnhancedCode (classifyHTTP 503 0 [] 1) = (4, 3, 0)"
proof -
  have h: "map_of codeBuckets 0 = None" by (simp add: codeBuckets_def)
  show ?thesis using h classifyHTTP_table [OF h, of 503 "[]" 1] by simp
qed

end
