(* ===== verification/Email_Message.thy ===== *)
theory Email_Message
  imports Email_Errors
begin

text \<open>
  \<^verbatim>\<open>internal/email/message.go\<close>: addresses, the normalized message, the result of
  a delivery and the outbound port \<^verbatim>\<open>Sender\<close>. The port is the locale
  \<open>sender\<close>: what the SMTP layer may rely on, whichever adapter is behind it.
\<close>

section \<open>Addresses\<close>

record address =
  Name :: string
  Addr :: string            \<comment> \<open>the field \<^verbatim>\<open>Address\<close>\<close>

definition lowerASCII :: "string \<Rightarrow> string" where
  "lowerASCII s = map lower_byte s"

text \<open>The loop runs from the last byte down to the first at sign from the right.\<close>

definition Address_Domain :: "address \<Rightarrow> string" where
  "Address_Domain a =
     (if CHR ''@'' \<in> set (Addr a)
      then lowerASCII (rev (takeWhile (\<lambda>c. c \<noteq> CHR ''@'') (rev (Addr a)))) else [])"

definition Address_String :: "address \<Rightarrow> string" where
  "Address_String a = (if Name a = [] then Addr a else Name a @ '' <'' @ Addr a @ ''>'')"

text \<open>Everything after the last at sign, lowered.\<close>

lemma Address_Domain_at:
  assumes "CHR ''@'' \<notin> set d"
  shows "Address_Domain \<lparr>Name = n, Addr = pre @ CHR ''@'' # d\<rparr> = lowerASCII d"
proof -
  have "takeWhile (\<lambda>c. c \<noteq> CHR ''@'') (rev d @ CHR ''@'' # rev pre) = rev d"
    using assms by (subst takeWhile_append2) auto
  then show ?thesis by (simp add: Address_Domain_def)
qed

lemma Address_Domain_no_at: "CHR ''@'' \<notin> set (Addr a) \<Longrightarrow> Address_Domain a = []"
  by (simp add: Address_Domain_def)

lemma lower_byte_at [simp]: "lower_byte c = CHR ''@'' \<longleftrightarrow> c = CHR ''@''"
proof -
  have "lower_byte c = CHR ''@'' \<longleftrightarrow> byte (lower_byte c) = byte (CHR ''@'')"
    by (simp only: of_char_eq_iff)
  also have "\<dots> \<longleftrightarrow> byte c = byte (CHR ''@'')"
    by (auto simp: byte_lower ascii_lower_def)
  finally show ?thesis by (simp only: of_char_eq_iff)
qed

lemma lowerASCII_idem [simp]: "lowerASCII (lowerASCII s) = lowerASCII s"
  by (simp add: lowerASCII_def)

lemma lowerASCII_eq_Nil [simp]: "lowerASCII s = [] \<longleftrightarrow> s = []"
  by (simp add: lowerASCII_def)

lemma Address_Domain_lower [simp]: "lowerASCII (Address_Domain a) = Address_Domain a"
  by (simp add: Address_Domain_def)

text \<open>An address with a non-empty domain splits at its last at sign.\<close>

lemma Address_Domain_split:
  assumes "Address_Domain a \<noteq> []"
  obtains pre d where "Addr a = pre @ CHR ''@'' # d" and "CHR ''@'' \<notin> set d"
    and "Address_Domain a = lowerASCII d"
proof -
  have at: "CHR ''@'' \<in> set (Addr a)" using assms Address_Domain_no_at by blast
  then obtain pre d where s: "Addr a = pre @ CHR ''@'' # d" "CHR ''@'' \<notin> set d"
    by (metis split_list_last)
  then have "Address_Domain a = lowerASCII d"
    using Address_Domain_at [OF s(2), of "Name a" pre] by (cases a) simp
  with s show thesis by (rule that)
qed

section \<open>Messages\<close>

text \<open>
  \<^verbatim>\<open>Headers\<close> is a Go map; an association list with distinct keys stands for it, and
  no operation depends on its order. Times are nanoseconds.
\<close>

record message =
  ID :: string
  RFCMessageID :: string
  From :: address
  To :: "address list"
  Cc :: "address list"
  Bcc :: "address list"
  ReplyTo :: string
  Subject :: string
  Text :: string
  HTML :: string
  Headers :: "(string \<times> string) list"
  Size :: int
  ReceivedAt :: int

definition RecipientCount :: "message \<Rightarrow> nat" where
  "RecipientCount m = length (To m) + length (Cc m) + length (Bcc m)"

definition AllRecipients :: "message \<Rightarrow> string list" where
  "AllRecipients m = concat (map (map Addr) [To m, Cc m, Bcc m])"

record result =
  ProviderID :: string
  ResHTTPStatus :: int       \<comment> \<open>the field \<^verbatim>\<open>HTTPStatus\<close>\<close>
  ResAttempts :: int         \<comment> \<open>the field \<^verbatim>\<open>Attempts\<close>\<close>

lemma length_AllRecipients: "length (AllRecipients m) = RecipientCount m"
  by (simp add: AllRecipients_def RecipientCount_def)

section \<open>The outbound port\<close>

text \<open>
  \<^verbatim>\<open>Send(ctx, msg) (*Result, error)\<close>, over a world \<open>'w\<close> that holds the network,
  the clock and the context. The contract of \<^verbatim>\<open>Sender\<close>: a nil error comes with a
  result, and every failure is a classified \<^verbatim>\<open>*DeliveryError\<close>.
\<close>

type_synonym 'w send_fun = "message \<Rightarrow> 'w \<Rightarrow> (result option \<times> gerror option) \<times> 'w"

locale sender =
  fixes send :: "'w send_fun"
  assumes send_nil: "send m w = ((r, None), w') \<Longrightarrow> r \<noteq> None"
    and send_classified: "send m w = ((r, Some e), w') \<Longrightarrow>
      \<exists>d. AsDeliveryError e = Some d \<and> well_classified d"
begin

lemma send_cases:
  obtains (sent) res w' where "send m w = ((Some res, None), w')"
  | (failed) r e d w' where "send m w = ((r, Some e), w')" "AsDeliveryError e = Some d"
      "well_classified d"
proof -
  obtain r eo w' where s: "send m w = ((r, eo), w')" by (metis surj_pair)
  show thesis
  proof (cases eo)
    case None
    with s send_nil [of m w r w'] sent show ?thesis by auto
  next
    case (Some e)
    with s send_classified [of m w r e w'] failed show ?thesis by auto
  qed
qed

end

end
