(* ===== verification/Go_Http.thy ===== *)
theory Go_Http
  imports Email_Errors
begin

text \<open>
  HTTP as the relay sees it through \<^verbatim>\<open>net/http\<close>: requests, responses as a client gets
  them, and replies as a handler writes them.
\<close>

record http_request =
  rq_method :: string
  rq_url :: string
  rq_headers :: "(string \<times> string) list"
  rq_body :: string

text \<open>
  A body stream delivers \<open>body_data\<close> and then ends, with \<open>body_fail\<close> if it breaks off.
  \<open>rs_header\<close> is \<^verbatim>\<open>resp.Header.Get\<close>.
\<close>

record body_stream =
  body_data :: string
  body_fail :: "gerror option"

record http_response =
  rs_status :: int
  rs_header :: "string \<Rightarrow> string"
  rs_body :: body_stream

text \<open>What a handler has written: \<open>http_Error\<close> is \<^verbatim>\<open>http.Error\<close>.\<close>

record http_reply =
  rp_status :: int
  rp_headers :: "(string \<times> string) list"
  rp_body :: string

definition http_Error :: "(string \<times> string) list \<Rightarrow> string \<Rightarrow> int \<Rightarrow> http_reply" where
  "http_Error headers msg code =
     \<lparr>rp_status = code,
      rp_headers = headers @ [(''Content-Type'', ''text/plain; charset=utf-8''),
                              (''X-Content-Type-Options'', ''nosniff'')],
      rp_body = msg @ [CHR 0x0A]\<rparr>"

text \<open>A reply as the client on the other end of the connection receives it.\<close>

definition received :: "http_reply \<Rightarrow> http_response" where
  "received r =
     \<lparr>rs_status = rp_status r,
      rs_header = (\<lambda>k. case map_of (rp_headers r) k of Some v \<Rightarrow> v | None \<Rightarrow> []),
      rs_body = \<lparr>body_data = rp_body r, body_fail = None\<rparr>\<rparr>"

end
