(* ===== verification/Cf_Send.thy ===== *)
theory Cf_Send
  imports Cf_Classify Email_Message Go_Http
begin

text \<open>
  \<^verbatim>\<open>internal/cloudflare/send.go\<close>: the retry loop shared by both adapters. The
  world \<open>'w\<close> (context, HTTP client, clock, sleep seam, random source) is reached through
  the operations of the record \<open>net\<close>, in the order the code calls them. The locale
  \<open>response_parser\<close> is the contract of \<^verbatim>\<open>responseParser\<close>; the loop's lemmas are
  proved once inside it. Durations are nanoseconds in 64 bits.
\<close>

section \<open>The outside world\<close>

record 'w net =
  ctx_err :: "'w \<Rightarrow> gerror option \<times> 'w"                       \<comment> \<open>\<^verbatim>\<open>ctx.Err()\<close>\<close>
  http_do :: "int \<Rightarrow> http_request \<Rightarrow> 'w \<Rightarrow> (gerror + http_response) \<times> 'w"
    \<comment> \<open>\<^verbatim>\<open>client.Do\<close> under \<^verbatim>\<open>context.WithTimeout(ctx, timeout)\<close>\<close>
  sleep_for :: "int \<Rightarrow> 'w \<Rightarrow> gerror option \<times> 'w"               \<comment> \<open>\<^verbatim>\<open>sleep(ctx, d)\<close>\<close>
  clock :: "'w \<Rightarrow> int \<times> 'w"                                   \<comment> \<open>\<^verbatim>\<open>now()\<close>\<close>
  rand_Int63n :: "int \<Rightarrow> 'w \<Rightarrow> int \<times> 'w"                      \<comment> \<open>\<^verbatim>\<open>rand.Int63n(n)\<close>\<close>
  parse_http_time :: "string \<Rightarrow> int option"                  \<comment> \<open>\<^verbatim>\<open>http.ParseTime\<close>\<close>

type_synonym request_builder = "string \<Rightarrow> gerror + http_request"
type_synonym parser = "int \<Rightarrow> string \<Rightarrow> int \<Rightarrow> result option \<times> delivery_error option \<times> bool"

section \<open>Constants\<close>

definition maxResponseBodyBytes :: int where
  "maxResponseBodyBytes = 64 * 1024"

definition retryBaseDelay :: int where
  "retryBaseDelay = 500 * 1000000"

definition retryCapDelay :: int where
  "retryCapDelay = 5 * second"

section \<open>One attempt\<close>

text \<open>
  \<^verbatim>\<open>io.ReadAll\<close> of a reader limited to 64 KiB: a failure after the limit is never
  reached. The drain and the close that follow have no result.
\<close>

definition readAndDrainBody :: "body_stream \<Rightarrow> gerror + string" where
  "readAndDrainBody b =
     (if maxResponseBodyBytes \<le> int (length (body_data b)) then
        Inr (take (nat maxResponseBodyBytes) (body_data b))
      else (case body_fail b of Some e \<Rightarrow> Inl e | None \<Rightarrow> Inr (body_data b)))"

definition parseRetryAfter :: "'w net \<Rightarrow> string \<Rightarrow> 'w \<Rightarrow> (int \<times> bool) \<times> 'w" where
  "parseRetryAfter net value w =
     (if value = [] then ((0, False), w)
      else (case atoi value of
          Some secs \<Rightarrow> if secs < 0 then ((0, False), w) else ((wrap64 (secs * second), True), w)
        | None \<Rightarrow>
            (case parse_http_time net value of
               Some t \<Rightarrow>
                 (case clock net w of
                    (n, w1) \<Rightarrow> (let d = timeSub t n in ((if d < 0 then 0 else d, True), w1)))
             | None \<Rightarrow> ((0, False), w))))"

definition doAttempt ::
  "'w net \<Rightarrow> int \<Rightarrow> string \<Rightarrow> int \<Rightarrow> request_builder \<Rightarrow> parser \<Rightarrow> 'w \<Rightarrow>
     (result option \<times> delivery_error option \<times> bool \<times> int) \<times> 'w"
where
  "doAttempt net timeout payload attempt build parse w =
     (case build payload of
        Inl err \<Rightarrow> ((None, Some (classifyTransport err attempt), True, 0), w)
      | Inr req \<Rightarrow>
          (case http_do net timeout req w of
             (Inl err, w1) \<Rightarrow> ((None, Some (classifyTransport err attempt), True, 0), w1)
           | (Inr resp, w1) \<Rightarrow>
               (case readAndDrainBody (rs_body resp) of
                  Inl readErr \<Rightarrow> ((None, Some (classifyTransport readErr attempt), True, 0), w1)
                | Inr body \<Rightarrow>
                    (case parse (rs_status resp) body attempt of
                       (result, de, retryable) \<Rightarrow>
                         if de \<noteq> None \<and> rs_status resp = 429 then
                           (case parseRetryAfter net (rs_header resp ''Retry-After'') w1 of
                              ((d, ok), w2) \<Rightarrow> ((result, de, retryable, if ok then d else 0), w2))
                         else ((result, de, retryable, 0), w1)))))"

section \<open>Between attempts\<close>

definition shouldRetry :: "'w net \<Rightarrow> bool \<Rightarrow> int \<Rightarrow> int \<Rightarrow> 'w \<Rightarrow> bool \<times> 'w" where
  "shouldRetry net retryable attempt maxRetries w =
     (if retryable \<and> attempt \<le> maxRetries then
        (case ctx_err net w of (e, w1) \<Rightarrow> (e = None, w1))
      else (False, w))"

text \<open>\<^verbatim>\<open>time.Duration(1<<uint(n))\<close>: a shift of 64 or more, or of a negative count, is 0.\<close>

definition shl1 :: "int \<Rightarrow> int" where
  "shl1 n = (if n < 0 then 0 else wrap64 (2 ^ nat n))"

definition maxDelay :: "int \<Rightarrow> int" where
  "maxDelay attempt =
     (let d = wrap64 (retryBaseDelay * shl1 (attempt - 1))
      in if d > retryCapDelay \<or> d \<le> 0 then retryCapDelay else d)"

definition backoffDelay :: "'w net \<Rightarrow> int \<Rightarrow> int \<Rightarrow> 'w \<Rightarrow> int \<times> 'w" where
  "backoffDelay net attempt retryAfter w =
     (if retryAfter > 0 then (retryAfter, w) else rand_Int63n net (maxDelay attempt + 1) w)"

section \<open>The loop\<close>

text \<open>
  One round of the \<^verbatim>\<open>for\<close>: \<open>Inl\<close> returns from \<^verbatim>\<open>sendLoop\<close>, \<open>Inr\<close>
  goes on with the error just seen as \<^verbatim>\<open>lastErr\<close>.
\<close>

definition loop_round ::
  "'w net \<Rightarrow> int \<Rightarrow> int \<Rightarrow> string \<Rightarrow> request_builder \<Rightarrow> parser \<Rightarrow> int \<Rightarrow> delivery_error option \<Rightarrow> 'w \<Rightarrow>
     ((result option \<times> gerror option) + delivery_error) \<times> 'w"
where
  "loop_round net timeout maxRetries payload build parse attempt lastErr w =
     (case ctx_err net w of
        (Some err, w1) \<Rightarrow>
          (Inl (None, Some (ErrDelivery
             (case lastErr of Some d \<Rightarrow> d | None \<Rightarrow> classifyTransport err (attempt - 1)))), w1)
      | (None, w1) \<Rightarrow>
          (case doAttempt net timeout payload attempt build parse w1 of
             ((result, None, _, _), w2) \<Rightarrow> (Inl (result, None), w2)
           | ((_, Some de, retryable, retryAfter), w2) \<Rightarrow>
               (case shouldRetry net retryable attempt maxRetries w2 of
                  (retry, w3) \<Rightarrow>
                    if \<not> retry then (Inl (None, Some (ErrDelivery de)), w3)
                    else (case backoffDelay net attempt retryAfter w3 of
                       (delay, w4) \<Rightarrow>
                         if delay > retryCapDelay then (Inl (None, Some (ErrDelivery de)), w4)
                         else (case sleep_for net delay w4 of
                            (Some err, w5) \<Rightarrow>
                              (Inl (None, Some (ErrDelivery (classifyTransport err attempt))), w5)
                          | (None, w5) \<Rightarrow> (Inr de, w5))))))"

lemma shouldRetry_True: "shouldRetry net rt attempt mr w = (True, w') \<Longrightarrow> rt \<and> attempt \<le> mr"
  by (auto simp: shouldRetry_def split: if_splits prod.splits)

lemma loop_round_again:
  "loop_round net t mr p b ps attempt le w = (Inr de, w') \<Longrightarrow> attempt \<le> mr"
  by (auto simp: loop_round_def dest: shouldRetry_True
      split: prod.splits option.splits if_splits)

function sendLoop ::
  "'w net \<Rightarrow> int \<Rightarrow> int \<Rightarrow> string \<Rightarrow> request_builder \<Rightarrow> parser \<Rightarrow> int \<Rightarrow> delivery_error option \<Rightarrow> 'w \<Rightarrow>
     (result option \<times> gerror option) \<times> 'w"
where
  "sendLoop net timeout maxRetries payload build parse attempt lastErr w =
     (case loop_round net timeout maxRetries payload build parse attempt lastErr w of
        (Inl r, w') \<Rightarrow> (r, w')
      | (Inr de, w') \<Rightarrow>
          sendLoop net timeout maxRetries payload build parse (attempt + 1) (Some de) w')"
  by pat_completeness auto
termination
  by (relation "measure (\<lambda>(net, t, mr, p, b, ps, attempt, le, w). nat (mr + 1 - attempt))")
    (auto dest!: loop_round_again [OF sym])

declare sendLoop.simps [simp del]

section \<open>Delays\<close>

lemma shl1_small: "0 \<le> n \<Longrightarrow> n < 63 \<Longrightarrow> shl1 n = 2 ^ nat n"
proof -
  assume n: "0 \<le> n" "n < 63"
  then have "(2::int) ^ nat n < 2 ^ 63" by (intro power_strict_increasing) auto
  moreover have "(0::int) \<le> 2 ^ nat n" by simp
  ultimately have "int64 (2 ^ nat n)" unfolding int64_def by linarith
  with n show ?thesis by (simp add: shl1_def wrap64_id)
qed

lemma shl1_dvd: "k \<le> 63 \<Longrightarrow> int k \<le> n \<Longrightarrow> 2 ^ k dvd shl1 n"
  by (auto simp: shl1_def intro!: wrap64_dvd le_imp_power_dvd)

text \<open>Once the product may overflow it is still a multiple of \<open>2 ^ 43\<close>.\<close>

lemma maxDelay_overflow:
  assumes "36 \<le> attempt"
  shows "maxDelay attempt = retryCapDelay"
proof -
  have "(2::int) ^ 35 dvd shl1 (attempt - 1)" using assms by (intro shl1_dvd) auto
  then have "2 ^ 8 * (2::int) ^ 35 dvd retryBaseDelay * shl1 (attempt - 1)"
    by (intro mult_dvd_mono) (simp_all add: retryBaseDelay_def)
  then have "(2::int) ^ 43 dvd wrap64 (retryBaseDelay * shl1 (attempt - 1))"
    by (intro wrap64_dvd) simp_all
  then obtain q where q: "wrap64 (retryBaseDelay * shl1 (attempt - 1)) = 2 ^ 43 * q" by (rule dvdE)
  show ?thesis
  proof (cases "q \<le> 0")
    case True
    then have "(2::int) ^ 43 * q \<le> 0" by (simp add: mult_nonneg_nonpos)
    then show ?thesis by (simp add: maxDelay_def q Let_def)
  next
    case False
    then have "retryCapDelay < 2 ^ 43 * q" by (simp add: retryCapDelay_def second_def)
    then show ?thesis by (simp add: maxDelay_def q Let_def)
  qed
qed

lemma maxDelay_exact:
  assumes "1 \<le> attempt" and "attempt < 36"
  shows "maxDelay attempt = min retryCapDelay (retryBaseDelay * 2 ^ nat (attempt - 1))"
proof -
  let ?p = "(2::int) ^ nat (attempt - 1)"
  have p: "1 \<le> ?p" "?p \<le> 2 ^ 34" using assms by (simp, intro power_increasing) auto
  then have "0 < retryBaseDelay * ?p" "retryBaseDelay * ?p < 2 ^ 63"
    by (simp_all add: retryBaseDelay_def)
  then have "wrap64 (retryBaseDelay * ?p) = retryBaseDelay * ?p"
    by (intro wrap64_id) (simp add: int64_def)
  then show ?thesis
    using assms \<open>0 < retryBaseDelay * ?p\<close> by (simp add: maxDelay_def Let_def shl1_small min_def)
qed

lemma maxDelay_bounds: "0 < maxDelay attempt \<and> maxDelay attempt \<le> retryCapDelay"
  by (simp add: maxDelay_def Let_def retryCapDelay_def second_def)

text \<open>
  C19. The exponential backoff is exact for every attempt number: the jitter's upper bound is
  500 ms doubled per attempt and capped at 5 s, although the shift and the 64-bit product
  overflow from attempt 36 on.
\<close>

theorem maxDelay_is_capped_doubling:
  assumes "1 \<le> attempt"
  shows "maxDelay attempt = min retryCapDelay (retryBaseDelay * 2 ^ nat (attempt - 1))"
proof (cases "attempt < 36")
  case True
  with assms show ?thesis by (rule maxDelay_exact)
next
  case False
  then have "(2::int) ^ 4 \<le> 2 ^ nat (attempt - 1)" by (intro power_increasing) auto
  then show ?thesis
    using False maxDelay_overflow [of attempt]
    by (simp add: retryCapDelay_def retryBaseDelay_def second_def min_def)
qed

theorem maxDelay_is_capped_doubling_witness:
  "maxDelay 3 = 2 * second \<and> maxDelay 60 = 5 * second"
  using maxDelay_is_capped_doubling [of 3] maxDelay_is_capped_doubling [of 60]
  by (simp add: retryCapDelay_def retryBaseDelay_def second_def)

section \<open>\<^verbatim>\<open>Retry-After\<close>\<close>

lemma parseRetryAfter_secs:
  assumes "atoi value = Some n" and "0 \<le> n"
  shows "parseRetryAfter net value w = ((wrap64 (n * second), True), w)"
proof -
  have "value \<noteq> []" using assms(1) by (auto simp: atoi_def)
  with assms show ?thesis by (simp add: parseRetryAfter_def)
qed

text \<open>
  A delay in seconds is honoured exactly as long as it fits: for up to 9223372036
  seconds the value of the header is the duration in nanoseconds, the pause before the next
  attempt is that duration and not a random one, and nothing but the text of the header
  matters.
\<close>

lemma retry_after_seconds:
  assumes "0 \<le> n" and "n \<le> 9223372036"
  shows "parseRetryAfter net (itoa n) w = ((n * second, True), w)
    \<and> (0 < n \<longrightarrow> backoffDelay net attempt (n * second) w = (n * second, w))"
proof -
  have "atoi (itoa n) = Some n" using assms by (intro atoi_itoa) (simp add: int64_def)
  moreover have "wrap64 (n * second) = n * second"
    using assms by (intro wrap64_id) (simp add: int64_def second_def)
  ultimately show ?thesis
    using parseRetryAfter_secs [of "itoa n" n net w] assms(1)
    by (simp add: backoffDelay_def second_def)
qed

text \<open>
  C25. Larger delays overflow: from 9223372037 to 18446744073 seconds the duration is
  negative, the header is then ignored and the jittered pause of at most 5 s is used, where the
  loop means to give up on a delay beyond its cap.
\<close>

theorem retry_after_overflow:
  assumes "9223372037 \<le> n" and "n \<le> 18446744073"
  shows "\<exists>d < 0. parseRetryAfter net (itoa n) w = ((d, True), w)
    \<and> backoffDelay net attempt d w = rand_Int63n net (maxDelay attempt + 1) w"
proof -
  have "atoi (itoa n) = Some n" using assms by (intro atoi_itoa) (simp add: int64_def)
  then have p: "parseRetryAfter net (itoa n) w = ((wrap64 (n * second), True), w)"
    using assms(1) by (intro parseRetryAfter_secs) auto
  have "(n * second + 2 ^ 63) mod 2 ^ 64 = n * second + 2 ^ 63 - 2 ^ 64"
  proof -
    have "(n * second + 2 ^ 63) mod 2 ^ 64 = (n * second + 2 ^ 63 - 2 ^ 64) mod 2 ^ 64" by (rule minus_mod_self2 [symmetric])
    also have "\<dots> = n * second + 2 ^ 63 - 2 ^ 64"
      using assms by (intro mod_pos_pos_trivial) (simp_all add: second_def)
    finally show ?thesis .
  qed
  then have "wrap64 (n * second) < 0" using assms by (simp add: wrap64_def second_def)
  with p show ?thesis by (auto simp: backoffDelay_def)
qed

theorem retry_after_overflow_witness:
  "\<forall>(net :: int net) w. \<exists>d < 0. parseRetryAfter net (itoa 9223372037) w = ((d, True), w)"
  using retry_after_overflow [of 9223372037 _ _ 1] by fastforce

section \<open>Requests and pauses\<close>

text \<open>What of the world none of the operations but \<^verbatim>\<open>client.Do\<close> changes.\<close>

definition steady :: "'w net \<Rightarrow> ('w \<Rightarrow> 'a) \<Rightarrow> bool" where
  "steady net f \<longleftrightarrow>
     (\<forall>w. f (snd (ctx_err net w)) = f w) \<and> (\<forall>d w. f (snd (sleep_for net d w)) = f w) \<and>
     (\<forall>w. f (snd (clock net w)) = f w) \<and> (\<forall>n w. f (snd (rand_Int63n net n w)) = f w)"

text \<open>A count \<open>cnt\<close> that every call of \<^verbatim>\<open>client.Do\<close>, and nothing else, advances.\<close>

definition counts_requests :: "'w net \<Rightarrow> ('w \<Rightarrow> int) \<Rightarrow> bool" where
  "counts_requests net cnt \<longleftrightarrow>
     (\<forall>t rq w. cnt (snd (http_do net t rq w)) = cnt w + 1) \<and> steady net cnt"

text \<open>A record \<open>obs\<close> of all exchanges: each request with what \<^verbatim>\<open>client.Do\<close> made of it.\<close>

type_synonym exchange = "http_request \<times> (gerror + http_response)"

definition records_exchanges :: "'w net \<Rightarrow> ('w \<Rightarrow> exchange list) \<Rightarrow> bool" where
  "records_exchanges net obs \<longleftrightarrow>
     (\<forall>t rq w. obs (snd (http_do net t rq w)) = obs w @ [(rq, fst (http_do net t rq w))]) \<and> steady net obs"

text \<open>The attempt count that a caller reads from an outcome, as \<^verbatim>\<open>session.Data\<close> does.\<close>

definition outcome_attempts :: "result option \<times> gerror option \<Rightarrow> int" where
  "outcome_attempts oc =
     (case oc of
        (_, Some e) \<Rightarrow> (case AsDeliveryError e of Some d \<Rightarrow> Attempts d | None \<Rightarrow> 0)
      | (Some res, None) \<Rightarrow> ResAttempts res
      | (None, None) \<Rightarrow> 0)"

lemma steady_eqs:
  assumes "steady net f"
  shows "ctx_err net w = (ce, w') \<Longrightarrow> f w' = f w"
    and "sleep_for net d w = (se, w') \<Longrightarrow> f w' = f w"
    and "clock net w = (k, w') \<Longrightarrow> f w' = f w"
    and "rand_Int63n net n w = (k, w') \<Longrightarrow> f w' = f w"
  using assms unfolding steady_def by (metis snd_conv)+

lemma parseRetryAfter_steady:
  assumes "steady net f" and "parseRetryAfter net v w = (r, w')"
  shows "f w' = f w"
  using assms(2) by (auto simp: parseRetryAfter_def Let_def dest!: steady_eqs [OF assms(1)]
      split: if_splits option.splits prod.splits)

lemma shouldRetry_steady:
  assumes "steady net f" and "shouldRetry net rt a mr w = (r, w')"
  shows "f w' = f w"
  using assms(2) by (auto simp: shouldRetry_def dest!: steady_eqs [OF assms(1)]
      split: if_splits prod.splits)

lemma backoffDelay_steady:
  assumes "steady net f" and "backoffDelay net a ra w = (r, w')"
  shows "f w' = f w"
  using assms(2) by (auto simp: backoffDelay_def dest!: steady_eqs [OF assms(1)]
      split: if_splits)

lemmas loop_steady = steady_eqs shouldRetry_steady backoffDelay_steady

lemma counts_requests_eqs:
  assumes "counts_requests net cnt"
  shows "http_do net t rq w = (hr, w') \<Longrightarrow> cnt w' = cnt w + 1" and "steady net cnt"
  using assms unfolding counts_requests_def by (metis snd_conv)+

lemma records_exchanges_eqs:
  assumes "records_exchanges net obs"
  shows "http_do net t rq w = (hr, w') \<Longrightarrow> obs w' = obs w @ [(rq, hr)]" and "steady net obs"
  using assms unfolding records_exchanges_def by (metis fst_conv snd_conv)+

lemma doAttempt_count:
  assumes "counts_requests net cnt" and "build p = Inr rq"
    and "doAttempt net t p a build parse w = (r, w')"
  shows "cnt w' = cnt w + 1"
  using assms(2,3)
  by (auto simp: doAttempt_def
      dest!: counts_requests_eqs(1) [OF assms(1)] parseRetryAfter_steady [OF counts_requests_eqs(2) [OF assms(1)]]
      split: if_splits sum.splits prod.splits)

text \<open>
  The sleep seam is only ever called with a delay between 0 and the cap, so how it would
  behave elsewhere cannot matter.
\<close>

lemma net_update_simps:
  "parseRetryAfter (net\<lparr>sleep_for := s\<rparr>) v w = parseRetryAfter net v w"
  "doAttempt (net\<lparr>sleep_for := s\<rparr>) t p a build parse w = doAttempt net t p a build parse w"
  "shouldRetry (net\<lparr>sleep_for := s\<rparr>) rt a mr w = shouldRetry net rt a mr w"
  "backoffDelay (net\<lparr>sleep_for := s\<rparr>) a ra w = backoffDelay net a ra w"
  by (simp_all add: parseRetryAfter_def doAttempt_def shouldRetry_def backoffDelay_def
      cong: if_cong option.case_cong sum.case_cong)

lemma backoffDelay_nonneg:
  assumes "\<And>n w. 0 < n \<Longrightarrow> 0 \<le> fst (rand_Int63n net n w)"
    and "backoffDelay net a ra w = (d, w')"
  shows "0 \<le> d"
  using assms(2) assms(1) [of "maxDelay a + 1" w] maxDelay_bounds [of a]
  by (auto simp: backoffDelay_def split: if_splits)

lemma loop_round_sleep:
  assumes rand: "\<And>n w. 0 < n \<Longrightarrow> 0 \<le> fst (rand_Int63n net n w)"
    and agree: "\<And>d w. 0 \<le> d \<Longrightarrow> d \<le> retryCapDelay \<Longrightarrow> sleep' d w = sleep_for net d w"
  shows "loop_round (net\<lparr>sleep_for := sleep'\<rparr>) t mr p build parse a le w =
    loop_round net t mr p build parse a le w"
  using backoffDelay_nonneg [OF rand]
  by (auto simp: loop_round_def net_update_simps agree not_less split: prod.splits option.splits)

text \<open>Two networks under which every round is the same give the same delivery.\<close>

lemma sendLoop_cong:
  assumes "\<And>a le w. loop_round net' t mr p build parse a le w = loop_round net t mr p build parse a le w"
  shows "sendLoop net' t mr p build parse a le w = sendLoop net t mr p build parse a le w"
proof (induction "nat (mr + 1 - a)" arbitrary: a le w rule: less_induct)
  case less
  obtain oc w1 where r: "loop_round net t mr p build parse a le w = (oc, w1)" by fastforce
  note unfold = sendLoop.simps [of _ _ _ _ _ _ a] assms r
  show ?case
  proof (cases oc)
    case (Inl res)
    then show ?thesis by (simp add: unfold)
  next
    case (Inr d)
    with r have "a \<le> mr" by (auto dest: loop_round_again)
    then show ?thesis using less [of "a + 1" "Some d" w1] by (simp add: unfold Inr)
  qed
qed

lemma sendLoop_sleep:
  assumes rand: "\<And>n w. 0 < n \<Longrightarrow> 0 \<le> fst (rand_Int63n net n w)"
    and agree: "\<And>d w. 0 \<le> d \<Longrightarrow> d \<le> retryCapDelay \<Longrightarrow> sleep' d w = sleep_for net d w"
  shows "sendLoop (net\<lparr>sleep_for := sleep'\<rparr>) t mr p build parse a le w =
    sendLoop net t mr p build parse a le w"
  by (rule sendLoop_cong) (rule loop_round_sleep [OF rand agree])

text \<open>The client is only ever given the request that \<open>build\<close> makes of the payload.\<close>

lemma sendLoop_client:
  assumes "\<And>rq w. build p = Inr rq \<Longrightarrow> client' t rq w = http_do net t rq w"
  shows "sendLoop (net\<lparr>http_do := client'\<rparr>) t mr p build parse a le w =
    sendLoop net t mr p build parse a le w"
proof (rule sendLoop_cong)
  have other: "parseRetryAfter (net\<lparr>http_do := client'\<rparr>) v w = parseRetryAfter net v w"
    "shouldRetry (net\<lparr>http_do := client'\<rparr>) rt a mr w = shouldRetry net rt a mr w"
    "backoffDelay (net\<lparr>http_do := client'\<rparr>) a ra w = backoffDelay net a ra w" for v rt a ra w
    by (simp_all add: parseRetryAfter_def shouldRetry_def backoffDelay_def
        cong: if_cong option.case_cong)
  have "doAttempt (net\<lparr>http_do := client'\<rparr>) t p a build parse w = doAttempt net t p a build parse w" for a w
    using assms by (cases "build p") (simp_all add: doAttempt_def other cong: sum.case_cong prod.case_cong if_cong)
  then show "loop_round (net\<lparr>http_do := client'\<rparr>) t mr p build parse a le w =
      loop_round net t mr p build parse a le w" for a le w
    by (simp add: loop_round_def other cong: option.case_cong prod.case_cong if_cong)
qed

section \<open>The contract of a response parser\<close>

locale response_parser =
  fixes parse :: parser
  assumes parse_result: "parse status body a = (r, None, rt) \<Longrightarrow>
      \<exists>res. r = Some res \<and> ResAttempts res = a \<and> ResHTTPStatus res = status"
    and parse_error: "parse status body a = (r, Some d, rt) \<Longrightarrow>
      well_classified d \<and> Attempts d = a \<and> (rt \<longrightarrow> Temporary d)"
begin

lemma doAttempt_result:
  assumes "doAttempt net t p a build parse w = ((r, None, rt, ra), w')"
  shows "\<exists>res. r = Some res \<and> ResAttempts res = a"
  using assms by (auto simp: doAttempt_def dest!: parse_result
      split: sum.splits prod.splits if_splits)

lemma doAttempt_error:
  assumes "doAttempt net t p a build parse w = ((r, Some d, rt, ra), w')"
  shows "well_classified d \<and> Attempts d = a \<and> (rt \<longrightarrow> Temporary d)"
  using assms by (auto simp: doAttempt_def classifyTransport_ok dest!: parse_error
      split: sum.splits prod.splits if_splits)

lemma loop_round_retry:
  assumes "loop_round net t mr p build parse a le w = (Inr d, w')"
  shows "well_classified d \<and> Attempts d = a \<and> Temporary d \<and> a \<le> mr"
  using assms by (auto simp: loop_round_def dest!: doAttempt_error shouldRetry_True
      split: prod.splits option.splits if_splits)

lemma loop_round_stop:
  assumes "loop_round net t mr p build parse a le w = (Inl oc, w')"
    and "\<And>d. le = Some d \<Longrightarrow> well_classified d \<and> Attempts d = a - 1"
  shows "(\<exists>res. oc = (Some res, None) \<and> ResAttempts res = a) \<or>
    (\<exists>d. oc = (None, Some (ErrDelivery d)) \<and> well_classified d \<and> a - 1 \<le> Attempts d \<and> Attempts d \<le> a)"
  using assms(1) by (auto simp: loop_round_def classifyTransport_ok dest!: assms(2) doAttempt_result doAttempt_error
      split: prod.splits option.splits if_splits)

text \<open>The loop ends with a result or with a classified error, after at most \<open>mr + 1\<close> attempts.\<close>

lemma sendLoop_outcome:
  assumes "1 \<le> a" and "\<And>d. le = Some d \<Longrightarrow> well_classified d \<and> Attempts d = a - 1"
  shows "(\<exists>res w'. sendLoop net t mr p build parse a le w = ((Some res, None), w')
        \<and> 1 \<le> ResAttempts res \<and> ResAttempts res \<le> max a (mr + 1)) \<or>
    (\<exists>d w'. sendLoop net t mr p build parse a le w = ((None, Some (ErrDelivery d)), w')
        \<and> well_classified d \<and> a - 1 \<le> Attempts d \<and> Attempts d \<le> max a (mr + 1))"
  using assms
proof (induction "nat (mr + 1 - a)" arbitrary: a le w rule: less_induct)
  case less
  obtain oc w1 where r: "loop_round net t mr p build parse a le w = (oc, w1)" by fastforce
  show ?case
  proof (cases oc)
    case (Inl res)
    from loop_round_stop [OF r [unfolded Inl] less.prems(2)] less.prems(1)
    show ?thesis by (auto simp: sendLoop.simps [of _ _ _ _ _ _ a] r Inl)
  next
    case (Inr d)
    from loop_round_retry [OF r [unfolded Inr]]
    have d: "well_classified d \<and> Attempts d = a" "a \<le> mr" by auto
    have "sendLoop net t mr p build parse a le w = sendLoop net t mr p build parse (a + 1) (Some d) w1"
      by (subst sendLoop.simps) (simp add: r Inr)
    moreover note less.hyps [of "a + 1" "Some d" w1]
    ultimately show ?thesis using d less.prems by auto
  qed
qed

lemma send_outcome:
  "(\<exists>res w'. sendLoop net t mr p build parse 1 None w = ((Some res, None), w')
        \<and> 1 \<le> ResAttempts res \<and> ResAttempts res \<le> max 1 (mr + 1)) \<or>
    (\<exists>d w'. sendLoop net t mr p build parse 1 None w = ((None, Some (ErrDelivery d)), w')
        \<and> well_classified d \<and> 0 \<le> Attempts d \<and> Attempts d \<le> max 1 (mr + 1))"
proof -
  have "(1::int) - 1 = 0" by simp
  note start = sendLoop_outcome [where a = 1 and le = None, unfolded this]
  show ?thesis by (rule start) simp_all
qed

lemma doAttempt_outcome:
  assumes "counts_requests net cnt" and "build p = Inr rq"
    and "doAttempt net t p a build parse w = ((r, oe, rt, ra), w')"
  shows "cnt w' = cnt w + 1 \<and>
    (case oe of None \<Rightarrow> \<exists>res. r = Some res \<and> ResAttempts res = a | Some d \<Rightarrow> Attempts d = a)"
  using doAttempt_count [OF assms] assms(3)
  by (auto split: option.split dest: doAttempt_result doAttempt_error)

lemma loop_round_count:
  assumes "counts_requests net cnt" and "build p = Inr rq"
    and "\<And>d. le = Some d \<Longrightarrow> Attempts d = a - 1"
  shows "loop_round net t mr p build parse a le w = (Inr d, w') \<Longrightarrow>
      cnt w' = cnt w + 1 \<and> Attempts d = a"
    and "loop_round net t mr p build parse a le w = (Inl oc, w') \<Longrightarrow>
      outcome_attempts oc = a - 1 + cnt w' - cnt w"
  by (auto simp: loop_round_def outcome_attempts_def assms(3)
      dest!: doAttempt_outcome [where build = build, OF assms(1,2)] loop_steady [OF counts_requests_eqs(2) [OF assms(1)]]
      split: prod.splits option.splits if_splits)

text \<open>The attempts an outcome reports are the requests that were issued.\<close>

lemma sendLoop_count:
  assumes "counts_requests net cnt" and "build p = Inr rq"
    and "\<And>d. le = Some d \<Longrightarrow> Attempts d = a - 1"
    and "sendLoop net t mr p build parse a le w = (oc, w')"
  shows "outcome_attempts oc = a - 1 + cnt w' - cnt w"
  using assms(3,4)
proof (induction "nat (mr + 1 - a)" arbitrary: a le w rule: less_induct)
  case less
  note prems = less.prems(1)
  obtain rd w1 where r: "loop_round net t mr p build parse a le w = (rd, w1)" by fastforce
  note run = less.prems(2) [unfolded sendLoop.simps [of _ _ _ _ _ _ a] r]
  show ?case
  proof (cases rd)
    case (Inl res)
    with run loop_round_count(2) [OF assms(1,2) prems r [unfolded Inl]] show ?thesis by auto
  next
    case (Inr d)
    have d: "cnt w1 = cnt w + 1 \<and> Attempts d = a"
      using loop_round_count(1) [OF assms(1,2) prems r [unfolded Inr]] by auto
    have "a \<le> mr" using r Inr by (auto dest: loop_round_again)
    then show ?thesis using less.hyps [of "a + 1" "Some d" w1] run d Inr by auto
  qed
qed

text \<open>
  When \<open>build\<close> fails there is no request: every round fails, the rounds are counted as attempts
  all the same, and the delivery fails.
\<close>

lemma loop_round_unbuilt:
  assumes "build p = Inl e" and "loop_round net t mr p build parse a le w = (r, w')"
  shows "r = Inl oc \<Longrightarrow> snd oc \<noteq> None"
    and "fst (ctx_err net w) = None \<Longrightarrow> r = Inl oc \<Longrightarrow> outcome_attempts oc = a"
  using assms(2) by (auto simp: loop_round_def doAttempt_def assms(1) outcome_attempts_def
      split: prod.splits option.splits if_splits)

lemma loop_round_unbuilt_steady:
  assumes "build p = Inl e" and "steady net f" and "loop_round net t mr p build parse a le w = (r, w')"
  shows "f w' = f w"
  using assms(3) by (auto simp: loop_round_def doAttempt_def assms(1)
      dest!: loop_steady [OF assms(2)] split: prod.splits option.splits if_splits)

lemma sendLoop_unbuilt:
  assumes "build p = Inl e" and "sendLoop net t mr p build parse a le w = (oc, w')"
  shows "(steady net f \<longrightarrow> f w' = f w) \<and> snd oc \<noteq> None"
  using assms(2)
proof (induction "nat (mr + 1 - a)" arbitrary: a le w rule: less_induct)
  case less
  obtain rd w1 where r: "loop_round net t mr p build parse a le w = (rd, w1)" by fastforce
  note run = less.prems [unfolded sendLoop.simps [of _ _ _ _ _ _ a] r]
  show ?case
  proof (cases rd)
    case (Inl res)
    with run loop_round_unbuilt(1) [OF assms(1) r] loop_round_unbuilt_steady [OF assms(1) _ r, of f]
    show ?thesis by auto
  next
    case (Inr d)
    have "a \<le> mr" using r Inr by (auto dest: loop_round_again)
    with less.hyps [of "a + 1" "Some d" w1] run Inr loop_round_unbuilt_steady [OF assms(1) _ r, of f]
    show ?thesis by auto
  qed
qed

lemma sendLoop_unbuilt_attempts:
  assumes "build p = Inl e" and "fst (ctx_err net w) = None"
    and "sendLoop net t mr p build parse 1 None w = (oc, w')"
  shows "1 \<le> outcome_attempts oc"
proof -
  obtain rd w1 where r: "loop_round net t mr p build parse 1 None w = (rd, w1)" by fastforce
  note run = assms(3) [unfolded sendLoop.simps [of _ _ _ _ _ _ 1] r]
  show ?thesis
  proof (cases rd)
    case (Inl res)
    with run loop_round_unbuilt(2) [OF assms(1) r assms(2)] show ?thesis by simp
  next
    case (Inr d)
    note loop_round_retry [OF r [unfolded Inr]]
    then have "Attempts d = 1" "well_classified d" by blast+
    then show ?thesis
      using sendLoop_outcome [where a = 2 and le = "Some d" and net = net and t = t and mr = mr
          and p = p and build = build and w = w1] run Inr
      by (auto simp: outcome_attempts_def)
  qed
qed

text \<open>Requests and attempts of a delivery, whether or not a request can be built.\<close>

lemma sendLoop_requests:
  assumes "counts_requests net cnt" and "sendLoop net t mr p build parse 1 None w = (oc, w')"
  shows "case build p of
      Inr _ \<Rightarrow> cnt w' - cnt w = outcome_attempts oc
    | Inl _ \<Rightarrow> cnt w' = cnt w \<and> snd oc \<noteq> None
        \<and> (fst (ctx_err net w) = None \<longrightarrow> 1 \<le> outcome_attempts oc)"
proof (cases "build p")
  case (Inl e)
  with sendLoop_unbuilt [OF Inl assms(2), of cnt] sendLoop_unbuilt_attempts [OF Inl _ assms(2)]
    counts_requests_eqs(2) [OF assms(1)] show ?thesis by simp
next
  case (Inr rq)
  with sendLoop_count [OF assms(1) Inr _ assms(2)] show ?thesis by simp
qed

end

section \<open>The exchanges of a delivery\<close>

text \<open>The provider has accepted the message when the reply is read and is not an error.\<close>

definition accepted :: "parser \<Rightarrow> exchange \<Rightarrow> bool" where
  "accepted parse x =
     (case snd x of
        Inl _ \<Rightarrow> False
      | Inr resp \<Rightarrow>
          (case readAndDrainBody (rs_body resp) of
             Inl _ \<Rightarrow> False
           | Inr body \<Rightarrow> fst (snd (parse (rs_status resp) body 1)) = None))"

text \<open>
  The exchanges \<open>xs\<close> of a delivery that ended in \<open>oc\<close>: a success ends with the one
  accepted exchange, otherwise no exchange was accepted.
\<close>

definition conclusive :: "parser \<Rightarrow> exchange list \<Rightarrow> bool \<Rightarrow> bool" where
  "conclusive parse xs ok \<longleftrightarrow>
     (if ok then xs \<noteq> [] \<and> accepted parse (last xs) \<and> list_all (Not \<circ> accepted parse) (butlast xs)
      else list_all (Not \<circ> accepted parse) xs)"

lemma accepted_no_reply:
  "\<not> accepted parse (rq, Inl e)"
  "readAndDrainBody (rs_body resp) = Inl e \<Longrightarrow> \<not> accepted parse (rq, Inr resp)"
  by (simp_all add: accepted_def)

lemma conclusive_append:
  "conclusive parse xs False \<Longrightarrow> conclusive parse ys ok \<Longrightarrow> conclusive parse (xs @ ys) ok"
  by (auto simp: conclusive_def butlast_append)

locale deciding_parser = response_parser +
  assumes parse_decides: "parse st body a = (r, oe, rt) \<Longrightarrow> parse st body a' = (r', oe', rt') \<Longrightarrow>
    oe = None \<longleftrightarrow> oe' = None"
begin

lemma accepted_reply:
  assumes "readAndDrainBody (rs_body resp) = Inr body" and "parse (rs_status resp) body a = (r, oe, rt)"
  shows "accepted parse (rq, Inr resp) \<longleftrightarrow> oe = None"
proof -
  obtain r1 oe1 rt1 where p: "parse (rs_status resp) body 1 = (r1, oe1, rt1)" by (metis prod_cases3)
  with parse_decides [OF assms(2) p] assms(1) show ?thesis by (simp add: accepted_def)
qed

lemma doAttempt_exchange:
  assumes "records_exchanges net obs" and "doAttempt net t p a build parse w = ((r, oe, rt, ra), w')"
  shows "\<exists>xs. obs w' = obs w @ xs \<and> list_all (\<lambda>x. build p = Inr (fst x)) xs \<and> length xs \<le> 1
    \<and> conclusive parse xs (oe = None) \<and> (xs = [] \<longrightarrow> (\<exists>e. build p = Inl e))"
proof (cases "build p")
  case (Inl e)
  with assms(2) show ?thesis by (auto simp: doAttempt_def conclusive_def)
next
  case (Inr rq)
  obtain hr w1 where h: "http_do net t rq w = (hr, w1)" by fastforce
  note obs = records_exchanges_eqs(1) [OF assms(1) h] records_exchanges_eqs(2) [OF assms(1)]
  have "obs w' = obs w @ [(rq, hr)] \<and> (oe = None \<longleftrightarrow> accepted parse (rq, hr))"
    using assms(2) obs(1) by (auto simp: doAttempt_def Inr h accepted_reply accepted_no_reply
        dest: parseRetryAfter_steady [OF obs(2)] split: sum.splits prod.splits if_splits)
  with Inr show ?thesis by (auto simp: conclusive_def)
qed

lemma loop_round_exchange:
  assumes "records_exchanges net obs" and "loop_round net t mr p build parse a le w = (r, w')"
  shows "\<exists>xs. obs w' = obs w @ xs \<and> list_all (\<lambda>x. build p = Inr (fst x)) xs \<and> length xs \<le> 1
    \<and> conclusive parse xs (case r of Inl oc \<Rightarrow> snd oc = None | Inr _ \<Rightarrow> False)
    \<and> (xs = [] \<longrightarrow> fst (ctx_err net w) \<noteq> None \<or> (\<exists>e. build p = Inl e))"
proof -
  note steady = loop_steady [OF records_exchanges_eqs(2) [OF assms(1)]]
  obtain ce w1 where c: "ctx_err net w = (ce, w1)" by fastforce
  obtain res oe rt ra w2 where d: "doAttempt net t p a build parse w1 = ((res, oe, rt, ra), w2)"
    by (metis prod_cases4 surj_pair)
  show ?thesis
  proof (cases ce)
    case (Some e)
    with assms(2) steady(1) [OF c] show ?thesis by (auto simp: loop_round_def c conclusive_def)
  next
    case None
    have "obs w' = obs w2" and "(case r of Inl oc \<Rightarrow> snd oc = None | Inr _ \<Rightarrow> False) \<longleftrightarrow> oe = None"
      using assms(2) by (auto simp: loop_round_def c None d dest!: steady
          split: option.splits prod.splits if_splits)
    with doAttempt_exchange [OF assms(1) d] steady(1) [OF c] show ?thesis by simp blast
  qed
qed

text \<open>
  A delivery only ever issues the request that \<open>build\<close> makes, at most \<open>mr + 1\<close> times, and it
  stops at the first exchange that is accepted; it issues none only when there is no request or
  the context is done from the start.
\<close>

lemma sendLoop_exchanges:
  assumes "records_exchanges net obs" and "sendLoop net t mr p build parse a le w = (oc, w')"
  shows "\<exists>xs. obs w' = obs w @ xs \<and> list_all (\<lambda>x. build p = Inr (fst x)) xs
    \<and> int (length xs) \<le> 1 + max 0 (mr + 1 - a) \<and> conclusive parse xs (snd oc = None)
    \<and> (xs = [] \<longrightarrow> fst (ctx_err net w) \<noteq> None \<or> (\<exists>e. build p = Inl e))"
  using assms(2)
proof (induction "nat (mr + 1 - a)" arbitrary: a le w rule: less_induct)
  case less
  obtain r w1 where r: "loop_round net t mr p build parse a le w = (r, w1)" by fastforce
  note run = less.prems [unfolded sendLoop.simps [of _ _ _ _ _ _ a] r]
  obtain xs where xs: "obs w1 = obs w @ xs" "list_all (\<lambda>x. build p = Inr (fst x)) xs" "length xs \<le> 1"
      "conclusive parse xs (case r of Inl oc \<Rightarrow> snd oc = None | Inr _ \<Rightarrow> False)"
      "xs = [] \<longrightarrow> fst (ctx_err net w) \<noteq> None \<or> (\<exists>e. build p = Inl e)"
    using loop_round_exchange [OF assms(1) r] by blast
  show ?case
  proof (cases r)
    case (Inl res)
    with run xs show ?thesis by (intro exI [of _ xs]) simp
  next
    case (Inr d)
    have "a \<le> mr" using r Inr by (auto dest: loop_round_again)
    then obtain ys where ys: "obs w' = obs w1 @ ys" "list_all (\<lambda>x. build p = Inr (fst x)) ys"
        "int (length ys) \<le> 1 + max 0 (mr + 1 - (a + 1))" "conclusive parse ys (snd oc = None)"
      using less.hyps [of "a + 1" "Some d" w1] run Inr by auto
    from xs(4) have "conclusive parse (xs @ ys) (snd oc = None)"
      using conclusive_append ys(4) by (simp add: Inr)
    with xs(1-3,5) ys(1-3) \<open>a \<le> mr\<close> show ?thesis by (intro exI [of _ "xs @ ys"]) auto
  qed
qed

end

end
