(* ===== verification/Go_Json.thy ===== *)
theory Go_Json
  imports Email_Errors "HOL-Library.Char_ord" "HOL-Library.List_Lexorder"
begin

text \<open>
  What the relay uses of \<^verbatim>\<open>encoding/json\<close>: the text that \<^verbatim>\<open>json.Marshal\<close>
  writes (strings escaped with HTML escaping, map keys sorted), the grammar that
  \<^verbatim>\<open>json.Unmarshal\<close> accepts, and the decoding of values into Go fields. A value is
  a tree \<open>json\<close>; a member list keeps the order of the text. The text of a decoding error
  is not modelled.
\<close>

datatype json =
    JNull
  | JBool bool
  | JNum string                       \<comment> \<open>the literal as written\<close>
  | JStr string
  | JArr "json list"
  | JObj "(string \<times> json) list"

section \<open>Encoding\<close>

definition escape_seg :: "rune \<times> string \<Rightarrow> string" where
  "escape_seg p =
     (let r = fst p; b = snd p in
      if r < 0x80 then
        (if r = 0x22 \<or> r = 0x5C then CHR 0x5C # b
         else if r = 8 then [CHR 0x5C, CHR ''b'']
         else if r = 9 then [CHR 0x5C, CHR ''t'']
         else if r = 10 then [CHR 0x5C, CHR ''n'']
         else if r = 12 then [CHR 0x5C, CHR ''f'']
         else if r = 13 then [CHR 0x5C, CHR ''r'']
         else if r < 0x20 \<or> r = 0x3C \<or> r = 0x3E \<or> r = 0x26 then [CHR 0x5C, CHR ''u''] @ hex 4 r
         else b)
      else if length b = 1 then [CHR 0x5C, CHR ''u''] @ ''fffd''
      else if r = 0x2028 \<or> r = 0x2029 then [CHR 0x5C, CHR ''u''] @ hex 4 r
      else b)"

definition encode_string :: "string \<Rightarrow> string" where
  "encode_string s = CHR 0x22 # concat (map escape_seg (segs s)) @ [CHR 0x22]"

fun commas :: "string list \<Rightarrow> string" where
  "commas [] = []"
| "commas [x] = x"
| "commas (x # y # xs) = x @ CHR '','' # commas (y # xs)"

fun json_text :: "json \<Rightarrow> string" where
  "json_text JNull = ''null''"
| "json_text (JBool b) = (if b then ''true'' else ''false'')"
| "json_text (JNum l) = l"
| "json_text (JStr s) = encode_string s"
| "json_text (JArr js) = CHR ''['' # commas (map json_text js) @ '']''"
| "json_text (JObj ms) =
     CHR ''{'' # commas (map (\<lambda>m. encode_string (fst m) @ CHR '':'' # json_text (snd m)) ms) @ ''}''"

text \<open>A Go map is written in the order of its keys.\<close>

definition map_members :: "(string \<times> string) list \<Rightarrow> (string \<times> json) list" where
  "map_members kvs = map (\<lambda>kv. (fst kv, JStr (snd kv))) (sort_key fst kvs)"

section \<open>The grammar\<close>

definition is_ws :: "char \<Rightarrow> bool" where
  "is_ws c \<longleftrightarrow> byte c = 0x20 \<or> byte c = 0x09 \<or> byte c = 0x0A \<or> byte c = 0x0D"

definition skip_ws :: "string \<Rightarrow> string" where
  "skip_ws s = dropWhile is_ws s"

definition hex_val :: "char \<Rightarrow> nat option" where
  "hex_val c =
     (let n = byte c in
      if 48 \<le> n \<and> n \<le> 57 then Some (n - 48)
      else if 97 \<le> n \<and> n \<le> 102 then Some (n - 87)
      else if 65 \<le> n \<and> n \<le> 70 then Some (n - 55)
      else None)"

fun getu4 :: "string \<Rightarrow> nat option" where
  "getu4 (a # b # c # d # _) =
     (case (hex_val a, hex_val b, hex_val c, hex_val d) of
        (Some p, Some q, Some r, Some s) \<Rightarrow> Some (((p * 16 + q) * 16 + r) * 16 + s)
      | _ \<Rightarrow> None)"
| "getu4 _ = None"

text \<open>The low surrogate of a pair: \<^verbatim>\<open>\\uXXXX\<close> with a value in the low range.\<close>

definition low_surrogate :: "string \<Rightarrow> nat option" where
  "low_surrogate s =
     (if take 2 s = [CHR 0x5C, CHR ''u''] then
        (case getu4 (drop 2 s) of
           Some v \<Rightarrow> if 0xDC00 \<le> v \<and> v \<le> 0xDFFF then Some v else None
         | None \<Rightarrow> None)
      else None)"

definition simple_escape :: "char \<Rightarrow> string option" where
  "simple_escape c =
     (if c = CHR 0x22 \<or> c = CHR 0x5C \<or> c = CHR ''/'' then Some [c]
      else if c = CHR ''b'' then Some [CHR 0x08]
      else if c = CHR ''f'' then Some [CHR 0x0C]
      else if c = CHR ''n'' then Some [CHR 0x0A]
      else if c = CHR ''r'' then Some [CHR 0x0D]
      else if c = CHR ''t'' then Some [CHR 0x09]
      else None)"

text \<open>The inside of a string literal after its opening quote, and the rest after the closing one.\<close>

function string_body :: "string \<Rightarrow> (string \<times> string) option" where
  "string_body [] = None"
| "string_body (c # cs) =
     (if c = CHR 0x22 then Some ([], cs)
      else if c = CHR 0x5C then
        (if take 1 cs = ''u'' then
           (case getu4 (drop 1 cs) of
              None \<Rightarrow> None
            | Some v \<Rightarrow>
                (let rest = drop 5 cs in
                 if 0xD800 \<le> v \<and> v \<le> 0xDFFF then
                   (case (if v \<le> 0xDBFF then low_surrogate rest else None) of
                      Some w \<Rightarrow>
                        map_option (apfst ((@) (encode_rune (0x10000 + (v - 0xD800) * 0x400 + (w - 0xDC00)))))
                          (string_body (drop 6 rest))
                    | None \<Rightarrow> map_option (apfst ((@) (encode_rune runeError))) (string_body rest))
                 else map_option (apfst ((@) (encode_rune v))) (string_body rest)))
         else
           (case cs of
              [] \<Rightarrow> None
            | e # rest \<Rightarrow>
                (case simple_escape e of
                   None \<Rightarrow> None
                 | Some b \<Rightarrow> map_option (apfst ((@) b)) (string_body rest))))
      else if byte c < 0x20 then None
      else map_option (apfst ((#) c)) (string_body cs))"
  by pat_completeness auto
termination
  by (relation "measure length") (auto simp: less_Suc_eq_le)

text \<open>Ill-formed UTF-8 in the text becomes the replacement rune.\<close>

definition parse_string :: "string \<Rightarrow> (string \<times> string) option" where
  "parse_string s = map_option (apfst (\<lambda>t. encode (runes t))) (string_body s)"

definition is_num_char :: "char \<Rightarrow> bool" where
  "is_num_char c \<longleftrightarrow>
     (48 \<le> byte c \<and> byte c \<le> 57) \<or> c = CHR ''-'' \<or> c = CHR ''+'' \<or> c = CHR ''.'' \<or> c = CHR ''e'' \<or> c = CHR ''E''"

definition is_digit :: "char \<Rightarrow> bool" where
  "is_digit c \<longleftrightarrow> 48 \<le> byte c \<and> byte c \<le> 57"

text \<open>The number grammar: sign, integer part without leading zeros, fraction, exponent.\<close>

definition num_exp_ok :: "string \<Rightarrow> bool" where
  "num_exp_ok s =
     (s = [] \<or>
      ((take 1 s = ''e'' \<or> take 1 s = ''E'') \<and>
       (let t = (if take 1 (drop 1 s) = ''+'' \<or> take 1 (drop 1 s) = ''-'' then drop 2 s else drop 1 s)
        in t \<noteq> [] \<and> list_all is_digit t)))"

definition num_frac_ok :: "string \<Rightarrow> bool" where
  "num_frac_ok s =
     (if take 1 s = ''.'' then
        takeWhile is_digit (drop 1 s) \<noteq> [] \<and> num_exp_ok (dropWhile is_digit (drop 1 s))
      else num_exp_ok s)"

definition num_ok :: "string \<Rightarrow> bool" where
  "num_ok s0 =
     (let s = (if take 1 s0 = ''-'' then drop 1 s0 else s0) in
      if take 1 s = ''0'' then num_frac_ok (drop 1 s)
      else takeWhile is_digit s \<noteq> [] \<and> num_frac_ok (dropWhile is_digit s))"

definition max_nesting :: int where
  "max_nesting = 10000"

text \<open>
  Values, elements and members; \<open>n\<close> is fuel (each call consumes a byte), \<open>d\<close> the nesting
  depth, which \<^verbatim>\<open>encoding/json\<close> limits to 10000.
\<close>

fun jvalue :: "nat \<Rightarrow> int \<Rightarrow> string \<Rightarrow> (json \<times> string) option"
  and jelements :: "nat \<Rightarrow> int \<Rightarrow> string \<Rightarrow> (json list \<times> string) option"
  and jmembers :: "nat \<Rightarrow> int \<Rightarrow> string \<Rightarrow> ((string \<times> json) list \<times> string) option"
where
  "jvalue 0 d s = None"
| "jvalue (Suc n) d s =
     (case skip_ws s of
        [] \<Rightarrow> None
      | c # cs \<Rightarrow>
          if c = CHR ''{'' then
            (if max_nesting \<le> d then None
             else if take 1 (skip_ws cs) = ''}'' then Some (JObj [], drop 1 (skip_ws cs))
             else map_option (apfst JObj) (jmembers n (d + 1) cs))
          else if c = CHR ''['' then
            (if max_nesting \<le> d then None
             else if take 1 (skip_ws cs) = '']'' then Some (JArr [], drop 1 (skip_ws cs))
             else map_option (apfst JArr) (jelements n (d + 1) cs))
          else if c = CHR 0x22 then map_option (apfst JStr) (parse_string cs)
          else if take 4 (c # cs) = ''true'' then Some (JBool True, drop 3 cs)
          else if take 5 (c # cs) = ''false'' then Some (JBool False, drop 4 cs)
          else if take 4 (c # cs) = ''null'' then Some (JNull, drop 3 cs)
          else (let l = takeWhile is_num_char (c # cs) in
                if num_ok l then Some (JNum l, dropWhile is_num_char (c # cs)) else None))"
| "jelements 0 d s = None"
| "jelements (Suc n) d s =
     (case jvalue n d s of
        None \<Rightarrow> None
      | Some (v, s1) \<Rightarrow>
          (case skip_ws s1 of
             [] \<Rightarrow> None
           | c # cs \<Rightarrow>
               if c = CHR '']'' then Some ([v], cs)
               else if c = CHR '','' then map_option (apfst ((#) v)) (jelements n d cs)
               else None))"
| "jmembers 0 d s = None"
| "jmembers (Suc n) d s =
     (case skip_ws s of
        [] \<Rightarrow> None
      | q # s0 \<Rightarrow>
          if q \<noteq> CHR 0x22 then None
          else (case parse_string s0 of
             None \<Rightarrow> None
           | Some (k, s1) \<Rightarrow>
               if take 1 (skip_ws s1) \<noteq> '':'' then None
               else (case jvalue n d (drop 1 (skip_ws s1)) of
                  None \<Rightarrow> None
                | Some (v, s2) \<Rightarrow>
                    (case skip_ws s2 of
                       [] \<Rightarrow> None
                     | c # cs \<Rightarrow>
                         if c = CHR ''}'' then Some ([(k, v)], cs)
                         else if c = CHR '','' then map_option (apfst ((#) (k, v))) (jmembers n d cs)
                         else None))))"

text \<open>A whole text: one value and white space.\<close>

definition json_parse :: "string \<Rightarrow> json option" where
  "json_parse s =
     (case jvalue (2 * length s + 2) 0 s of
        Some (v, rest) \<Rightarrow> if skip_ws rest = [] then Some v else None
      | None \<Rightarrow> None)"

section \<open>Decoding into fields\<close>

text \<open>
  \<open>None\<close> is an \<^verbatim>\<open>UnmarshalTypeError\<close>. JSON null leaves a field as it is; a member
  is matched to a field name without regard to case; unknown members are ignored; a repeated
  member is decoded afresh.
\<close>

fun into_bool :: "bool \<Rightarrow> json \<Rightarrow> bool option" where
  "into_bool _ (JBool b) = Some b"
| "into_bool old JNull = Some old"
| "into_bool _ _ = None"

fun into_string :: "string \<Rightarrow> json \<Rightarrow> string option" where
  "into_string _ (JStr s) = Some s"
| "into_string old JNull = Some old"
| "into_string _ _ = None"

fun into_int :: "int \<Rightarrow> json \<Rightarrow> int option" where
  "into_int _ (JNum l) = atoi l"
| "into_int old JNull = Some old"
| "into_int _ _ = None"

fun into_all :: "(json \<Rightarrow> 'a option) \<Rightarrow> json list \<Rightarrow> 'a list option" where
  "into_all f [] = Some []"
| "into_all f (j # js) =
     (case f j of None \<Rightarrow> None | Some x \<Rightarrow> map_option ((#) x) (into_all f js))"

fun into_slice :: "(json \<Rightarrow> 'a option) \<Rightarrow> json \<Rightarrow> 'a list option" where
  "into_slice f (JArr js) = into_all f js"
| "into_slice f JNull = Some []"
| "into_slice f _ = None"

text \<open>A struct: its fields are updated member by member.\<close>

fun into_members :: "(string \<Rightarrow> json \<Rightarrow> 'a \<Rightarrow> 'a option) \<Rightarrow> (string \<times> json) list \<Rightarrow> 'a \<Rightarrow> 'a option" where
  "into_members f [] x = Some x"
| "into_members f ((k, v) # ms) x =
     (case f k v x of None \<Rightarrow> None | Some y \<Rightarrow> into_members f ms y)"

fun into_struct :: "(string \<Rightarrow> json \<Rightarrow> 'a \<Rightarrow> 'a option) \<Rightarrow> 'a \<Rightarrow> json \<Rightarrow> 'a option" where
  "into_struct f x (JObj ms) = into_members f ms x"
| "into_struct f x JNull = Some x"
| "into_struct f x _ = None"

definition field_named :: "unicode \<Rightarrow> string \<Rightarrow> string \<Rightarrow> bool" where
  "field_named U name k \<longleftrightarrow> k = name \<or> equalFold U k name"

definition jsonError :: gerror where
  "jsonError = ErrForeign ''json'' []"

text \<open>\<^verbatim>\<open>json.Unmarshal\<close> of a text into a struct that starts as \<open>zero\<close>.\<close>

definition unmarshal :: "(string \<Rightarrow> json \<Rightarrow> 'a \<Rightarrow> 'a option) \<Rightarrow> 'a \<Rightarrow> string \<Rightarrow> gerror + 'a" where
  "unmarshal f zero body =
     (case Option.bind (json_parse body) (into_struct f zero) of
        None \<Rightarrow> Inl jsonError
      | Some x \<Rightarrow> Inr x)"

end
