(* ===== verification/Json_Roundtrip.thy ===== *)
theory Json_Roundtrip
  imports Go_Json
begin

text \<open>
  Decoding what was encoded: the text that \<open>json_text\<close> writes for a value is accepted by
  \<open>json_parse\<close>, within its fuel and its nesting limit, and gives the value back, with
  ill-formed UTF-8 in strings replaced.
\<close>

section \<open>String literals\<close>

lemma hex_val_digit: "d < 16 \<Longrightarrow> hex_val (hex_digit d) = Some d"
proof -
  assume d: "d < 16"
  have "byte (char_of (48 + d)) = 48 + d" "byte (char_of (87 + d)) = 87 + d"
    by (rule byte_char_of, use d in simp)+
  with d show ?thesis
    unfolding hex_val_def hex_digit_def Let_def by (cases "d < 10") simp_all
qed

lemma hex4:
  "hex 4 n = [hex_digit (n div 16 div 16 div 16 mod 16), hex_digit (n div 16 div 16 mod 16),
     hex_digit (n div 16 mod 16), hex_digit (n mod 16)]"
proof -
  have "hex (Suc (Suc (Suc (Suc 0)))) n = [hex_digit (n div 16 div 16 div 16 mod 16),
      hex_digit (n div 16 div 16 mod 16), hex_digit (n div 16 mod 16), hex_digit (n mod 16)]"
    by (simp only: hex.simps append.simps)
  moreover have "4 = Suc (Suc (Suc (Suc 0)))" by simp
  ultimately show ?thesis by (simp only:)
qed

lemma getu4_hex:
  assumes "r < 65536"
  shows "getu4 (hex 4 r @ u) = Some r"
proof -
  have split: "n div 16 * 16 + n mod 16 = n" for n :: nat by simp
  have top: "r div 16 div 16 div 16 mod 16 = r div 16 div 16 div 16"
    using assms by (simp flip: div_mult2_eq)
  have lt: "n mod 16 < 16" for n :: nat by simp
  have top16: "r div 16 div 16 div 16 < 16"
    using assms by (simp flip: div_mult2_eq)
  show ?thesis
    unfolding hex4 append.simps getu4.simps hex_val_digit [OF lt] prod.case option.case
    by (simp only: top split hex_val_digit [OF top16] option.case)
qed

lemma length_hex [simp]: "length (hex w n) = w"
  by (induction w arbitrary: n) simp_all

lemma string_body_u:
  assumes "r < 65536" and "r < 0xD800 \<or> 0xDFFF < r"
  shows "string_body (CHR 0x5C # CHR ''u'' # hex 4 r @ u) =
    map_option (apfst ((@) (encode_rune r))) (string_body u)"
  using assms by (auto simp: getu4_hex)

lemma string_body_plain:
  "c \<noteq> CHR 0x22 \<Longrightarrow> c \<noteq> CHR 0x5C \<Longrightarrow> 0x20 \<le> byte c \<Longrightarrow>
     string_body (c # u) = map_option (apfst ((@) [c])) (string_body u)"
  by (simp add: append_Cons [abs_def])

declare string_body.simps(2) [simp del]

text \<open>The bytes that the escaped form of a segment stands for.\<close>

definition seg_value :: "rune \<times> string \<Rightarrow> string" where
  "seg_value p =
     (if 0x80 \<le> fst p \<and> (length (snd p) = 1 \<or> fst p = 0x2028 \<or> fst p = 0x2029)
      then encode_rune (fst p) else snd p)"

lemma string_body_high:
  "\<forall>c \<in> set b. 0x80 \<le> byte c \<Longrightarrow>
     string_body (b @ u) = map_option (apfst ((@) b)) (string_body u)"
proof (induction b)
  case Nil
  show ?case by (cases "string_body u") (auto simp: apfst_def)
next
  case (Cons c b)
  then have "c \<noteq> CHR 0x22" "c \<noteq> CHR 0x5C" "0x20 \<le> byte c" by auto
  with Cons show ?case by (simp add: string_body_plain option.map_comp comp_def apfst_def map_prod_def split_beta)
qed

lemma byte_eqs:
  "byte c = 34 \<longleftrightarrow> c = CHR 0x22"
  "byte c = 92 \<longleftrightarrow> c = CHR 0x5C" "byte c = 8 \<longleftrightarrow> c = CHR 0x08"
  "byte c = 9 \<longleftrightarrow> c = CHR 0x09" "byte c = 10 \<longleftrightarrow> c = CHR 0x0A" "byte c = 12 \<longleftrightarrow> c = CHR 0x0C" "byte c = 13 \<longleftrightarrow> c = CHR 0x0D"
  using of_char_eq_iff [of c "CHR 0x22", where ?'a = nat] of_char_eq_iff [of c "CHR 0x5C", where ?'a = nat] of_char_eq_iff [of c "CHR 0x08", where ?'a = nat] of_char_eq_iff [of c "CHR 0x09", where ?'a = nat] of_char_eq_iff [of c "CHR 0x0A", where ?'a = nat] of_char_eq_iff [of c "CHR 0x0C", where ?'a = nat] of_char_eq_iff [of c "CHR 0x0D", where ?'a = nat] by simp_all

lemma string_body_escape:
  assumes "p \<in> set (segs s)"
  shows "string_body (escape_seg p @ u) = map_option (apfst ((@) (seg_value p))) (string_body u)"
  using assms
proof (cases rule: seg_cases)
  case (ascii c)
  have esc: "string_body (CHR 0x5C # e # u) = map_option (apfst ((@) b)) (string_body u)"
    if "simple_escape e = Some b" for e b
    using that by (auto simp: string_body.simps simple_escape_def)
  have v: "seg_value p = [c]" using ascii by (simp add: seg_value_def)
  have [simp]: "encode_rune (byte c) = [c]" using ascii by (simp add: encode_rune_def)
  consider "byte c = 0x22" | "byte c = 0x5C" | "byte c = 8" | "byte c = 9" | "byte c = 10" | "byte c = 12"
    | "byte c = 13" | (u) "byte c \<notin> {8, 9, 10, 12, 13, 0x22, 0x5C}"
        "byte c < 0x20 \<or> byte c = 0x3C \<or> byte c = 0x3E \<or> byte c = 0x26"
    | (plain) "byte c \<notin> {0x22, 0x5C}" "0x20 \<le> byte c" "byte c \<notin> {0x3C, 0x3E, 0x26}"
    by fastforce
  then show ?thesis
  proof cases
    case u
    then have "escape_seg p = CHR 0x5C # CHR ''u'' # hex 4 (byte c)"
      using ascii by (auto simp: escape_seg_def Let_def)
    with string_body_u [of "byte c" u] ascii(2) show ?thesis by (simp only: v) simp
  next
    case plain
    then have "c \<noteq> CHR 0x22" "c \<noteq> CHR 0x5C" by auto
    moreover have "escape_seg p = [c]" using plain ascii by (auto simp: escape_seg_def Let_def)
    ultimately show ?thesis using plain(2) by (simp add: v string_body_plain)
  qed (simp_all only: v, auto simp: escape_seg_def Let_def ascii esc simple_escape_def byte_eqs)
next
  case (bad c)
  have "hex_digit 15 = CHR ''f''" and "hex_digit 13 = CHR ''d''" by code_simp+
  then have "hex 4 0xFFFD = ''fffd''" by (simp add: hex4)
  with bad string_body_u [of "0xFFFD" u] show ?thesis
    by (simp add: escape_seg_def seg_value_def runeError_def)
next
  case (long r b)
  then show ?thesis
    using string_body_u [of r u] string_body_high [of b u]
    by (auto simp: escape_seg_def seg_value_def Let_def)
qed

lemma seg_value_reads:
  assumes "p \<in> set (segs s)"
  shows "reads_as (seg_value p) (fst p)"
  using assms
proof (cases rule: seg_cases)
  case (ascii c)
  then show ?thesis by (simp add: seg_value_def reads_as_def decode_rune_ascii)
next
  case (bad c)
  then show ?thesis by (simp add: seg_value_def reads_as_encode) (simp add: runeError_def)
next
  case (long r b)
  then show ?thesis by (auto simp: seg_value_def valid_rune_def intro!: reads_as_encode)
qed

text \<open>
  Every way of escaping that stands for these bytes: \<^verbatim>\<open>encoding/json\<close> has one for
  \<^verbatim>\<open>json.Marshal\<close>, others are in use elsewhere.
\<close>

definition utf8 :: "string \<Rightarrow> string" where
  "utf8 s = encode (runes s)"

text \<open>ASCII text is its own UTF-8.\<close>

lemma utf8_ascii: "list_all (\<lambda>c. byte c < 0x80) s \<Longrightarrow> utf8 s = s"
  by (induction s) (simp_all add: utf8_def runes_def segs_ascii encode_def encode_rune_def)

lemma utf8_Nil [simp]: "utf8 [] = []"
  by (simp add: utf8_ascii)

definition quoted :: "(rune \<times> string \<Rightarrow> string) \<Rightarrow> string \<Rightarrow> string" where
  "quoted esc s = CHR 0x22 # concat (map esc (segs s)) @ [CHR 0x22]"

lemma encode_string_quoted: "encode_string = quoted escape_seg"
  by (intro ext) (simp add: encode_string_def quoted_def)

text \<open>\<open>q\<close> is a string literal for \<open>k\<close>.\<close>

definition reads_string :: "string \<Rightarrow> string \<Rightarrow> bool" where
  "reads_string q k \<longleftrightarrow> (\<exists>t. q = CHR 0x22 # t \<and> (\<forall>rest. parse_string (t @ rest) = Some (k, rest)))"

locale string_escape =
  fixes esc :: "rune \<times> string \<Rightarrow> string"
  assumes esc_value: "p \<in> set (segs s) \<Longrightarrow>
    string_body (esc p @ u) = map_option (apfst ((@) (seg_value p))) (string_body u)"
begin

lemma body_escapes:
  "set ps \<subseteq> set (segs s) \<Longrightarrow>
     string_body (concat (map esc ps) @ CHR 0x22 # rest) = Some (concat (map seg_value ps), rest)"
proof (induction ps)
  case Nil
  show ?case by (simp add: string_body.simps)
next
  case (Cons p ps)
  then show ?case by (simp add: esc_value [of p s])
qed

lemma reads_quoted: "reads_string (quoted esc s) (utf8 s)"
proof -
  have "runes (concat (map seg_value (segs s))) = runes s"
    using runes_pieces [of seg_value "segs s"] seg_value_reads [of _ s]
    by (simp add: list_all_iff runes_def)
  then show ?thesis
    by (simp add: reads_string_def quoted_def parse_string_def body_escapes [of "segs s" s] utf8_def)
qed

end

interpretation json: string_escape escape_seg
  by unfold_locales (rule string_body_escape)

section \<open>Values\<close>

text \<open>The value that the text of a value decodes to.\<close>

fun utf8_json :: "json \<Rightarrow> json" where
  "utf8_json (JStr s) = JStr (utf8 s)"
| "utf8_json (JArr js) = JArr (map utf8_json js)"
| "utf8_json (JObj ms) = JObj (map (\<lambda>m. (utf8 (fst m), utf8_json (snd m))) ms)"
| "utf8_json j = j"

fun depth :: "json \<Rightarrow> int" where
  "depth (JArr js) = 1 + foldr (\<lambda>j. max (depth j)) js 0"
| "depth (JObj ms) = 1 + foldr (\<lambda>m. max (depth (snd m))) ms 0"
| "depth _ = 0"

lemma depth_utf8 [simp]: "depth (utf8_json j) = depth j"
proof (induction j)
  case (JArr js)
  then have "foldr (\<lambda>j. max (depth j)) (map utf8_json js) 0 = foldr (\<lambda>j. max (depth j)) js 0"
    by (induction js) simp_all
  then show ?case by simp
next
  case (JObj ms)
  then have "\<forall>m \<in> set ms. depth (utf8_json (snd m)) = depth (snd m)" by auto
  then have "foldr (\<lambda>m. max (depth (snd m))) (map (\<lambda>m. (utf8 (fst m), utf8_json (snd m))) ms) 0 =
      foldr (\<lambda>m. max (depth (snd m))) ms 0"
    by (induction ms) simp_all
  then show ?case by simp
qed simp_all

text \<open>Number literals follow the grammar.\<close>

fun nums_ok :: "json \<Rightarrow> bool" where
  "nums_ok (JNum l) \<longleftrightarrow> num_ok l \<and> list_all is_num_char l"
| "nums_ok (JArr js) \<longleftrightarrow> list_all nums_ok js"
| "nums_ok (JObj ms) \<longleftrightarrow> list_all (\<lambda>m. nums_ok (snd m)) ms"
| "nums_ok _ \<longleftrightarrow> True"

definition ends_number :: "string \<Rightarrow> bool" where
  "ends_number rest \<longleftrightarrow> takeWhile is_num_char rest = []"

definition starts_value :: "string \<Rightarrow> bool" where
  "starts_value t \<longleftrightarrow> t \<noteq> [] \<and> \<not> is_ws (hd t) \<and> hd t \<noteq> CHR '']''"

text \<open>\<open>t\<close> is decoded to \<open>j\<close>, at every depth and before every text that can follow.\<close>

definition reads_as_json :: "string \<Rightarrow> json \<Rightarrow> bool" where
  "reads_as_json t j \<longleftrightarrow> starts_value t \<and>
     (\<forall>n d rest. 2 * length t \<le> n \<and> d + depth j \<le> max_nesting \<and> ends_number rest \<longrightarrow>
        jvalue n d (t @ rest) = Some (j, rest))"

lemma readsD:
  "reads_as_json t j \<Longrightarrow> 2 * length t \<le> n \<Longrightarrow> d + depth j \<le> max_nesting \<Longrightarrow> ends_number rest \<Longrightarrow>
     jvalue n d (t @ rest) = Some (j, rest)"
  by (simp add: reads_as_json_def)

lemma readsI:
  assumes "starts_value t"
    and "\<And>n d rest. 2 * length t \<le> Suc n \<Longrightarrow> d + depth j \<le> max_nesting \<Longrightarrow> ends_number rest \<Longrightarrow>
      jvalue (Suc n) d (t @ rest) = Some (j, rest)"
  shows "reads_as_json t j"
proof -
  have "jvalue n d (t @ rest) = Some (j, rest)"
    if "2 * length t \<le> n" "d + depth j \<le> max_nesting" "ends_number rest" for n d rest
    using that assms by (cases n) (simp_all add: starts_value_def)
  with assms(1) show ?thesis by (simp add: reads_as_json_def)
qed

lemma delimiters [simp]:
  "ends_number []" "ends_number (CHR '','' # t)" "ends_number (CHR '']'' # t)" "ends_number (CHR ''}'' # t)"
  by (simp_all add: ends_number_def is_num_char_def)

lemma skip_ws_here:
  "skip_ws (CHR '','' # t) = CHR '','' # t" "skip_ws (CHR '']'' # t) = CHR '']'' # t"
  "skip_ws (CHR ''}'' # t) = CHR ''}'' # t" "skip_ws (CHR '':'' # t) = CHR '':'' # t"
  "skip_ws (CHR ''{'' # t) = CHR ''{'' # t" "skip_ws (CHR ''['' # t) = CHR ''['' # t"
  "skip_ws (CHR 0x22 # t) = CHR 0x22 # t"
  by (simp_all add: skip_ws_def is_ws_def)

section \<open>Scalars\<close>

lemma reads_literal:
  "reads_as_json ''null'' JNull" "reads_as_json (if b then ''true'' else ''false'') (JBool b)"
  by (rule readsI; simp add: starts_value_def skip_ws_def is_ws_def)+

lemma reads_JStr:
  assumes "reads_string q k"
  shows "reads_as_json q (JStr k)"
proof -
  obtain t where t: "q = CHR 0x22 # t" "\<And>rest. parse_string (t @ rest) = Some (k, rest)"
    using assms by (auto simp: reads_string_def)
  show ?thesis by (rule readsI) (simp_all add: t starts_value_def is_ws_def skip_ws_here)
qed

lemma num_char_start:
  assumes "is_num_char c"
  shows "\<not> is_ws c" and "c \<notin> {CHR ''{'', CHR ''['', CHR 0x22, CHR '']'', CHR ''t'', CHR ''f'', CHR ''n''}"
  using assms by (auto simp: is_num_char_def is_ws_def)

lemma num_ok_nonempty: "num_ok l \<Longrightarrow> l \<noteq> []"
  by (auto simp: num_ok_def)

lemma reads_JNum:
  assumes "nums_ok (JNum l)"
  shows "reads_as_json l (JNum l)"
proof -
  obtain c t where l: "l = c # t" using assms by (cases l) (auto dest: num_ok_nonempty)
  have c: "is_num_char c" and all: "list_all is_num_char l" using assms l by simp_all
  show ?thesis
  proof (rule readsI)
    show "starts_value l" using num_char_start [OF c] by (simp add: l starts_value_def)
    fix n d rest
    assume "ends_number rest"
    then have 1: "takeWhile is_num_char (l @ rest) = l" "dropWhile is_num_char (l @ rest) = rest"
      using all by (auto simp: ends_number_def list_all_iff takeWhile_append dropWhile_append
          takeWhile_eq_Nil_iff dropWhile_eq_self_iff)
    have "skip_ws (c # t @ rest) = c # t @ rest" using num_char_start(1) [OF c] by (simp add: skip_ws_def)
    then show "jvalue (Suc n) d (l @ rest) = Some (JNum l, rest)"
      using 1 assms num_char_start(2) [OF c] by (simp add: l del: takeWhile.simps dropWhile.simps)
  qed
qed

section \<open>Arrays and objects\<close>

lemma jelements_commas:
  assumes "list_all2 reads_as_json ts js" and "js \<noteq> []" and "\<forall>j \<in> set js. d + depth j \<le> max_nesting"
    and "2 * length (commas ts) + 1 \<le> n"
  shows "jelements n d (commas ts @ CHR '']'' # rest) = Some (js, rest)"
  using assms
proof (induction arbitrary: n rule: list_all2_induct)
  case Nil
  then show ?case by simp
next
  case (Cons t ts j js)
  then obtain n' where n: "n = Suc n'" by (cases n) auto
  show ?case
  proof (cases ts)
    case Nil
    then have js: "js = []" using Cons.hyps(2) by simp
    have "jvalue n' d (t @ CHR '']'' # rest) = Some (j, CHR '']'' # rest)"
      using Cons.prems n Nil by (intro readsD [OF Cons.hyps(1)]) auto
    with Nil js show ?thesis by (simp add: n skip_ws_here)
  next
    case (Cons t' ts')
    let ?more = "commas ts @ CHR '']'' # rest"
    have "js \<noteq> []" using Cons Cons.hyps(2) by auto
    then have "jelements n' d ?more = Some (js, rest)"
      using Cons.prems n Cons by (intro Cons.IH) auto
    moreover have "jvalue n' d (t @ CHR '','' # ?more) = Some (j, CHR '','' # ?more)"
      using Cons.prems n Cons by (intro readsD [OF Cons.hyps(1)]) auto
    ultimately show ?thesis by (simp add: n Cons skip_ws_here)
  qed
qed

text \<open>A member is the literal of its name and the text of its value.\<close>

definition member_text :: "string \<times> string \<Rightarrow> string" where
  "member_text qt = fst qt @ CHR '':'' # snd qt"

definition reads_member :: "string \<times> string \<Rightarrow> string \<times> json \<Rightarrow> bool" where
  "reads_member qt m \<longleftrightarrow> reads_string (fst qt) (fst m) \<and> reads_as_json (snd qt) (snd m)"

lemma jmembers_member:
  assumes "reads_member qt m" and "d + depth (snd m) \<le> max_nesting" and "2 * length (member_text qt) \<le> n"
    and "ends_number rest"
  shows "jmembers (Suc n) d (member_text qt @ rest) =
     (case skip_ws rest of
        [] \<Rightarrow> None
      | c # cs \<Rightarrow>
          if c = CHR ''}'' then Some ([m], cs)
          else if c = CHR '','' then map_option (apfst ((#) m)) (jmembers n d cs)
          else None)"
proof -
  let ?s = "CHR '':'' # snd qt @ rest"
  obtain t where t: "fst qt = CHR 0x22 # t" "parse_string (t @ ?s) = Some (fst m, ?s)"
    using assms(1) by (auto simp: reads_member_def reads_string_def)
  have "jvalue n d (snd qt @ rest) = Some (snd m, rest)"
    using assms by (intro readsD) (simp_all add: reads_member_def member_text_def)
  with t show ?thesis by (cases m) (simp add: member_text_def skip_ws_here cong: list.case_cong if_cong)
qed

lemma jmembers_commas:
  assumes "list_all2 reads_member qts ms" and "ms \<noteq> []"
    and "\<forall>m \<in> set ms. d + depth (snd m) \<le> max_nesting"
    and "2 * length (commas (map member_text qts)) + 1 \<le> n"
  shows "jmembers n d (commas (map member_text qts) @ CHR ''}'' # rest) = Some (ms, rest)"
  using assms
proof (induction arbitrary: n rule: list_all2_induct)
  case Nil
  then show ?case by simp
next
  case (Cons qt qts m ms)
  then obtain n' where n: "n = Suc n'" by (cases n) auto
  show ?case
  proof (cases qts)
    case Nil
    then have "ms = []" using Cons.hyps(2) by simp
    with Nil Cons.prems n jmembers_member [OF Cons.hyps(1), of d n' "CHR ''}'' # rest"]
    show ?thesis by (simp add: skip_ws_here del: jmembers.simps)
  next
    case (Cons qt' qts')
    let ?more = "commas (map member_text qts) @ CHR ''}'' # rest"
    have "ms \<noteq> []" using Cons Cons.hyps(2) by auto
    then have "jmembers n' d ?more = Some (ms, rest)"
      using Cons.prems n Cons by (intro Cons.IH) auto
    with Cons Cons.prems n jmembers_member [OF Cons.hyps(1), of d n' "CHR '','' # ?more"]
    show ?thesis by (simp add: skip_ws_here del: jmembers.simps)
  qed
qed

lemma depth_JArr: "d + depth (JArr js) \<le> m \<Longrightarrow> j \<in> set js \<Longrightarrow> d + 1 + depth j \<le> m"
  by (induction js) (auto simp: max_def split: if_splits)

lemma depth_JObj: "d + depth (JObj ms) \<le> m \<Longrightarrow> p \<in> set ms \<Longrightarrow> d + 1 + depth (snd p) \<le> m"
  by (induction ms) (auto simp: max_def split: if_splits)

lemma depth_below: "d + depth (JArr js) \<le> m \<Longrightarrow> d < m" "d + depth (JObj ms) \<le> m \<Longrightarrow> d < m"
proof -
  have "0 \<le> foldr (\<lambda>j. max (depth j)) js (0::int)" "0 \<le> foldr (\<lambda>m. max (depth (snd m))) ms (0::int)"
    by (induction js; simp) (induction ms; simp)
  then show "d + depth (JArr js) \<le> m \<Longrightarrow> d < m" "d + depth (JObj ms) \<le> m \<Longrightarrow> d < m" by simp_all
qed

lemma commas_hd:
  assumes "ts \<noteq> []" and "hd ts \<noteq> []"
  shows "\<exists>u. commas ts = hd (hd ts) # u"
  using assms by (cases ts rule: commas.cases; cases "hd ts") auto

lemma reads_JArr:
  assumes "list_all2 reads_as_json ts js"
  shows "reads_as_json (CHR ''['' # commas ts @ '']'') (JArr js)"
proof (rule readsI)
  show "starts_value (CHR ''['' # commas ts @ '']'')" by (simp add: starts_value_def is_ws_def)
  fix n d rest
  assume n: "2 * length (CHR ''['' # commas ts @ '']'') \<le> Suc n" and d: "d + depth (JArr js) \<le> max_nesting"
  have d': "\<not> max_nesting \<le> d" using depth_below(1) [OF d] by simp
  show "jvalue (Suc n) d ((CHR ''['' # commas ts @ '']'') @ rest) = Some (JArr js, rest)"
  proof (cases ts)
    case Nil
    with assms d' show ?thesis by (simp add: skip_ws_here)
  next
    case (Cons t ts')
    with assms have t: "starts_value t" by (auto simp: list_all2_Cons1 reads_as_json_def)
    then obtain u where u: "commas ts = hd t # u"
      using commas_hd [of ts] Cons by (auto simp: starts_value_def)
    have "jelements n (d + 1) (commas ts @ CHR '']'' # rest) = Some (js, rest)"
      using assms Cons n depth_JArr [OF d] by (intro jelements_commas) auto
    moreover have "skip_ws (hd t # u @ CHR '']'' # rest) = hd t # u @ CHR '']'' # rest"
      using t by (simp add: skip_ws_def starts_value_def)
    ultimately show ?thesis using d' t by (simp add: skip_ws_here u starts_value_def)
  qed
qed

lemma reads_JObj:
  assumes "list_all2 reads_member qts ms"
  shows "reads_as_json (CHR ''{'' # commas (map member_text qts) @ ''}'') (JObj ms)"
proof (rule readsI)
  show "starts_value (CHR ''{'' # commas (map member_text qts) @ ''}'')"
    by (simp add: starts_value_def is_ws_def)
  fix n d rest
  assume n: "2 * length (CHR ''{'' # commas (map member_text qts) @ ''}'') \<le> Suc n"
    and d: "d + depth (JObj ms) \<le> max_nesting"
  have d': "\<not> max_nesting \<le> d" using depth_below(2) [OF d] by simp
  show "jvalue (Suc n) d ((CHR ''{'' # commas (map member_text qts) @ ''}'') @ rest) = Some (JObj ms, rest)"
  proof (cases qts)
    case Nil
    with assms d' show ?thesis by (simp add: skip_ws_here)
  next
    case (Cons qt qts')
    with assms obtain t where t: "member_text qt = CHR 0x22 # t"
      by (auto simp: list_all2_Cons1 reads_member_def reads_string_def member_text_def)
    then obtain u where u: "commas (map member_text qts) = CHR 0x22 # u"
      using commas_hd [of "map member_text qts"] Cons by auto
    have "jmembers n (d + 1) (commas (map member_text qts) @ CHR ''}'' # rest) = Some (ms, rest)"
      using assms Cons n depth_JObj [OF d] by (intro jmembers_commas) auto
    then show ?thesis using d' by (simp add: skip_ws_here u)
  qed
qed

section \<open>Whole texts\<close>

lemma json_parse_reads:
  assumes "reads_as_json t j" and "depth j \<le> max_nesting"
  shows "json_parse t = Some j"
proof -
  have "jvalue (2 * length t + 2) 0 (t @ []) = Some (j, [])"
    using assms by (intro readsD) simp_all
  then show ?thesis by (simp add: json_parse_def skip_ws_def del: jvalue.simps)
qed

lemma json_text_reads: "nums_ok j \<Longrightarrow> reads_as_json (json_text j) (utf8_json j)"
proof (induction j)
  case (JStr s)
  show ?case using reads_JStr [OF json.reads_quoted] by (simp add: encode_string_quoted)
next
  case (JArr js)
  then have "list_all2 reads_as_json (map json_text js) (map utf8_json js)"
    by (simp add: list_all2_map1 list_all2_map2 list_all_iff list_all2_same)
  from reads_JArr [OF this] show ?case by simp
next
  case (JObj ms)
  let ?qts = "map (\<lambda>m. (encode_string (fst m), json_text (snd m))) ms"
  have "list_all2 reads_member ?qts (map (\<lambda>m. (utf8 (fst m), utf8_json (snd m))) ms)"
    using JObj json.reads_quoted
    by (auto simp: list_all2_map1 list_all2_map2 list_all_iff list_all2_same reads_member_def
        encode_string_quoted)
  from reads_JObj [OF this] show ?case by (simp add: member_text_def comp_def)
qed (simp_all add: reads_literal [simplified] reads_JNum)

text \<open>Everything \<^verbatim>\<open>json.Marshal\<close> writes is read back, within the nesting limit.\<close>

lemma json_parse_text:
  "nums_ok j \<Longrightarrow> depth j \<le> max_nesting \<Longrightarrow> json_parse (json_text j) = Some (utf8_json j)"
  by (intro json_parse_reads json_text_reads) simp_all

section \<open>Numbers\<close>

lemma num_char_digit: "48 \<le> byte c \<Longrightarrow> byte c \<le> 57 \<Longrightarrow> is_num_char c"
  by (simp add: is_num_char_def)

lemma show_nat_leading: "0 < n \<Longrightarrow> take 1 (show_nat n) \<noteq> ''0''"
proof (induction n rule: show_nat.induct)
  case (1 n)
  have "byte (char_of (48 + n)) = 48 + n" if "n < 10" using that by (intro byte_char_of) simp
  moreover have "byte (CHR ''0'') = 48" by simp
  ultimately have "char_of (48 + n) \<noteq> CHR ''0''" if "n < 10" using that 1(2) by fastforce
  moreover obtain c cs where "show_nat (n div 10) = c # cs" by (cases "show_nat (n div 10)") auto
  ultimately show ?case using 1 by (subst show_nat.simps) simp
qed

lemma num_ok_show_nat: "num_ok (show_nat n)" "num_ok (CHR ''-'' # show_nat n)"
proof -
  have digits: "list_all is_digit (show_nat n)"
    by (auto simp: list_all_iff is_digit_def dest: show_nat_digits)
  then have all: "takeWhile is_digit (show_nat n) = show_nat n" "dropWhile is_digit (show_nat n) = []"
    by (simp_all add: list_all_iff takeWhile_eq_all_conv)
  obtain c cs where c: "show_nat n = c # cs" by (cases "show_nat n") auto
  then have minus: "c \<noteq> CHR ''-''" using show_nat_digits [of c n] by auto
  have zero: "take 1 (show_nat n) = ''0'' \<Longrightarrow> show_nat n = ''0''"
    using show_nat_leading [of n] by (cases "n = 0") (auto simp: show_nat.simps [of 0])
  have end_ok: "num_frac_ok []" by (simp add: num_frac_ok_def num_exp_ok_def)
  show "num_ok (CHR ''-'' # show_nat n)"
    using zero end_ok by (cases "take 1 (show_nat n) = ''0''") (simp_all add: num_ok_def Let_def all)
  have "take 1 (show_nat n) \<noteq> ''-''" using c minus by simp
  then show "num_ok (show_nat n)"
    using zero end_ok by (cases "take 1 (show_nat n) = ''0''") (simp_all add: num_ok_def Let_def all)
qed

lemma nums_ok_itoa [simp]: "nums_ok (JNum (itoa i))"
  using show_nat_digits by (auto simp: itoa_def num_ok_show_nat list_all_iff num_char_digit is_num_char_def)

section \<open>The fuel is enough\<close>

text \<open>Every part of the grammar consumes a byte.\<close>

lemma length_skip_ws: "length (skip_ws s) \<le> length s"
  by (simp add: skip_ws_def length_dropWhile_le)

lemma string_body_consumes: "string_body s = Some (b, r) \<Longrightarrow> length r < length s"
proof (induction s arbitrary: b r rule: string_body.induct)
  case 1
  then show ?case by simp
next
  case (2 c cs)
  then show ?case
    by (fastforce simp: string_body.simps(2) Let_def split: if_splits option.splits list.splits)
qed

lemma parse_string_consumes: "parse_string s = Some (b, r) \<Longrightarrow> length r < length s"
  by (auto simp: parse_string_def dest: string_body_consumes)

lemma skip_ws_Cons: "skip_ws s = c # cs \<Longrightarrow> length cs < length s"
  using length_skip_ws [of s] by simp

lemma parse_consumes:
  "jvalue n d s = Some (v, r) \<Longrightarrow> length r < length s"
  "jelements n d s = Some (vs, r) \<Longrightarrow> length r < length s"
  "jmembers n d s = Some (ms, r) \<Longrightarrow> length r < length s"
proof (induction n d s and n d s and n d s arbitrary: v r and vs r and ms r
    rule: jvalue_jelements_jmembers.induct)
  case (2 n d s)
  obtain c cs where s: "skip_ws s = c # cs" using 2(3) by (cases "skip_ws s") simp_all
  have num: "length r \<le> length cs"
    if "num_ok (takeWhile is_num_char (c # cs))" "r = dropWhile is_num_char (c # cs)"
    using that num_ok_nonempty length_dropWhile_le [of is_num_char cs] by (auto split: if_splits)
  have "length r \<le> length cs"
    using 2(3) 2(1,2) [OF s] num length_skip_ws [of cs]
    by (auto simp: s Let_def less_imp_le dest!: parse_string_consumes split: if_splits)
  with skip_ws_Cons [OF s] show ?case by simp
next
  case (4 n d s)
  then obtain v s1 where v: "jvalue n d s = Some (v, s1)" by (auto split: option.splits)
  with 4(3) obtain c cs where c: "skip_ws s1 = c # cs" by (cases "skip_ws s1") simp_all
  from 4(3) 4(2) [OF v refl c] have "length r \<le> length cs"
    by (auto simp: v c less_imp_le split: if_splits)
  with skip_ws_Cons [OF c] 4(1) [OF v] show ?case by simp
next
  case (6 n d s)
  then obtain s0 where s: "skip_ws s = CHR 0x22 # s0" by (auto split: list.splits if_splits)
  with 6(3) obtain k s1 where k: "parse_string s0 = Some (k, s1)" by (auto split: option.splits)
  with 6(3) s have colon: "take 1 (skip_ws s1) = '':''" by (auto split: if_splits)
  with 6(3) s k obtain v s2 where v: "jvalue n d (drop 1 (skip_ws s1)) = Some (v, s2)"
    by (auto split: option.splits)
  with 6(3) s k colon obtain c cs where c: "skip_ws s2 = c # cs" by (cases "skip_ws s2") simp_all
  have "length s2 < length (drop 1 (skip_ws s1))"
    using 6(1) v s k colon by simp
  moreover have "length r \<le> length cs"
    using 6(3) 6(2) s k colon v c by (auto simp: less_imp_le split: if_splits)
  ultimately show ?case
    using skip_ws_Cons [OF s] parse_string_consumes [OF k] length_skip_ws [of s1] skip_ws_Cons [OF c]
    by simp
qed simp_all

text \<open>Beyond \<open>2 * length + 1\<close> more fuel changes nothing.\<close>

text \<open>Two amounts of fuel that agree on all shorter texts agree.\<close>

lemma jvalue_step:
  assumes "\<And>d cs. length cs < length s \<Longrightarrow> jelements m d cs = jelements n d cs"
    and "\<And>d cs. length cs < length s \<Longrightarrow> jmembers m d cs = jmembers n d cs"
  shows "jvalue (Suc m) d s = jvalue (Suc n) d s"
proof (cases "skip_ws s")
  case Nil
  then show ?thesis by simp
next
  case (Cons c cs)
  then have "length cs < length s" by (rule skip_ws_Cons)
  then show ?thesis
    unfolding jvalue.simps(2) Cons list.case by (simp only: assms)
qed

lemma jelements_step:
  assumes v: "jvalue m d s = jvalue n d s"
    and es: "\<And>cs. length cs < length s \<Longrightarrow> jelements m d cs = jelements n d cs"
  shows "jelements (Suc m) d s = jelements (Suc n) d s"
proof (cases "\<exists>x s1 c cs. jvalue n d s = Some (x, s1) \<and> skip_ws s1 = c # cs")
  case False
  then show ?thesis
    unfolding jelements.simps(2) v by (auto split: list.split option.split simp del: jvalue.simps)
next
  case True
  then obtain x s1 c cs where x: "jvalue n d s = Some (x, s1)" and c: "skip_ws s1 = c # cs" by blast
  have "length cs < length s" using parse_consumes(1) [OF x] skip_ws_Cons [OF c] by simp
  then show ?thesis unfolding jelements.simps(2) v x c option.case prod.case list.case by (simp only: es)
qed

lemma jmembers_step:
  assumes vs: "\<And>t. length t < length s \<Longrightarrow> jvalue m d t = jvalue n d t"
    and ms: "\<And>cs. length cs < length s \<Longrightarrow> jmembers m d cs = jmembers n d cs"
  shows "jmembers (Suc m) d s = jmembers (Suc n) d s"
proof (cases "\<exists>s0 k s1. skip_ws s = CHR 0x22 # s0 \<and> parse_string s0 = Some (k, s1)")
  case False
  then show ?thesis unfolding jmembers.simps(2) by (auto split: list.split option.split)
next
  case True
  then obtain s0 k s1 where s: "skip_ws s = CHR 0x22 # s0" and k: "parse_string s0 = Some (k, s1)"
    by blast
  let ?t = "drop 1 (skip_ws s1)"
  have len: "length ?t < length s"
    using skip_ws_Cons [OF s] parse_string_consumes [OF k] length_skip_ws [of s1] by simp
  note v = vs [OF len]
  show ?thesis
  proof (cases "\<exists>x s2 c cs. jvalue n d ?t = Some (x, s2) \<and> skip_ws s2 = c # cs")
    case False
    then show ?thesis
      unfolding jmembers.simps(2) s k v list.case option.case prod.case
      by (auto split: list.split option.split simp del: jvalue.simps)
  next
    case True
    then obtain x s2 c cs where x: "jvalue n d ?t = Some (x, s2)" and c: "skip_ws s2 = c # cs" by blast
    have "length cs < length s" using len parse_consumes(1) [OF x] skip_ws_Cons [OF c] by simp
    then show ?thesis
      unfolding jmembers.simps(2) s k v x c list.case option.case prod.case by (simp only: ms)
  qed
qed

lemma more_fuel:
  "(2 * length s + 1 \<le> n \<longrightarrow> jvalue (Suc n) d s = jvalue n d s)
   \<and> (2 * length s + 2 \<le> n \<longrightarrow> jelements (Suc n) d s = jelements n d s)
   \<and> (2 * length s + 2 \<le> n \<longrightarrow> jmembers (Suc n) d s = jmembers n d s)"
proof (induction n arbitrary: d s)
  case 0
  show ?case by simp
next
  case (Suc n)
  then show ?case
    by (intro conjI impI jvalue_step jelements_step jmembers_step; simp del: jvalue.simps jelements.simps jmembers.simps)
qed

lemma json_fuel:
  assumes "2 * length s + 2 \<le> n"
  shows "jvalue n d s = jvalue (2 * length s + 2) d s"
  using assms by (induction n rule: dec_induct) (simp_all add: more_fuel del: jvalue.simps)

end
