(* ===== verification/Cf_Payload.thy ===== *)
theory Cf_Payload
  imports Email_Message Json_Roundtrip
begin

text \<open>
  \<^verbatim>\<open>internal/cloudflare/payload.go\<close>: the request body shared by both adapters, as
  the struct the code fills, the JSON value its tags give, and the text that is posted.
\<close>

record addressPayload =
  ap_Address :: string
  ap_Name :: string

text \<open>A nil slice or map and an empty one are the same list; \<^verbatim>\<open>omitempty\<close> drops both.\<close>

record sendPayload =
  sp_From :: addressPayload
  sp_To :: "addressPayload list"
  sp_Cc :: "addressPayload list"
  sp_Bcc :: "addressPayload list"
  sp_ReplyTo :: string
  sp_Subject :: string
  sp_Text :: string
  sp_HTML :: string
  sp_Headers :: "(string \<times> string) list"

definition toAddressPayload :: "address \<Rightarrow> addressPayload" where
  "toAddressPayload a = \<lparr>ap_Address = Addr a, ap_Name = Name a\<rparr>"

definition toAddressPayloads :: "address list \<Rightarrow> addressPayload list" where
  "toAddressPayloads addrs = map toAddressPayload addrs"

definition buildPayload :: "message \<Rightarrow> sendPayload" where
  "buildPayload msg =
     (let p = \<lparr>sp_From = toAddressPayload (From msg), sp_To = toAddressPayloads (To msg),
               sp_Cc = [], sp_Bcc = [], sp_ReplyTo = ReplyTo msg, sp_Subject = Subject msg,
               sp_Text = Text msg, sp_HTML = HTML msg, sp_Headers = []\<rparr>;
          p1 = (if Cc msg \<noteq> [] then p\<lparr>sp_Cc := toAddressPayloads (Cc msg)\<rparr> else p);
          p2 = (if Bcc msg \<noteq> [] then p1\<lparr>sp_Bcc := toAddressPayloads (Bcc msg)\<rparr> else p1)
      in if Headers msg \<noteq> [] then p2\<lparr>sp_Headers := Headers msg\<rparr> else p2)"

section \<open>The JSON value\<close>

definition omit_string :: "string \<Rightarrow> string \<Rightarrow> (string \<times> json) list" where
  "omit_string k s = (if s = [] then [] else [(k, JStr s)])"

definition address_json :: "addressPayload \<Rightarrow> json" where
  "address_json a = JObj ((''address'', JStr (ap_Address a)) # omit_string ''name'' (ap_Name a))"

definition omit_list :: "string \<Rightarrow> addressPayload list \<Rightarrow> (string \<times> json) list" where
  "omit_list k as = (if as = [] then [] else [(k, JArr (map address_json as))])"

definition payload_json :: "sendPayload \<Rightarrow> json" where
  "payload_json p =
     JObj ([(''from'', address_json (sp_From p)), (''to'', JArr (map address_json (sp_To p)))]
       @ omit_list ''cc'' (sp_Cc p) @ omit_list ''bcc'' (sp_Bcc p)
       @ omit_string ''reply_to'' (sp_ReplyTo p)
       @ [(''subject'', JStr (sp_Subject p))]
       @ omit_string ''text'' (sp_Text p) @ omit_string ''html'' (sp_HTML p)
       @ (if sp_Headers p = [] then [] else [(''headers'', JObj (map_members (sp_Headers p)))]))"

text \<open>\<^verbatim>\<open>json.Marshal(buildPayload(msg))\<close>: strings and maps of strings never fail to encode.\<close>

definition marshalPayload :: "sendPayload \<Rightarrow> gerror + string" where
  "marshalPayload p = Inr (json_text (payload_json p))"

section \<open>What the payload carries\<close>

lemma buildPayload_fields [simp]:
  "sp_From (buildPayload m) = toAddressPayload (From m)"
  "sp_To (buildPayload m) = map toAddressPayload (To m)"
  "sp_Cc (buildPayload m) = map toAddressPayload (Cc m)"
  "sp_Bcc (buildPayload m) = map toAddressPayload (Bcc m)"
  "sp_ReplyTo (buildPayload m) = ReplyTo m" "sp_Subject (buildPayload m) = Subject m"
  "sp_Text (buildPayload m) = Text m" "sp_HTML (buildPayload m) = HTML m"
  "sp_Headers (buildPayload m) = Headers m"
  by (simp_all add: buildPayload_def Let_def toAddressPayloads_def)

text \<open>The members of the object, looked up by name: an absent member means the zero value.\<close>

fun obj_get :: "json \<Rightarrow> string \<Rightarrow> json option" where
  "obj_get (JObj ms) k = map_of ms k"
| "obj_get _ k = None"

lemma omit_string_get:
  "map_of (omit_string k s) k' = (if k' = k \<and> s \<noteq> [] then Some (JStr s) else None)"
  by (simp add: omit_string_def)

lemma omit_list_get:
  "map_of (omit_list k as) k' = (if k' = k \<and> as \<noteq> [] then Some (JArr (map address_json as)) else None)"
  by (simp add: omit_list_def)

text \<open>
  What goes on the wire for a message: From, To, Cc and Bcc under the keys
  \<^verbatim>\<open>from\<close>, \<^verbatim>\<open>to\<close>, \<^verbatim>\<open>cc\<close>, \<^verbatim>\<open>bcc\<close> in order and in full, each
  entry with \<^verbatim>\<open>address\<close> and with \<^verbatim>\<open>name\<close> only when it is set; an empty Cc,
  Bcc, reply-to, text, HTML or header map has no member at all, and no other member exists.
\<close>

lemma payload_members:
  "obj_get (payload_json (buildPayload m)) k =
     (if k = ''from'' then Some (address_json (toAddressPayload (From m)))
      else if k = ''to'' then Some (JArr (map (address_json \<circ> toAddressPayload) (To m)))
      else if k = ''cc'' \<and> Cc m \<noteq> [] then Some (JArr (map (address_json \<circ> toAddressPayload) (Cc m)))
      else if k = ''bcc'' \<and> Bcc m \<noteq> [] then Some (JArr (map (address_json \<circ> toAddressPayload) (Bcc m)))
      else if k = ''reply_to'' \<and> ReplyTo m \<noteq> [] then Some (JStr (ReplyTo m))
      else if k = ''subject'' then Some (JStr (Subject m))
      else if k = ''text'' \<and> Text m \<noteq> [] then Some (JStr (Text m))
      else if k = ''html'' \<and> HTML m \<noteq> [] then Some (JStr (HTML m))
      else if k = ''headers'' \<and> Headers m \<noteq> [] then Some (JObj (map_members (Headers m)))
      else None)"
  by (simp add: payload_json_def omit_string_get omit_list_get map_add_def split: option.splits)

section \<open>Reading the payload back\<close>

text \<open>
  The receiver's view: the documented meaning of each member, an absent member being the
  zero value. \<open>utf8_message\<close> is the message with ill-formed UTF-8 replaced in the fields
  that are sent, and with the other fields dropped.
\<close>

fun string_of :: "json option \<Rightarrow> string" where
  "string_of (Some (JStr s)) = s"
| "string_of _ = []"

definition address_of :: "json \<Rightarrow> address" where
  "address_of j = \<lparr>Name = string_of (obj_get j ''name''), Addr = string_of (obj_get j ''address'')\<rparr>"

fun addresses_of :: "json option \<Rightarrow> address list" where
  "addresses_of (Some (JArr js)) = map address_of js"
| "addresses_of _ = []"

fun headers_of :: "json option \<Rightarrow> (string \<times> string) list" where
  "headers_of (Some (JObj ms)) = map (\<lambda>m. (fst m, string_of (Some (snd m)))) ms"
| "headers_of _ = []"

definition message_of :: "json \<Rightarrow> message" where
  "message_of j =
     \<lparr>ID = [], RFCMessageID = [],
      From = (case obj_get j ''from'' of Some a \<Rightarrow> address_of a | None \<Rightarrow> \<lparr>Name = [], Addr = []\<rparr>),
      To = addresses_of (obj_get j ''to''), Cc = addresses_of (obj_get j ''cc''),
      Bcc = addresses_of (obj_get j ''bcc''), ReplyTo = string_of (obj_get j ''reply_to''),
      Subject = string_of (obj_get j ''subject''), Text = string_of (obj_get j ''text''),
      HTML = string_of (obj_get j ''html''), Headers = headers_of (obj_get j ''headers''),
      Size = 0, ReceivedAt = 0\<rparr>"

definition utf8_address :: "address \<Rightarrow> address" where
  "utf8_address a = \<lparr>Name = utf8 (Name a), Addr = utf8 (Addr a)\<rparr>"

definition utf8_message :: "message \<Rightarrow> message" where
  "utf8_message m =
     \<lparr>ID = [], RFCMessageID = [], From = utf8_address (From m), To = map utf8_address (To m),
      Cc = map utf8_address (Cc m), Bcc = map utf8_address (Bcc m), ReplyTo = utf8 (ReplyTo m),
      Subject = utf8 (Subject m), Text = utf8 (Text m), HTML = utf8 (HTML m),
      Headers = map (map_prod utf8 utf8) (sort_key fst (Headers m)), Size = 0, ReceivedAt = 0\<rparr>"

lemma keys_utf8:
  "utf8 ''address'' = ''address''" "utf8 ''name'' = ''name''" "utf8 ''from'' = ''from''"
  "utf8 ''to'' = ''to''" "utf8 ''cc'' = ''cc''" "utf8 ''bcc'' = ''bcc''"
  "utf8 ''reply_to'' = ''reply_to''" "utf8 ''subject'' = ''subject''" "utf8 ''text'' = ''text''"
  "utf8 ''html'' = ''html''" "utf8 ''headers'' = ''headers''"
  by (simp_all add: utf8_ascii)

lemma address_of_utf8:
  "address_of (utf8_json (address_json (toAddressPayload a))) = utf8_address a"
  by (simp add: address_of_def address_json_def toAddressPayload_def omit_string_def utf8_address_def keys_utf8)

lemma headers_of_utf8:
  "headers_of (Some (utf8_json (JObj (map_members hs)))) = map (map_prod utf8 utf8) (sort_key fst hs)"
  by (simp add: map_members_def map_prod_def split_beta)

lemma payload_nums_ok: "nums_ok (payload_json p)"
  by (simp add: payload_json_def address_json_def omit_string_def omit_list_def map_members_def list_all_iff)

lemma depth_le:
  "\<forall>j \<in> set js. depth j \<le> k \<Longrightarrow> 0 \<le> k \<Longrightarrow> depth (JArr js) \<le> k + 1"
  "\<forall>p \<in> set ms. depth (snd p) \<le> k \<Longrightarrow> 0 \<le> k \<Longrightarrow> depth (JObj ms) \<le> k + 1"
  by (induction js; simp) (induction ms; simp)

lemma payload_depth: "depth (payload_json p) \<le> 3"
proof -
  have adr: "depth (address_json a) \<le> 1" for a
    by (simp add: address_json_def omit_string_def)
  have adrs: "depth (JArr (map address_json as)) \<le> 2" for as
    using depth_le(1) [of "map address_json as" 1] adr by simp
  have hdrs: "depth (JObj (map_members hs)) \<le> 1" for hs
    using depth_le(2) [of "map_members hs" 0] by (auto simp: map_members_def simp del: depth.simps(2))
  have "depth (address_json a) \<le> 2" and "depth (JObj (map_members hs)) \<le> 2" for a hs
    using adr [of a] hdrs [of hs] by simp_all
  with adrs have "depth (payload_json p) \<le> 2 + 1"
    unfolding payload_json_def
    by (intro depth_le(2)) (auto simp: omit_string_def omit_list_def simp del: depth.simps(1,2))
  then show ?thesis by simp
qed

lemma payload_reads_back:
  "map_option message_of (json_parse (json_text (payload_json (buildPayload m)))) = Some (utf8_message m)"
proof -
  let ?j = "payload_json (buildPayload m)"
  have "depth ?j \<le> max_nesting" using payload_depth [of "buildPayload m"] by (simp add: max_nesting_def)
  then have "json_parse (json_text ?j) = Some (utf8_json ?j)"
    by (intro json_parse_text payload_nums_ok)
  moreover have "message_of (utf8_json ?j) = utf8_message m"
    unfolding payload_json_def buildPayload_fields
    by (simp add: message_of_def utf8_message_def omit_string_def omit_list_def keys_utf8
        address_of_utf8 headers_of_utf8 [simplified])
  ultimately show ?thesis by simp
qed

text \<open>
  C22. Nothing is lost on the wire: the bytes that are posted for a message, read as JSON,
  give back its addresses, subject, bodies and headers, with ill-formed UTF-8 replaced and the
  headers in the order of their names; quotes, control characters, markup and text that
  contains JSON cannot change what is read.
\<close>

theorem posted_message_reads_back:
  "\<exists>body. marshalPayload (buildPayload m) = Inr body
     \<and> map_option message_of (json_parse body) = Some (utf8_message m)"
  by (simp only: marshalPayload_def sum.inject ex_simps simp_thms payload_reads_back)

end
