(* ===== verification/Cf_Rest.thy ===== *)
theory Cf_Rest
  imports Cf_Send Cf_Payload
begin

text \<open>
  \<^verbatim>\<open>internal/cloudflare/rest.go\<close>: the adapter for Cloudflare's REST API. The optional
  seams of its configuration are options; the defaults behind them are fields of the record
  \<open>runtime\<close>, what the process gets from the standard library and the operating system.
\<close>

section \<open>The runtime behind the seams\<close>

type_synonym 'w client = "int \<Rightarrow> http_request \<Rightarrow> 'w \<Rightarrow> (gerror + http_response) \<times> 'w"
type_synonym 'w sleeper = "int \<Rightarrow> 'w \<Rightarrow> gerror option \<times> 'w"

record 'w runtime =
  rt_ctx_err :: "'w \<Rightarrow> gerror option \<times> 'w"
  rt_wait :: "'w sleeper"                       \<comment> \<open>the \<^verbatim>\<open>select\<close> on the context and a timer\<close>
  rt_now :: "'w \<Rightarrow> int \<times> 'w"                     \<comment> \<open>\<^verbatim>\<open>time.Now\<close>\<close>
  rt_client :: "int \<Rightarrow> 'w client"               \<comment> \<open>\<^verbatim>\<open>&http.Client{Timeout: d}\<close>\<close>
  rt_rand :: "int \<Rightarrow> 'w \<Rightarrow> int \<times> 'w"
  rt_parse_time :: "string \<Rightarrow> int option"
  rt_bad_url :: "string \<Rightarrow> gerror option"       \<comment> \<open>why \<^verbatim>\<open>http.NewRequestWithContext\<close> refuses a URL\<close>
  rt_unicode :: unicode

definition defaultSleep :: "'w runtime \<Rightarrow> 'w sleeper" where
  "defaultSleep rt d w = (if d \<le> 0 then rt_ctx_err rt w else rt_wait rt d w)"

text \<open>A POST with the headers that both adapters set.\<close>

definition post_request :: "'w runtime \<Rightarrow> string \<Rightarrow> string \<Rightarrow> string \<Rightarrow> gerror + http_request" where
  "post_request rt url token body =
     (case rt_bad_url rt url of
        Some err \<Rightarrow> Inl err
      | None \<Rightarrow>
          Inr \<lparr>rq_method = ''POST'', rq_url = url,
               rq_headers = [(''Authorization'', ''Bearer '' @ token),
                             (''Content-Type'', ''application/json'')],
               rq_body = body\<rparr>)"

section \<open>Configuration\<close>

record 'w RESTConfig =
  rc_BaseURL :: string
  rc_AccountID :: string
  rc_APIToken :: string
  rc_Timeout :: int
  rc_MaxRetries :: int
  rc_HTTPClient :: "'w client option"
  rc_Now :: "('w \<Rightarrow> int \<times> 'w) option"
  rc_Sleep :: "'w sleeper option"

record 'w REST =
  baseURL :: string
  accountID :: string
  apiToken :: string
  r_timeout :: int
  r_maxRetries :: int
  r_httpClient :: "'w client"
  r_now :: "'w \<Rightarrow> int \<times> 'w"
  r_sleep :: "'w sleeper"

definition NewREST :: "'w runtime \<Rightarrow> 'w RESTConfig \<Rightarrow> gerror + 'w REST" where
  "NewREST rt cfg =
     (if rc_BaseURL cfg = [] then Inl (ErrNew ''cloudflare: RESTConfig.BaseURL must not be empty'')
      else if rc_AccountID cfg = [] then Inl (ErrNew ''cloudflare: RESTConfig.AccountID must not be empty'')
      else if rc_APIToken cfg = [] then Inl (ErrNew ''cloudflare: RESTConfig.APIToken must not be empty'')
      else if rc_MaxRetries cfg < 0 then Inl (ErrNew ''cloudflare: RESTConfig.MaxRetries must not be negative'')
      else
        (let timeout = (if rc_Timeout cfg \<le> 0 then 30 * second else rc_Timeout cfg)
         in Inr \<lparr>baseURL = rc_BaseURL cfg, accountID = rc_AccountID cfg, apiToken = rc_APIToken cfg,
                 r_timeout = timeout, r_maxRetries = rc_MaxRetries cfg,
                 r_httpClient = (case rc_HTTPClient cfg of Some c \<Rightarrow> c | None \<Rightarrow> rt_client rt timeout),
                 r_now = (case rc_Now cfg of Some n \<Rightarrow> n | None \<Rightarrow> rt_now rt),
                 r_sleep = (case rc_Sleep cfg of Some s \<Rightarrow> s | None \<Rightarrow> defaultSleep rt)\<rparr>))"

section \<open>The response\<close>

record restError =
  re_Code :: int
  re_Message :: string

text \<open>\<open>rr_Result\<close> is the pointer to the anonymous struct with the one field \<^verbatim>\<open>delivered\<close>.\<close>

record restResponse =
  rr_Success :: bool
  rr_Errors :: "restError list"
  rr_Result :: "string list option"

definition restError_field :: "unicode \<Rightarrow> string \<Rightarrow> json \<Rightarrow> restError \<Rightarrow> restError option" where
  "restError_field U k v e =
     (if field_named U ''code'' k then map_option (\<lambda>n. e\<lparr>re_Code := n\<rparr>) (into_int (re_Code e) v)
      else if field_named U ''message'' k then
        map_option (\<lambda>s. e\<lparr>re_Message := s\<rparr>) (into_string (re_Message e) v)
      else Some e)"

definition delivered_field :: "unicode \<Rightarrow> string \<Rightarrow> json \<Rightarrow> string list \<Rightarrow> string list option" where
  "delivered_field U k v ds =
     (if field_named U ''delivered'' k then into_slice (into_string []) v else Some ds)"

fun into_pointer :: "('a \<Rightarrow> json \<Rightarrow> 'a option) \<Rightarrow> 'a \<Rightarrow> 'a option \<Rightarrow> json \<Rightarrow> 'a option option" where
  "into_pointer f zero old JNull = Some None"
| "into_pointer f zero (Some x) j = map_option Some (f x j)"
| "into_pointer f zero None j = map_option Some (f zero j)"

definition restResponse_field :: "unicode \<Rightarrow> string \<Rightarrow> json \<Rightarrow> restResponse \<Rightarrow> restResponse option" where
  "restResponse_field U k v r =
     (if field_named U ''success'' k then map_option (\<lambda>b. r\<lparr>rr_Success := b\<rparr>) (into_bool (rr_Success r) v)
      else if field_named U ''errors'' k then
        map_option (\<lambda>es. r\<lparr>rr_Errors := es\<rparr>)
          (into_slice (into_struct (restError_field U) \<lparr>re_Code = 0, re_Message = []\<rparr>) v)
      else if field_named U ''result'' k then
        map_option (\<lambda>d. r\<lparr>rr_Result := d\<rparr>)
          (into_pointer (into_struct (delivered_field U)) [] (rr_Result r) v)
      else Some r)"

definition zero_restResponse :: restResponse where
  "zero_restResponse = \<lparr>rr_Success = False, rr_Errors = [], rr_Result = None\<rparr>"

definition parseRESTResponse :: "unicode \<Rightarrow> parser" where
  "parseRESTResponse U status body attempts =
     (case unmarshal (restResponse_field U) zero_restResponse body of
        Inl err \<Rightarrow>
          (None, Some (classifyTransport (ErrWrap ''decode response: '' err []) attempts), True)
      | Inr resp \<Rightarrow>
          if rr_Success resp then
            (Some \<lparr>ProviderID = (case rr_Result resp of Some (d # _) \<Rightarrow> d | _ \<Rightarrow> []),
                   ResHTTPStatus = status, ResAttempts = attempts\<rparr>, None, False)
          else
            (let (code, message) =
               (case rr_Errors resp of [] \<Rightarrow> (0, []) | e # _ \<Rightarrow> (re_Code e, re_Message e))
             in (None, Some (classifyHTTP status code message attempts), isRetryable status code)))"

section \<open>\<^verbatim>\<open>Send\<close>\<close>

definition rest_net :: "'w runtime \<Rightarrow> 'w REST \<Rightarrow> 'w net" where
  "rest_net rt c =
     \<lparr>ctx_err = rt_ctx_err rt, http_do = r_httpClient c, sleep_for = r_sleep c, clock = r_now c,
      rand_Int63n = rt_rand rt, parse_http_time = rt_parse_time rt\<rparr>"

definition rest_endpoint :: "'w REST \<Rightarrow> string" where
  "rest_endpoint c = baseURL c @ ''/accounts/'' @ accountID c @ ''/email/sending/send''"

definition REST_Send :: "'w runtime \<Rightarrow> 'w REST \<Rightarrow> 'w send_fun" where
  "REST_Send rt c msg w =
     (case marshalPayload (buildPayload msg) of
        Inl err \<Rightarrow>
          ((None, Some (ErrDelivery (classifyTransport (ErrWrap ''encode request: '' err []) 0))), w)
      | Inr payload \<Rightarrow>
          sendLoop (rest_net rt c) (r_timeout c) (r_maxRetries c) payload
            (post_request rt (rest_endpoint c) (apiToken c)) (parseRESTResponse (rt_unicode rt)) 1 None w)"

section \<open>The adapter meets its contracts\<close>

lemma parseRESTResponse_result:
  assumes "parseRESTResponse U st body a = (r, None, rt)"
  shows "\<exists>res. r = Some res \<and> ResAttempts res = a \<and> ResHTTPStatus res = st"
  using assms by (auto simp: parseRESTResponse_def split: sum.splits if_splits prod.splits)

lemma parseRESTResponse_error:
  assumes "parseRESTResponse U st body a = (r, Some d, rt)"
  shows "well_classified d \<and> Attempts d = a \<and> (rt \<longrightarrow> Temporary d)"
  using assms by (auto simp: parseRESTResponse_def classifyHTTP_ok classifyTransport_ok
      intro: isRetryable_Temporary split: sum.splits if_splits prod.splits)

lemma parseRESTResponse_decides:
  assumes "parseRESTResponse U st body a = (r, oe, rt)" and "parseRESTResponse U st body a' = (r', oe', rt')"
  shows "oe = None \<longleftrightarrow> oe' = None"
  using assms by (auto simp: parseRESTResponse_def split: sum.splits if_splits prod.splits)

interpretation rest: deciding_parser "parseRESTResponse U" for U
  by unfold_locales (erule parseRESTResponse_result, erule parseRESTResponse_error,
    erule (1) parseRESTResponse_decides)

lemma REST_Send_loop:
  "REST_Send rt c msg w =
     sendLoop (rest_net rt c) (r_timeout c) (r_maxRetries c) (json_text (payload_json (buildPayload msg)))
       (post_request rt (rest_endpoint c) (apiToken c)) (parseRESTResponse (rt_unicode rt)) 1 None w"
  by (simp add: REST_Send_def marshalPayload_def)

lemma REST_Send_outcome:
  "(\<exists>res w'. REST_Send rt c msg w = ((Some res, None), w')
      \<and> 1 \<le> ResAttempts res \<and> ResAttempts res \<le> max 1 (r_maxRetries c + 1)) \<or>
   (\<exists>d w'. REST_Send rt c msg w = ((None, Some (ErrDelivery d)), w')
      \<and> well_classified d \<and> 0 \<le> Attempts d \<and> Attempts d \<le> max 1 (r_maxRetries c + 1))"
  unfolding REST_Send_loop by (rule rest.send_outcome)

interpretation rest_sender: sender "REST_Send rt c" for rt c
proof
  show "r \<noteq> None" if "REST_Send rt c m w = ((r, None), w')" for m w r w'
    using REST_Send_outcome [of rt c m w] that by auto
  show "\<exists>d. AsDeliveryError e = Some d \<and> well_classified d"
    if "REST_Send rt c m w = ((r, Some e), w')" for m w r e w'
    using REST_Send_outcome [of rt c m w] that by auto
qed

section \<open>Properties\<close>

lemma NewREST_cases:
  assumes "NewREST rt cfg = Inr c"
  shows "rc_BaseURL cfg \<noteq> [] \<and> rc_AccountID cfg \<noteq> [] \<and> rc_APIToken cfg \<noteq> [] \<and> 0 \<le> rc_MaxRetries cfg
    \<and> baseURL c = rc_BaseURL cfg \<and> accountID c = rc_AccountID cfg \<and> apiToken c = rc_APIToken cfg
    \<and> r_maxRetries c = rc_MaxRetries cfg \<and> 0 < r_timeout c
    \<and> (0 < rc_Timeout cfg \<longrightarrow> r_timeout c = rc_Timeout cfg)"
  using assms by (auto simp: NewREST_def Let_def second_def split: if_splits)

text \<open>A scripted world for concrete runs: the replies to come, and what was done so far.\<close>

record script =
  replies :: "(gerror + http_response) list"
  sent :: int
  slept :: "int list"

definition script_client :: "script client" where
  "script_client t rq w =
     (case replies w of
        [] \<Rightarrow> (Inl (ErrNew ''no reply''), w\<lparr>sent := sent w + 1\<rparr>)
      | r # rs \<Rightarrow> (r, w\<lparr>replies := rs, sent := sent w + 1\<rparr>))"

definition script_runtime :: "script runtime" where
  "script_runtime =
     \<lparr>rt_ctx_err = (\<lambda>w. (None, w)), rt_wait = (\<lambda>d w. (None, w\<lparr>slept := slept w @ [d]\<rparr>)),
      rt_now = (\<lambda>w. (0, w)), rt_client = (\<lambda>_. script_client), rt_rand = (\<lambda>n w. (n - 1, w)),
      rt_parse_time = (\<lambda>_. None), rt_bad_url = (\<lambda>_. None), rt_unicode = ascii_tables\<rparr>"

definition script_reply :: "int \<Rightarrow> string \<Rightarrow> gerror + http_response" where
  "script_reply st body =
     Inr \<lparr>rs_status = st, rs_header = (\<lambda>_. []), rs_body = \<lparr>body_data = body, body_fail = None\<rparr>\<rparr>"

definition example_rest :: "script REST" where
  "example_rest =
     \<lparr>baseURL = ''https://api'', accountID = ''acc'', apiToken = ''tok'', r_timeout = 15 * second,
      r_maxRetries = 2, r_httpClient = script_client, r_now = (\<lambda>w. (0, w)),
      r_sleep = defaultSleep script_runtime\<rparr>"

definition example_message :: message where
  "example_message =
     \<lparr>ID = ''id1'', RFCMessageID = [], From = \<lparr>Name = [], Addr = ''s@y.org''\<rparr>,
      To = [\<lparr>Name = [], Addr = ''a@x.org''\<rparr>], Cc = [], Bcc = [], ReplyTo = [], Subject = ''hi'',
      Text = ''t'', HTML = [], Headers = [], Size = 3, ReceivedAt = 0\<rparr>"

lemma script_counts: "counts_requests (rest_net script_runtime example_rest) sent"
  by (simp add: counts_requests_def steady_def rest_net_def script_runtime_def example_rest_def
      script_client_def defaultSleep_def split: list.split)

text \<open>
  C9. Sending through a REST adapter that \<^verbatim>\<open>NewREST\<close> built always ends, either
  with a result or with one classified \<^verbatim>\<open>DeliveryError\<close> whose reply class fits its
  temporary flag, and after at most \<^verbatim>\<open>MaxRetries + 1\<close> attempts, whatever the network,
  the clock and the upstream do.
\<close>

theorem rest_send_ends_classified:
  assumes "NewREST rt cfg = Inr c"
  shows "case REST_Send rt c msg w of
      ((Some res, None), _) \<Rightarrow> 1 \<le> ResAttempts res \<and> ResAttempts res \<le> rc_MaxRetries cfg + 1
    | ((None, Some (ErrDelivery d)), _) \<Rightarrow>
        well_classified d \<and> 0 \<le> Attempts d \<and> Attempts d \<le> rc_MaxRetries cfg + 1
    | _ \<Rightarrow> False"
  using REST_Send_outcome [of rt c msg w] NewREST_cases [OF assms] by auto

definition example_config :: "script RESTConfig" where
  "example_config =
     \<lparr>rc_BaseURL = ''https://api'', rc_AccountID = ''acc'', rc_APIToken = ''tok'',
      rc_Timeout = 15 * second, rc_MaxRetries = 2, rc_HTTPClient = None, rc_Now = None, rc_Sleep = None\<rparr>"

theorem rest_send_ends_classified_witness:
  "\<exists>c. NewREST script_runtime example_config = Inr c \<and>
     (case REST_Send script_runtime c example_message \<lparr>replies = [], sent = 0, slept = []\<rparr> of
      ((Some res, None), _) \<Rightarrow> 1 \<le> ResAttempts res \<and> ResAttempts res \<le> 2 + 1
    | ((None, Some (ErrDelivery d)), _) \<Rightarrow> well_classified d \<and> 0 \<le> Attempts d \<and> Attempts d \<le> 2 + 1
    | _ \<Rightarrow> False)"
proof -
  obtain c where c: "NewREST script_runtime example_config = Inr c"
    by (simp add: NewREST_def example_config_def Let_def)
  have "rc_MaxRetries example_config = 2" by (simp add: example_config_def)
  note ends = rest_send_ends_classified [OF c, of example_message
      "\<lparr>replies = [], sent = 0, slept = []\<rparr>", unfolded this]
  show ?thesis by (rule exI [of _ c], rule conjI [OF c ends])
qed

text \<open>
  C13. The attempt count that is reported, and logged, is exactly the number of HTTP
  requests that were issued, on success and on every error path, if a request can be built for the
  endpoint. For an endpoint that is not a URL no request is issued and the delivery fails, but the
  count is not 0: unless the context was done at the start it is at least 1.
\<close>

theorem rest_attempts_are_requests:
  assumes "counts_requests (rest_net rt c) cnt" and "REST_Send rt c msg w = (oc, w')"
  shows "case rt_bad_url rt (rest_endpoint c) of
      None \<Rightarrow> cnt w' - cnt w = outcome_attempts oc
    | Some _ \<Rightarrow> cnt w' = cnt w \<and> snd oc \<noteq> None
        \<and> (fst (rt_ctx_err rt w) = None \<longrightarrow> 1 \<le> outcome_attempts oc)"
proof -
  have "ctx_err (rest_net rt c) = rt_ctx_err rt" by (simp add: rest_net_def)
  with rest.sendLoop_requests [where build = "post_request rt (rest_endpoint c) (apiToken c)",
      OF assms(1) assms(2) [unfolded REST_Send_loop]] show ?thesis
    by (cases "rt_bad_url rt (rest_endpoint c)") (simp_all add: post_request_def)
qed

theorem rest_attempts_are_requests_witness:
  "(case REST_Send script_runtime example_rest example_message
      \<lparr>replies = [script_reply 503 ''{}'', script_reply 200 ''{\"success\":true}''], sent = 0, slept = []\<rparr> of
     (oc, w') \<Rightarrow> snd oc = None \<and> outcome_attempts oc = sent w' - 0 \<and> sent w' = 2
       \<and> slept w' = [500000000])
   \<and> (case REST_Send (script_runtime\<lparr>rt_bad_url := \<lambda>_. Some (ErrNew ''bad'')\<rparr>) example_rest example_message
      \<lparr>replies = [], sent = 0, slept = []\<rparr> of
     (oc, w') \<Rightarrow> sent w' = 0 \<and> 1 \<le> outcome_attempts oc)"
proof
  let ?w = "\<lparr>replies = [script_reply 503 ''{}'', script_reply 200 ''{\"success\":true}''], sent = 0, slept = []\<rparr>"
  obtain oc w' where r: "REST_Send script_runtime example_rest example_message ?w = (oc, w')"
    by (metis surj_pair)
  have "case REST_Send script_runtime example_rest example_message ?w of
      (oc, w') \<Rightarrow> snd oc = None \<and> sent w' = 2 \<and> slept w' = [500000000]" by code_simp
  moreover from rest_attempts_are_requests [OF script_counts r] have "outcome_attempts oc = sent w' - 0"
    by (simp add: script_runtime_def)
  ultimately show "case REST_Send script_runtime example_rest example_message ?w of
     (oc, w') \<Rightarrow> snd oc = None \<and> outcome_attempts oc = sent w' - 0 \<and> sent w' = 2
       \<and> slept w' = [500000000]" by (simp add: r)
next
  let ?rt = "script_runtime\<lparr>rt_bad_url := \<lambda>_. Some (ErrNew ''bad'')\<rparr>"
  let ?w = "\<lparr>replies = [], sent = 0, slept = []\<rparr>"
  obtain oc w' where r: "REST_Send ?rt example_rest example_message ?w = (oc, w')" by (metis surj_pair)
  have "rest_net ?rt example_rest = rest_net script_runtime example_rest"
    by (simp add: rest_net_def script_runtime_def)
  with script_counts have "counts_requests (rest_net ?rt example_rest) sent" by simp
  from rest_attempts_are_requests [OF this r] have "sent w' = 0 \<and> 1 \<le> outcome_attempts oc"
    by (simp add: script_runtime_def)
  then show "case REST_Send ?rt example_rest example_message ?w of (oc, w') \<Rightarrow> sent w' = 0 \<and> 1 \<le> outcome_attempts oc"
    by (simp add: r)
qed

text \<open>
  C14. The pause between two attempts is never negative and never longer than the 5 s cap:
  replacing the sleep seam by any other function that agrees with it on that range changes
  nothing.
\<close>

theorem rest_pauses_bounded:
  assumes "\<And>n w. 0 < n \<Longrightarrow> 0 \<le> fst (rt_rand rt n w)"
    and "\<And>d w. 0 \<le> d \<Longrightarrow> d \<le> 5 * second \<Longrightarrow> sleep' d w = r_sleep c d w"
  shows "REST_Send rt (c\<lparr>r_sleep := sleep'\<rparr>) msg w = REST_Send rt c msg w"
proof -
  have "rest_net rt (c\<lparr>r_sleep := sleep'\<rparr>) = (rest_net rt c)\<lparr>sleep_for := sleep'\<rparr>"
    by (simp add: rest_net_def)
  moreover have "sendLoop ((rest_net rt c)\<lparr>sleep_for := sleep'\<rparr>) t mr p b ps 1 None w =
      sendLoop (rest_net rt c) t mr p b ps 1 None w" for t mr p b ps
    using assms by (intro sendLoop_sleep) (simp_all add: rest_net_def retryCapDelay_def)
  ultimately show ?thesis by (simp add: REST_Send_loop rest_endpoint_def)
qed

theorem rest_pauses_bounded_witness:
  "REST_Send script_runtime
      (example_rest\<lparr>r_sleep := \<lambda>d w. if 0 \<le> d \<and> d \<le> 5 * second then r_sleep example_rest d w
         else (Some (ErrNew ''unreachable''), w)\<rparr>) example_message
      \<lparr>replies = [], sent = 0, slept = []\<rparr>
   = REST_Send script_runtime example_rest example_message \<lparr>replies = [], sent = 0, slept = []\<rparr>"
  by (rule rest_pauses_bounded) (simp_all add: script_runtime_def)

text \<open>The one request of a delivery, as the code builds it for every attempt.\<close>

definition rest_request :: "'w REST \<Rightarrow> message \<Rightarrow> http_request" where
  "rest_request c msg =
     \<lparr>rq_method = ''POST'', rq_url = rest_endpoint c,
      rq_headers = [(''Authorization'', ''Bearer '' @ apiToken c), (''Content-Type'', ''application/json'')],
      rq_body = json_text (payload_json (buildPayload msg))\<rparr>"

lemma rest_builds: "post_request rt (rest_endpoint c) (apiToken c)
    (json_text (payload_json (buildPayload msg))) = Inr rq \<Longrightarrow> rq = rest_request c msg"
  by (auto simp: post_request_def rest_request_def split: option.splits)

lemma REST_exchanges:
  assumes "records_exchanges (rest_net rt c) obs" and "REST_Send rt c msg w = (oc, w')"
  shows "\<exists>xs. obs w' = obs w @ xs \<and> list_all (\<lambda>x. fst x = rest_request c msg) xs
    \<and> int (length xs) \<le> 1 + max 0 (r_maxRetries c)
    \<and> conclusive (parseRESTResponse (rt_unicode rt)) xs (snd oc = None)
    \<and> (xs = [] \<longrightarrow> fst (rt_ctx_err rt w) \<noteq> None \<or> rt_bad_url rt (rest_endpoint c) \<noteq> None)"
proof -
  let ?built = "\<lambda>x. post_request rt (rest_endpoint c) (apiToken c) (json_text (payload_json (buildPayload msg))) = Inr (fst x)"
  obtain xs where xs: "obs w' = obs w @ xs" "list_all ?built xs" "int (length xs) \<le> 1 + max 0 (r_maxRetries c)"
      "conclusive (parseRESTResponse (rt_unicode rt)) xs (snd oc = None)"
      "xs = [] \<longrightarrow> fst (rt_ctx_err rt w) \<noteq> None \<or> rt_bad_url rt (rest_endpoint c) \<noteq> None"
    using rest.sendLoop_exchanges [OF assms(1) assms(2) [unfolded REST_Send_loop]]
    by (auto simp: rest_net_def post_request_def split: option.splits)
  have "list_all (\<lambda>x. fst x = rest_request c msg) xs"
    using xs(2) by (rule list.pred_mono_strong) (rule rest_builds)
  with xs(1,3,4,5) show ?thesis by blast
qed

text \<open>What the process sees of the network: \<open>obs\<close> are the exchanges of its HTTP clients.\<close>

definition observes :: "'w runtime \<Rightarrow> ('w \<Rightarrow> exchange list) \<Rightarrow> bool" where
  "observes rt obs \<longleftrightarrow>
     (\<forall>d t rq w. obs (snd (rt_client rt d t rq w)) = obs w @ [(rq, fst (rt_client rt d t rq w))]) \<and>
     (\<forall>w. obs (snd (rt_ctx_err rt w)) = obs w) \<and> (\<forall>d w. obs (snd (rt_wait rt d w)) = obs w) \<and>
     (\<forall>w. obs (snd (rt_now rt w)) = obs w) \<and> (\<forall>n w. obs (snd (rt_rand rt n w)) = obs w)"

lemma NewREST_observes:
  assumes "observes rt obs" and "NewREST rt cfg = Inr c"
    and "rc_HTTPClient cfg = None" "rc_Now cfg = None" "rc_Sleep cfg = None"
  shows "records_exchanges (rest_net rt c) obs"
  using assms by (auto simp: NewREST_def Let_def observes_def records_exchanges_def steady_def rest_net_def
      defaultSleep_def split: if_splits)

text \<open>
  Every attempt makes the same request and no other: a POST to the account's
  endpoint with the token and a body that reads back as the message. A client that would do
  anything else with any other request, URL, token, body or timeout cannot make a difference.
\<close>

lemma rest_posts_only_the_message:
  assumes "\<And>w. client' (r_timeout c) (rest_request c msg) w = r_httpClient c (r_timeout c) (rest_request c msg) w"
  shows "REST_Send rt (c\<lparr>r_httpClient := client'\<rparr>) msg w = REST_Send rt c msg w
    \<and> map_option message_of (json_parse (rq_body (rest_request c msg))) = Some (utf8_message msg)"
proof
  have net: "rest_net rt (c\<lparr>r_httpClient := client'\<rparr>) = (rest_net rt c)\<lparr>http_do := client'\<rparr>"
    by (simp add: rest_net_def)
  have "sendLoop ((rest_net rt c)\<lparr>http_do := client'\<rparr>) (r_timeout c) mr
      (json_text (payload_json (buildPayload msg))) (post_request rt (rest_endpoint c) (apiToken c)) ps 1 None w =
      sendLoop (rest_net rt c) (r_timeout c) mr
      (json_text (payload_json (buildPayload msg))) (post_request rt (rest_endpoint c) (apiToken c)) ps 1 None w"
    for mr ps
    using assms by (intro sendLoop_client) (auto simp: rest_net_def dest: rest_builds)
  then show "REST_Send rt (c\<lparr>r_httpClient := client'\<rparr>) msg w = REST_Send rt c msg w"
    by (simp add: REST_Send_loop net rest_endpoint_def)
  show "map_option message_of (json_parse (rq_body (rest_request c msg))) = Some (utf8_message msg)"
    by (simp add: rest_request_def payload_reads_back)
qed

text \<open>
  A reply that is not retryable ends the delivery at once: after one request and no
  pause the caller gets the error of that reply, even when retries are left.
\<close>

lemma rest_permanent_not_retried:
  assumes "rt_ctx_err rt w = (None, w1)" and "rt_bad_url rt (rest_endpoint c) = None"
    and "\<And>rq. r_httpClient c (r_timeout c) rq w1 = (Inr resp, w2)"
    and "readAndDrainBody (rs_body resp) = Inr body" and "rs_status resp \<noteq> 429"
    and "parseRESTResponse (rt_unicode rt) (rs_status resp) body 1 = (None, Some d, False)"
  shows "REST_Send rt c msg w = ((None, Some (ErrDelivery d)), w2)"
proof -
  have "doAttempt (rest_net rt c) (r_timeout c) p 1 (post_request rt (rest_endpoint c) (apiToken c))
      (parseRESTResponse (rt_unicode rt)) w1 = ((None, Some d, False, 0), w2)" for p
    using assms(2-6) by (simp add: doAttempt_def post_request_def rest_net_def)
  then show ?thesis
    using assms(1) by (simp add: REST_Send_loop sendLoop.simps loop_round_def shouldRetry_def rest_net_def)
qed

text \<open>
  How a reply's body is read. A body that is not the expected JSON is a temporary
  connection failure and is retried whatever the status says; \<^verbatim>\<open>success: true\<close> is a
  delivery whatever the status says, with the first delivered recipient as the provider's id;
  otherwise the first error, or code 0 when there is none, is classified with the status.
\<close>

lemma parseRESTResponse_cases:
  "parseRESTResponse U status body a =
     (case Option.bind (json_parse body) (into_struct (restResponse_field U) zero_restResponse) of
        None \<Rightarrow>
          (None, Some (DeliveryError True 451 (4, 4, 1) ''upstream connection failed'' 0 0 a
            (Some (ErrWrap ''decode response: '' jsonError []))), True)
      | Some resp \<Rightarrow>
          if rr_Success resp then
            (Some \<lparr>ProviderID = (case rr_Result resp of Some (d # _) \<Rightarrow> d | _ \<Rightarrow> []),
               ResHTTPStatus = status, ResAttempts = a\<rparr>, None, False)
          else if rr_Errors resp = [] then
            (None, Some (classifyHTTP status 0 [] a), isRetryable status 0)
          else
            (let e = hd (rr_Errors resp)
             in (None, Some (classifyHTTP status (re_Code e) (re_Message e) a),
                 isRetryable status (re_Code e))))"
  by (auto simp: parseRESTResponse_def unmarshal_def classifyTransport_def jsonError_def Let_def
      split: option.split list.split)

section \<open>Replies as the provider writes them\<close>

text \<open>The REST envelope: the outcome, the errors with code and message, the delivered recipients.\<close>

definition envelope_error :: "int \<times> string \<Rightarrow> json" where
  "envelope_error e = JObj [(''code'', JNum (itoa (fst e))), (''message'', JStr (snd e))]"

definition envelope :: "bool \<Rightarrow> (int \<times> string) list \<Rightarrow> string list \<Rightarrow> json" where
  "envelope ok errs ds =
     JObj [(''result'', JObj [(''delivered'', JArr (map JStr ds))]), (''success'', JBool ok),
           (''errors'', JArr (map envelope_error errs))]"

lemma envelope_nums_ok: "nums_ok (envelope ok errs ds)"
  using nums_ok_itoa by (simp add: envelope_def envelope_error_def list_all_iff del: nums_ok_itoa)

lemma envelope_depth: "depth (envelope ok errs ds) \<le> 3"
proof -
  have d: "depth (JArr (map JStr ds)) \<le> 1" and e: "depth (JArr (map envelope_error errs)) \<le> 2"
    using depth_le(1) [of "map JStr ds" 0] depth_le(1) [of "map envelope_error errs" 1]
    by (auto simp: envelope_error_def simp del: depth.simps(1))
  from d e have "depth (envelope ok errs ds) \<le> 2 + 1"
    unfolding envelope_def by (intro depth_le(2)) (simp_all del: depth.simps(1))
  then show ?thesis by simp
qed

lemma response_names:
  "field_named U ''success'' ''result'' = False" "field_named U ''errors'' ''result'' = False"
  "field_named U ''success'' ''errors'' = False" "field_named U ''code'' ''message'' = False"
  "field_named U x x = True"
  by (simp_all add: field_named_def equalFold_def runes_def segs_ascii fold_eq_def ascii_lower_def)

lemma keys_envelope:
  "utf8 ''success'' = ''success''" "utf8 ''errors'' = ''errors''" "utf8 ''result'' = ''result''"
  "utf8 ''delivered'' = ''delivered''" "utf8 ''code'' = ''code''" "utf8 ''message'' = ''message''"
  by (simp_all add: utf8_ascii)

lemma into_all_map: "(\<And>x. x \<in> set xs \<Longrightarrow> f (g x) = Some (h x)) \<Longrightarrow> into_all f (map g xs) = Some (map h xs)"
  by (induction xs) simp_all

lemma envelope_error_read:
  assumes "int64 (fst e)"
  shows "into_struct (restError_field U) \<lparr>re_Code = 0, re_Message = []\<rparr> (utf8_json (envelope_error e)) =
    Some \<lparr>re_Code = fst e, re_Message = utf8 (snd e)\<rparr>"
  using assms
  by (simp add: envelope_error_def restError_field_def response_names keys_envelope atoi_itoa)

lemma envelope_read:
  assumes "\<forall>e \<in> set errs. int64 (fst e)"
  shows "unmarshal (restResponse_field U) zero_restResponse (json_text (envelope ok errs ds)) =
    Inr \<lparr>rr_Success = ok, rr_Errors = map (\<lambda>e. \<lparr>re_Code = fst e, re_Message = utf8 (snd e)\<rparr>) errs,
         rr_Result = Some (map utf8 ds)\<rparr>"
proof -
  have "depth (envelope ok errs ds) \<le> max_nesting"
    using envelope_depth [of ok errs ds] by (simp add: max_nesting_def)
  then have p: "json_parse (json_text (envelope ok errs ds)) = Some (utf8_json (envelope ok errs ds))"
    by (intro json_parse_text envelope_nums_ok)
  have e: "into_all (into_struct (restError_field U) \<lparr>re_Code = 0, re_Message = []\<rparr>)
      (map (\<lambda>x. utf8_json (envelope_error x)) errs) =
      Some (map (\<lambda>e. \<lparr>re_Code = fst e, re_Message = utf8 (snd e)\<rparr>) errs)"
    using assms by (intro into_all_map) (simp add: envelope_error_read)
  have d: "into_all (into_string []) (map (\<lambda>x. JStr (utf8 x)) ds) = Some (map utf8 ds)"
    by (intro into_all_map) simp
  show ?thesis
    by (simp add: unmarshal_def p) (simp add: envelope_def keys_envelope restResponse_field_def
        delivered_field_def response_names zero_restResponse_def e d comp_def)
qed

text \<open>
  C23. A reply in the documented envelope is understood as it was written, whatever its
  strings contain: on success the provider's id is the first delivered recipient, and on
  failure the first error's code and message are classified with the HTTP status.
\<close>

theorem rest_envelope_understood:
  assumes "\<forall>e \<in> set errs. int64 (fst e)"
  shows "parseRESTResponse U status (json_text (envelope ok errs ds)) a =
    (if ok then
       (Some \<lparr>ProviderID = (case ds of [] \<Rightarrow> [] | d # _ \<Rightarrow> utf8 d), ResHTTPStatus = status, ResAttempts = a\<rparr>,
        None, False)
     else
       (let (code, message) = (case errs of [] \<Rightarrow> (0, []) | e # _ \<Rightarrow> (fst e, utf8 (snd e)))
        in (None, Some (classifyHTTP status code message a), isRetryable status code)))"
  unfolding parseRESTResponse_def envelope_read [OF assms] sum.case
  by (cases errs; cases ds) simp_all

theorem rest_envelope_understood_witness:
  "\<forall>U. parseRESTResponse U 429 (json_text (envelope False [(10004, ''a \"quoted\" text'')] [])) 2 =
     (None, Some (classifyHTTP 429 10004 (utf8 ''a \"quoted\" text'') 2), isRetryable 429 10004)"
proof
  fix U
  have "\<forall>e \<in> set [(10004 :: int, ''a \"quoted\" text'')]. int64 (fst e)" by (simp add: int64_def)
  from rest_envelope_understood [OF this, of U 429 False "[]" 2]
  show "parseRESTResponse U 429 (json_text (envelope False [(10004, ''a \"quoted\" text'')] [])) 2 =
      (None, Some (classifyHTTP 429 10004 (utf8 ''a \"quoted\" text'') 2), isRetryable 429 10004)"
    by simp
qed

end
