(* ===== verification/Cf_Worker.thy ===== *)
theory Cf_Worker
  imports Cf_Rest
begin

text \<open>
  \<^verbatim>\<open>internal/cloudflare/worker.go\<close>: the adapter for a user-deployed Worker. It posts
  the payload of the REST adapter, runs the same loop, and classifies the Worker's string
  codes.
\<close>

section \<open>Configuration\<close>

record 'w WorkerConfig =
  wc_URL :: string
  wc_Secret :: string
  wc_Timeout :: int
  wc_MaxRetries :: int
  wc_HTTPClient :: "'w client option"
  wc_Sleep :: "'w sleeper option"

record 'w Worker =
  w_url :: string
  w_secret :: string
  w_timeout :: int
  w_maxRetries :: int
  w_httpClient :: "'w client"
  w_sleep :: "'w sleeper"

definition NewWorker :: "'w runtime \<Rightarrow> 'w WorkerConfig \<Rightarrow> gerror + 'w Worker" where
  "NewWorker rt cfg =
     (if wc_URL cfg = [] then Inl (ErrNew ''cloudflare: WorkerConfig.URL must not be empty'')
      else if wc_Secret cfg = [] then Inl (ErrNew ''cloudflare: WorkerConfig.Secret must not be empty'')
      else if wc_MaxRetries cfg < 0 then Inl (ErrNew ''cloudflare: WorkerConfig.MaxRetries must not be negative'')
      else
        (let timeout = (if wc_Timeout cfg \<le> 0 then 30 * second else wc_Timeout cfg)
         in Inr \<lparr>w_url = wc_URL cfg, w_secret = wc_Secret cfg, w_timeout = timeout,
                 w_maxRetries = wc_MaxRetries cfg,
                 w_httpClient = (case wc_HTTPClient cfg of Some c \<Rightarrow> c | None \<Rightarrow> rt_client rt timeout),
                 w_sleep = (case wc_Sleep cfg of Some s \<Rightarrow> s | None \<Rightarrow> defaultSleep rt)\<rparr>))"

section \<open>The response\<close>

record workerResponse =
  wr_Success :: bool
  wr_MessageID :: string
  wr_Code :: string
  wr_Error :: string

record workerCodeBucket =
  wb_temporary :: bool
  wb_retryable :: bool
  wb_smtp :: int
  wb_enhanced :: enhanced
  wb_reason :: string

definition worker_bucket :: "bool \<Rightarrow> bool \<Rightarrow> int \<Rightarrow> enhanced \<Rightarrow> string \<Rightarrow> workerCodeBucket" where
  "worker_bucket t r s e m =
     \<lparr>wb_temporary = t, wb_retryable = r, wb_smtp = s, wb_enhanced = e, wb_reason = m\<rparr>"

definition workerCodeBuckets :: "(string \<times> workerCodeBucket) list" where
  "workerCodeBuckets =
     [(''E_RATE_LIMIT_EXCEEDED'', worker_bucket True True 451 (4, 4, 5) ''upstream rate limited''),
      (''E_DAILY_LIMIT_EXCEEDED'', worker_bucket True True 451 (4, 4, 5) ''upstream rate limited''),
      (''E_SENDER_NOT_VERIFIED'', worker_bucket False False 550 (5, 7, 1) ''upstream rejected sender''),
      (''E_SENDER_DOMAIN_NOT_AVAILABLE'', worker_bucket False False 550 (5, 7, 1) ''upstream rejected sender''),
      (''E_RECIPIENT_NOT_ALLOWED'', worker_bucket False False 550 (5, 7, 1) ''upstream rejected recipient'')]"

definition workerResponse_field :: "unicode \<Rightarrow> string \<Rightarrow> json \<Rightarrow> workerResponse \<Rightarrow> workerResponse option" where
  "workerResponse_field U k v r =
     (if field_named U ''success'' k then map_option (\<lambda>b. r\<lparr>wr_Success := b\<rparr>) (into_bool (wr_Success r) v)
      else if field_named U ''messageId'' k then
        map_option (\<lambda>s. r\<lparr>wr_MessageID := s\<rparr>) (into_string (wr_MessageID r) v)
      else if field_named U ''code'' k then map_option (\<lambda>s. r\<lparr>wr_Code := s\<rparr>) (into_string (wr_Code r) v)
      else if field_named U ''error'' k then
        map_option (\<lambda>s. r\<lparr>wr_Error := s\<rparr>) (into_string (wr_Error r) v)
      else Some r)"

definition zero_workerResponse :: workerResponse where
  "zero_workerResponse = \<lparr>wr_Success = False, wr_MessageID = [], wr_Code = [], wr_Error = []\<rparr>"

definition classifyWorkerCode :: "int \<Rightarrow> string \<Rightarrow> string \<Rightarrow> int \<Rightarrow> delivery_error" where
  "classifyWorkerCode status code message attempts =
     (case map_of workerCodeBuckets code of
        Some b \<Rightarrow>
          newDeliveryError (wb_temporary b) (wb_smtp b) (wb_enhanced b) (wb_reason b) status 0 attempts message
      | None \<Rightarrow> classifyHTTP status 0 message attempts)"

definition isWorkerRetryable :: "int \<Rightarrow> string \<Rightarrow> bool" where
  "isWorkerRetryable status code =
     (case map_of workerCodeBuckets code of
        Some b \<Rightarrow> wb_retryable b
      | None \<Rightarrow> isRetryable status 0)"

definition parseWorkerResponse :: "unicode \<Rightarrow> parser" where
  "parseWorkerResponse U status body attempts =
     (case unmarshal (workerResponse_field U) zero_workerResponse body of
        Inl err \<Rightarrow>
          (None, Some (classifyTransport (ErrWrap ''decode response: '' err []) attempts), True)
      | Inr resp \<Rightarrow>
          if wr_Success resp then
            (Some \<lparr>ProviderID = wr_MessageID resp, ResHTTPStatus = status, ResAttempts = attempts\<rparr>, None, False)
          else
            (None, Some (classifyWorkerCode status (wr_Code resp) (wr_Error resp) attempts),
             isWorkerRetryable status (wr_Code resp)))"

section \<open>\<^verbatim>\<open>Send\<close>\<close>

text \<open>The clock is \<^verbatim>\<open>time.Now\<close>: a Worker has no clock seam.\<close>

definition worker_net :: "'w runtime \<Rightarrow> 'w Worker \<Rightarrow> 'w net" where
  "worker_net rt c =
     \<lparr>ctx_err = rt_ctx_err rt, http_do = w_httpClient c, sleep_for = w_sleep c, clock = rt_now rt,
      rand_Int63n = rt_rand rt, parse_http_time = rt_parse_time rt\<rparr>"

definition Worker_Send :: "'w runtime \<Rightarrow> 'w Worker \<Rightarrow> 'w send_fun" where
  "Worker_Send rt c msg w =
     (case marshalPayload (buildPayload msg) of
        Inl err \<Rightarrow>
          ((None, Some (ErrDelivery (classifyTransport (ErrWrap ''encode request: '' err []) 0))), w)
      | Inr payload \<Rightarrow>
          sendLoop (worker_net rt c) (w_timeout c) (w_maxRetries c) payload
            (post_request rt (w_url c) (w_secret c)) (parseWorkerResponse (rt_unicode rt)) 1 None w)"

section \<open>The adapter meets its contracts\<close>

lemma workerCodeBuckets_all_ok:
  "list_all (\<lambda>cb. bucket_ok \<lparr>cb_temporary = wb_temporary (snd cb), cb_retryable = wb_retryable (snd cb),
     cb_smtp = wb_smtp (snd cb), cb_enhanced = wb_enhanced (snd cb), cb_reason = wb_reason (snd cb)\<rparr>)
   workerCodeBuckets"
  by (simp add: workerCodeBuckets_def worker_bucket_def bucket_ok_def)

lemma workerCodeBuckets_ok:
  assumes "map_of workerCodeBuckets c = Some b"
  shows "(if wb_temporary b then wb_smtp b = 451 \<and> fst (wb_enhanced b) = 4
      else wb_smtp b = 550 \<and> fst (wb_enhanced b) = 5) \<and> (wb_retryable b \<longrightarrow> wb_temporary b)
      \<and> clean_text (wb_reason b)"
  using workerCodeBuckets_all_ok map_of_SomeD [OF assms]
  by (force simp: list_all_iff bucket_ok_def)

lemma classifyWorkerCode_fields [simp]:
  "HTTPStatus (classifyWorkerCode st c m a) = st"
  "ProviderCode (classifyWorkerCode st c m a) = 0"
  "Attempts (classifyWorkerCode st c m a) = a"
  by (simp_all add: classifyWorkerCode_def split: option.splits)

lemma classifyWorkerCode_ok: "well_classified (classifyWorkerCode st c m a)"
  by (auto simp: classifyWorkerCode_def classifyHTTP_ok well_classified_def [of "newDeliveryError _ _ _ _ _ _ _ _"]
      dest: workerCodeBuckets_ok split: option.splits if_splits)

lemma isWorkerRetryable_Temporary:
  "isWorkerRetryable st c \<Longrightarrow> Temporary (classifyWorkerCode st c m a)"
  by (auto simp: isWorkerRetryable_def classifyWorkerCode_def dest: workerCodeBuckets_ok
      intro: isRetryable_Temporary split: option.splits)

lemma parseWorkerResponse_result:
  assumes "parseWorkerResponse U st body a = (r, None, rt)"
  shows "\<exists>res. r = Some res \<and> ResAttempts res = a \<and> ResHTTPStatus res = st"
  using assms by (auto simp: parseWorkerResponse_def split: sum.splits if_splits)

lemma parseWorkerResponse_error:
  assumes "parseWorkerResponse U st body a = (r, Some d, rt)"
  shows "well_classified d \<and> Attempts d = a \<and> (rt \<longrightarrow> Temporary d)"
  using assms by (auto simp: parseWorkerResponse_def classifyWorkerCode_ok classifyTransport_ok
      intro: isWorkerRetryable_Temporary split: sum.splits if_splits)

lemma parseWorkerResponse_decides:
  assumes "parseWorkerResponse U st body a = (r, oe, rt)" and "parseWorkerResponse U st body a' = (r', oe', rt')"
  shows "oe = None \<longleftrightarrow> oe' = None"
  using assms by (auto simp: parseWorkerResponse_def split: sum.splits if_splits)

interpretation worker: deciding_parser "parseWorkerResponse U" for U
  by unfold_locales (erule parseWorkerResponse_result, erule parseWorkerResponse_error,
    erule (1) parseWorkerResponse_decides)

lemma Worker_Send_loop:
  "Worker_Send rt c msg w =
     sendLoop (worker_net rt c) (w_timeout c) (w_maxRetries c) (json_text (payload_json (buildPayload msg)))
       (post_request rt (w_url c) (w_secret c)) (parseWorkerResponse (rt_unicode rt)) 1 None w"
  by (simp add: Worker_Send_def marshalPayload_def)

lemma Worker_Send_outcome:
  "(\<exists>res w'. Worker_Send rt c msg w = ((Some res, None), w')
      \<and> 1 \<le> ResAttempts res \<and> ResAttempts res \<le> max 1 (w_maxRetries c + 1)) \<or>
   (\<exists>d w'. Worker_Send rt c msg w = ((None, Some (ErrDelivery d)), w')
      \<and> well_classified d \<and> 0 \<le> Attempts d \<and> Attempts d \<le> max 1 (w_maxRetries c + 1))"
  unfolding Worker_Send_loop by (rule worker.send_outcome)

interpretation worker_sender: sender "Worker_Send rt c" for rt c
proof
  show "r \<noteq> None" if "Worker_Send rt c m w = ((r, None), w')" for m w r w'
    using Worker_Send_outcome [of rt c m w] that by auto
  show "\<exists>d. AsDeliveryError e = Some d \<and> well_classified d"
    if "Worker_Send rt c m w = ((r, Some e), w')" for m w r e w'
    using Worker_Send_outcome [of rt c m w] that by auto
qed

lemma NewWorker_cases:
  assumes "NewWorker rt cfg = Inr c"
  shows "wc_URL cfg \<noteq> [] \<and> wc_Secret cfg \<noteq> [] \<and> 0 \<le> wc_MaxRetries cfg \<and> w_url c = wc_URL cfg
    \<and> w_secret c = wc_Secret cfg \<and> w_maxRetries c = wc_MaxRetries cfg \<and> 0 < w_timeout c
    \<and> (0 < wc_Timeout cfg \<longrightarrow> w_timeout c = wc_Timeout cfg)"
  using assms by (auto simp: NewWorker_def Let_def second_def split: if_splits)

text \<open>The exchanges of a delivery, as for the REST adapter.\<close>

definition worker_request :: "'w Worker \<Rightarrow> message \<Rightarrow> http_request" where
  "worker_request c msg =
     \<lparr>rq_method = ''POST'', rq_url = w_url c,
      rq_headers = [(''Authorization'', ''Bearer '' @ w_secret c), (''Content-Type'', ''application/json'')],
      rq_body = json_text (payload_json (buildPayload msg))\<rparr>"

lemma worker_builds: "post_request rt (w_url c) (w_secret c)
    (json_text (payload_json (buildPayload msg))) = Inr rq \<Longrightarrow> rq = worker_request c msg"
  by (auto simp: post_request_def worker_request_def split: option.splits)

lemma Worker_exchanges:
  assumes "records_exchanges (worker_net rt c) obs" and "Worker_Send rt c msg w = (oc, w')"
  shows "\<exists>xs. obs w' = obs w @ xs \<and> list_all (\<lambda>x. fst x = worker_request c msg) xs
    \<and> int (length xs) \<le> 1 + max 0 (w_maxRetries c)
    \<and> conclusive (parseWorkerResponse (rt_unicode rt)) xs (snd oc = None)
    \<and> (xs = [] \<longrightarrow> fst (rt_ctx_err rt w) \<noteq> None \<or> rt_bad_url rt (w_url c) \<noteq> None)"
proof -
  let ?built = "\<lambda>x. post_request rt (w_url c) (w_secret c) (json_text (payload_json (buildPayload msg))) = Inr (fst x)"
  obtain xs where xs: "obs w' = obs w @ xs" "list_all ?built xs" "int (length xs) \<le> 1 + max 0 (w_maxRetries c)"
      "conclusive (parseWorkerResponse (rt_unicode rt)) xs (snd oc = None)"
      "xs = [] \<longrightarrow> fst (rt_ctx_err rt w) \<noteq> None \<or> rt_bad_url rt (w_url c) \<noteq> None"
    using worker.sendLoop_exchanges [OF assms(1) assms(2) [unfolded Worker_Send_loop]]
    by (auto simp: worker_net_def post_request_def split: option.splits)
  have "list_all (\<lambda>x. fst x = worker_request c msg) xs"
    using xs(2) by (rule list.pred_mono_strong) (rule worker_builds)
  with xs(1,3,4,5) show ?thesis by blast
qed

lemma NewWorker_observes:
  assumes "observes rt obs" and "NewWorker rt cfg = Inr c"
    and "wc_HTTPClient cfg = None" "wc_Sleep cfg = None"
  shows "records_exchanges (worker_net rt c) obs"
  using assms by (auto simp: NewWorker_def Let_def observes_def records_exchanges_def steady_def worker_net_def
      defaultSleep_def split: if_splits)

section \<open>Properties\<close>

text \<open>
  C17. The Worker's string codes decide first: a rate or daily limit is a retried 451 4.4.5
  and a sender or recipient refusal a final 550 5.7.1 at any HTTP status; every other code
  follows the status exactly as the REST adapter does without a provider code. Retried
  outcomes are always temporary.
\<close>

theorem worker_classification:
  "(SMTPCode (classifyWorkerCode st code msg a), EnhancedCode (classifyWorkerCode st code msg a),
      isWorkerRetryable st code) =
    (if code \<in> {''E_RATE_LIMIT_EXCEEDED'', ''E_DAILY_LIMIT_EXCEEDED''} then (451, (4, 4, 5), True)
     else if code \<in> {''E_SENDER_NOT_VERIFIED'', ''E_SENDER_DOMAIN_NOT_AVAILABLE'', ''E_RECIPIENT_NOT_ALLOWED''}
       then (550, (5, 7, 1), False)
     else (SMTPCode (classifyHTTP st 0 msg a), EnhancedCode (classifyHTTP st 0 msg a), isRetryable st 0))
   \<and> well_classified (classifyWorkerCode st code msg a)
   \<and> (isWorkerRetryable st code \<longrightarrow> Temporary (classifyWorkerCode st code msg a))"
proof -
  have "(SMTPCode (classifyWorkerCode st code msg a), EnhancedCode (classifyWorkerCode st code msg a),
      isWorkerRetryable st code) =
    (if code \<in> {''E_RATE_LIMIT_EXCEEDED'', ''E_DAILY_LIMIT_EXCEEDED''} then (451, (4, 4, 5), True)
     else if code \<in> {''E_SENDER_NOT_VERIFIED'', ''E_SENDER_DOMAIN_NOT_AVAILABLE'', ''E_RECIPIENT_NOT_ALLOWED''}
       then (550, (5, 7, 1), False)
     else (SMTPCode (classifyHTTP st 0 msg a), EnhancedCode (classifyHTTP st 0 msg a), isRetryable st 0))"
    by (auto simp: classifyWorkerCode_def isWorkerRetryable_def workerCodeBuckets_def worker_bucket_def)
  then show ?thesis using classifyWorkerCode_ok isWorkerRetryable_Temporary by blast
qed

theorem worker_classification_witness:
  "isWorkerRetryable 200 ''E_RATE_LIMIT_EXCEEDED''
   \<and> Temporary (classifyWorkerCode 200 ''E_RATE_LIMIT_EXCEEDED'' [] 1)"
proof -
  have "isWorkerRetryable 200 ''E_RATE_LIMIT_EXCEEDED''"
    by (simp add: isWorkerRetryable_def workerCodeBuckets_def worker_bucket_def)
  then show ?thesis using worker_classification [of 200 "''E_RATE_LIMIT_EXCEEDED''" "[]" 1] by blast
qed

text \<open>
  C16. Sending through a Worker adapter that \<^verbatim>\<open>NewWorker\<close> built ends as a REST
  delivery does: a result or one consistently classified error, with a count of at most
  \<^verbatim>\<open>MaxRetries + 1\<close> attempts. If a request can be built for the configured URL, the
  count is the number of requests issued; if not, which \<^verbatim>\<open>NewWorker\<close> does not check,
  no request is issued and the delivery fails, with a count of at least 1 unless the context
  was done at the start.
\<close>

theorem worker_send_ends_classified:
  assumes "NewWorker rt cfg = Inr c" and "counts_requests (worker_net rt c) cnt"
    and "Worker_Send rt c msg w = (oc, w')"
  shows "0 \<le> outcome_attempts oc \<and> outcome_attempts oc \<le> wc_MaxRetries cfg + 1
    \<and> (case oc of (Some _, None) \<Rightarrow> True
        | (None, Some (ErrDelivery d)) \<Rightarrow> well_classified d | _ \<Rightarrow> False)
    \<and> (case rt_bad_url rt (wc_URL cfg) of
         None \<Rightarrow> cnt w' - cnt w = outcome_attempts oc
       | Some _ \<Rightarrow> cnt w' = cnt w \<and> snd oc \<noteq> None
           \<and> (fst (rt_ctx_err rt w) = None \<longrightarrow> 1 \<le> outcome_attempts oc))"
proof -
  note c = NewWorker_cases [OF assms(1)]
  have "ctx_err (worker_net rt c) = rt_ctx_err rt" by (simp add: worker_net_def)
  with worker.sendLoop_requests [where build = "post_request rt (w_url c) (w_secret c)",
      OF assms(2) assms(3) [unfolded Worker_Send_loop]] c
  have "case rt_bad_url rt (wc_URL cfg) of
         None \<Rightarrow> cnt w' - cnt w = outcome_attempts oc
       | Some _ \<Rightarrow> cnt w' = cnt w \<and> snd oc \<noteq> None
           \<and> (fst (rt_ctx_err rt w) = None \<longrightarrow> 1 \<le> outcome_attempts oc)"
    by (cases "rt_bad_url rt (wc_URL cfg)") (simp_all add: post_request_def)
  moreover have "0 \<le> outcome_attempts oc \<and> outcome_attempts oc \<le> wc_MaxRetries cfg + 1"
    and "case oc of (Some _, None) \<Rightarrow> True
        | (None, Some (ErrDelivery d)) \<Rightarrow> well_classified d | _ \<Rightarrow> False"
    using Worker_Send_outcome [of rt c msg w] c assms(3) by (auto simp: outcome_attempts_def)
  ultimately show ?thesis by simp
qed

definition example_worker_config :: "script WorkerConfig" where
  "example_worker_config =
     \<lparr>wc_URL = ''https://w'', wc_Secret = ''s'', wc_Timeout = 0, wc_MaxRetries = 1,
      wc_HTTPClient = None, wc_Sleep = None\<rparr>"

theorem worker_send_ends_classified_witness:
  "\<exists>c oc w'. NewWorker script_runtime example_worker_config = Inr c
    \<and> Worker_Send script_runtime c example_message \<lparr>replies = [], sent = 0, slept = []\<rparr> = (oc, w')
    \<and> outcome_attempts oc = sent w' - 0 \<and> sent w' - 0 \<le> 1 + 1"
proof -
  obtain c where c: "NewWorker script_runtime example_worker_config = Inr c"
    by (simp add: NewWorker_def example_worker_config_def Let_def)
  then have n: "counts_requests (worker_net script_runtime c) sent"
    by (auto simp: NewWorker_def example_worker_config_def Let_def counts_requests_def steady_def worker_net_def
        script_runtime_def script_client_def defaultSleep_def split: list.split)
  obtain oc w' where s:
    "Worker_Send script_runtime c example_message \<lparr>replies = [], sent = 0, slept = []\<rparr> = (oc, w')"
    by (metis surj_pair)
  from worker_send_ends_classified [OF c n s] have
    "outcome_attempts oc = sent w' - 0 \<and> sent w' - 0 \<le> 1 + 1"
    by (simp add: example_worker_config_def script_runtime_def)
  with c s show ?thesis by blast
qed

section \<open>Replies as the Worker writes them\<close>

definition worker_reply :: "bool \<Rightarrow> string \<Rightarrow> string \<Rightarrow> string \<Rightarrow> json" where
  "worker_reply ok mid code err =
     JObj [(''success'', JBool ok), (''messageId'', JStr mid), (''code'', JStr code), (''error'', JStr err)]"

lemma worker_names:
  "field_named U ''success'' ''messageId'' = False" "field_named U ''success'' ''code'' = False"
  "field_named U ''success'' ''error'' = False" "field_named U ''messageId'' ''code'' = False"
  "field_named U ''messageId'' ''error'' = False" "field_named U ''code'' ''error'' = False"
  by (simp_all add: field_named_def equalFold_def runes_def segs_ascii fold_eq_def ascii_lower_def)

lemma worker_keys: "utf8 ''messageId'' = ''messageId''" "utf8 ''error'' = ''error''"
  by (simp_all add: utf8_ascii)

text \<open>
  A reply in the Worker's shape is understood as it was written: the message id on success,
  and on failure the classification of exactly its code and HTTP status.
\<close>

lemma worker_reply_understood:
  "parseWorkerResponse U status (json_text (worker_reply ok mid code err)) a =
    (if ok then (Some \<lparr>ProviderID = utf8 mid, ResHTTPStatus = status, ResAttempts = a\<rparr>, None, False)
     else (None, Some (classifyWorkerCode status (utf8 code) (utf8 err) a),
           isWorkerRetryable status (utf8 code)))"
proof -
  have "json_parse (json_text (worker_reply ok mid code err)) = Some (utf8_json (worker_reply ok mid code err))"
    by (rule json_parse_text) (simp_all add: worker_reply_def max_nesting_def)
  then have "unmarshal (workerResponse_field U) zero_workerResponse (json_text (worker_reply ok mid code err)) =
      Inr \<lparr>wr_Success = ok, wr_MessageID = utf8 mid, wr_Code = utf8 code, wr_Error = utf8 err\<rparr>"
    by (simp add: unmarshal_def) (simp add: worker_reply_def keys_envelope worker_keys worker_names
        response_names workerResponse_field_def zero_workerResponse_def)
  then show ?thesis by (simp add: parseWorkerResponse_def)
qed

end
