(* ===== verification/Smtp_Login.thy ===== *)
theory Smtp_Login
  imports Email_Errors
begin

text \<open>
  \<^verbatim>\<open>internal/smtpserver/login.go\<close>: the server side of AUTH LOGIN, a machine with three
  states. The authenticator is a function over the session \<open>'s\<close> that the machine may change;
  the locale \<open>authenticator\<close> is what the machine relies on of it.
\<close>

datatype login_state = LoginUsername | LoginPassword | LoginDone

record login_server =
  ls_state :: login_state
  ls_username :: string

type_synonym 's authenticate = "string \<Rightarrow> string \<Rightarrow> 's \<Rightarrow> gerror option \<times> 's"

definition newLoginServer :: login_server where
  "newLoginServer = \<lparr>ls_state = LoginUsername, ls_username = []\<rparr>"

definition ErrUnexpectedClientResponse :: gerror where
  "ErrUnexpectedClientResponse = ErrSentinel UnexpectedClientResponse ''sasl: unexpected client response''"

text \<open>
  A response is \<open>None\<close> when it is nil. The result is the challenge, whether the exchange is
  done, and the error.
\<close>

definition bytes_of :: "string option \<Rightarrow> string" where
  "bytes_of response = (case response of None \<Rightarrow> [] | Some b \<Rightarrow> b)"

definition Login_Next ::
  "'s authenticate \<Rightarrow> login_server \<Rightarrow> string option \<Rightarrow> 's \<Rightarrow>
     (string option \<times> bool \<times> gerror option) \<times> login_server \<times> 's"
where
  "Login_Next auth l response s =
     (case ls_state l of
        LoginUsername \<Rightarrow>
          (case response of
             None \<Rightarrow> ((Some ''Username:'', False, None), l, s)
           | Some r \<Rightarrow>
               ((Some ''Password:'', False, None), l\<lparr>ls_username := r, ls_state := LoginPassword\<rparr>, s))
      | LoginPassword \<Rightarrow>
          (case auth (ls_username l) (bytes_of response) s of
             (err, s') \<Rightarrow> ((None, True, err), l\<lparr>ls_state := LoginDone\<rparr>, s'))
      | LoginDone \<Rightarrow> ((None, True, Some ErrUnexpectedClientResponse), l, s))"

text \<open>A whole exchange: the answers of the server to the client's successive responses.\<close>

fun login_run ::
  "'s authenticate \<Rightarrow> login_server \<Rightarrow> string option list \<Rightarrow> 's \<Rightarrow>
     (string option \<times> bool \<times> gerror option) list \<times> login_server \<times> 's"
where
  "login_run auth l [] s = ([], l, s)"
| "login_run auth l (r # rs) s =
     (case Login_Next auth l r s of
        (a, l', s') \<Rightarrow> (case login_run auth l' rs s' of (as, r') \<Rightarrow> (a # as, r')))"

section \<open>The contract of an authenticator\<close>

locale authenticator =
  fixes auth :: "'s authenticate" and authed :: "'s \<Rightarrow> bool"
  assumes accepts: "auth u p s = (None, s') \<Longrightarrow> authed s'"
    and rejects: "auth u p s = (Some e, s') \<Longrightarrow> s' = s"
begin

lemma Login_Next_keeps:
  "Login_Next auth l r s = (a, l', s') \<Longrightarrow> s' = s \<or> authed s'"
  using accepts rejects
  by (auto simp: Login_Next_def split: login_state.splits option.splits prod.splits) (metis option.exhaust)

lemma Login_Next_done:
  "Login_Next auth l r s = ((c, True, None), l', s') \<Longrightarrow> authed s'"
  by (auto simp: Login_Next_def intro: accepts split: login_state.splits option.splits prod.splits)

lemma login_run_keeps:
  "login_run auth l rs s = (as, l', s') \<Longrightarrow> authed s' \<or> s' = s"
proof (induction rs arbitrary: l s as)
  case Nil
  then show ?case by simp
next
  case (Cons r rs)
  from Cons.prems Cons.IH Login_Next_keeps show ?case
    by (auto split: prod.splits) blast+
qed

end

section \<open>A whole exchange\<close>

lemma login_run_done:
  "ls_state l = LoginDone \<Longrightarrow>
     login_run auth l rs s = (map (\<lambda>_. (None, True, Some ErrUnexpectedClientResponse)) rs, l, s)"
  by (induction rs) (simp_all add: Login_Next_def)

lemma login_run_username:
  "ls_state l = LoginUsername \<Longrightarrow>
     snd (snd (login_run auth l rs s)) =
       (case dropWhile (\<lambda>r. r = None) rs of
          Some u # p # _ \<Rightarrow> snd (auth u (bytes_of p) s)
        | _ \<Rightarrow> s)"
proof (induction rs)
  case Nil
  show ?case by simp
next
  case (Cons r rs)
  show ?case
  proof (cases r)
    case None
    with Cons show ?thesis by (simp add: Login_Next_def case_prod_beta)
  next
    case (Some u)
    with Cons.prems show ?thesis
      by (cases rs) (simp_all add: Login_Next_def login_run_done split: prod.split)
  qed
qed

text \<open>
  C31. AUTH LOGIN consults the authenticator at most once and with exactly what the client
  sent: leading empty responses are answered with the prompt, the first response is the user
  name, the next one the password, and whatever follows is refused without a second try.
\<close>

theorem login_authenticates_once:
  "snd (snd (login_run auth newLoginServer rs s)) =
     (case dropWhile (\<lambda>r. r = None) rs of
        Some u # p # _ \<Rightarrow> snd (auth u (bytes_of p) s)
      | _ \<Rightarrow> s)"
  by (rule login_run_username) (simp add: newLoginServer_def)

text \<open>
  C32. The exchange ends: a client whose responses after the first are not nil, which is how
  the library hands them over, has its third response answered with the final outcome at the
  latest, and from then on every answer is final.
\<close>

theorem login_exchange_ends:
  assumes "list_all (\<lambda>r. r \<noteq> None) rs"
  shows "list_all (\<lambda>a. fst (snd a)) (drop 2 (fst (login_run auth newLoginServer (r # rs) s)))"
proof -
  have final: "list_all (\<lambda>a. fst (snd a)) (fst (login_run auth l rs s))" if "ls_state l = LoginDone" for l rs s
    by (simp add: login_run_done [OF that] list_all_iff)
  have pass: "list_all (\<lambda>a. fst (snd a)) (fst (login_run auth l rs s))"
    if "ls_state l = LoginPassword" for l rs s
    using that by (cases rs) (simp_all add: Login_Next_def case_prod_beta final)
  have later: "list_all (\<lambda>a. fst (snd a)) (drop k (fst (login_run auth l rs s)))"
    if "ls_state l = LoginPassword" for k l rs s
    using pass [OF that] by (auto simp: list_all_iff dest: in_set_dropD)
  show ?thesis
  proof (cases r)
    case (Some u)
    then show ?thesis
      by (simp add: newLoginServer_def Login_Next_def case_prod_beta later)
  next
    case None
    show ?thesis
    proof (cases rs)
      case Nil
      with None show ?thesis by (simp add: newLoginServer_def Login_Next_def)
    next
      case (Cons p rs')
      with assms obtain u where "p = Some u" by auto
      with None Cons show ?thesis
        by (simp add: newLoginServer_def Login_Next_def case_prod_beta pass)
    qed
  qed
qed

theorem login_exchange_ends_witness:
  "(let answers = fst (login_run (\<lambda>u p s. (if u = ''a'' \<and> p = ''b'' then None else Some ErrUnexpectedClientResponse, s))
      newLoginServer [None, Some ''a'', Some ''b''] (0::nat))
    in list_all (\<lambda>a. fst (snd a)) (drop 2 answers) \<and> drop 2 answers = [(None, True, None)])"
  unfolding Let_def
  by (rule conjI, rule login_exchange_ends) (simp_all add: newLoginServer_def Login_Next_def bytes_of_def)

end
