(* ===== verification/Email_Policy.thy ===== *)
theory Email_Policy
  imports Email_Message
begin

text \<open>
  \<^verbatim>\<open>internal/email/policy.go\<close>: the sender allowlist. The field
  \<^verbatim>\<open>allowed\<close> is the key set of the Go map; a nil map and an empty one behave alike.
  The locale \<open>sender_check\<close> is what the SMTP layer relies on of a policy.
\<close>

record sender_policy =
  allowed :: "string set"

definition NewSenderPolicy :: "string list \<Rightarrow> sender_policy" where
  "NewSenderPolicy domains =
     (if domains = [] then \<lparr>allowed = {}\<rparr>
      else \<lparr>allowed = set (map lowerASCII domains)\<rparr>)"

definition Allows :: "sender_policy \<Rightarrow> address \<Rightarrow> bool" where
  "Allows p from =
     (if allowed p = {} then True
      else (let d = Address_Domain from in if d = [] then False else d \<in> allowed p))"

definition Check :: "sender_policy \<Rightarrow> address \<Rightarrow> gerror option" where
  "Check p from =
     (if Allows p from then None
      else Some (ErrWrap [] ErrSenderNotAllowed ('': '' @ Address_Domain from)))"

section \<open>The interface of a policy\<close>

locale sender_check =
  fixes check :: "address \<Rightarrow> gerror option"
    and admits :: "address \<Rightarrow> bool"
  assumes check_None: "check a = None \<longleftrightarrow> admits a"
    and check_reason: "check a = Some e \<Longrightarrow> errorsIs e SenderNotAllowed"
    and admits_name: "admits a = admits (a\<lparr>Name := n\<rparr>)"
begin

lemma check_refuses: "\<not> admits a \<Longrightarrow> \<exists>e. check a = Some e \<and> errorsIs e SenderNotAllowed"
  using check_None [of a] check_reason [of a] by (cases "check a") auto

lemma admits_any_name: "admits \<lparr>Name = n, Addr = s\<rparr> = admits \<lparr>Name = n', Addr = s\<rparr>"
  using admits_name [of "\<lparr>Name = n, Addr = s\<rparr>" n'] by simp

end

lemma Check_None: "Check p a = None \<longleftrightarrow> Allows p a"
  by (simp add: Check_def)

lemma Check_SenderNotAllowed: "Check p a = Some e \<Longrightarrow> errorsIs e SenderNotAllowed"
  by (auto simp: Check_def ErrSenderNotAllowed_def split: if_splits)

lemma Allows_name: "Allows p (a\<lparr>Name := n\<rparr>) = Allows p a"
  by (simp add: Allows_def Address_Domain_def)

interpretation pol: sender_check "Check p" "Allows p" for p
  by unfold_locales (simp_all add: Check_None Check_SenderNotAllowed Allows_name)

section \<open>What a policy admits\<close>

lemma allowed_NewSenderPolicy: "allowed (NewSenderPolicy ds) = lowerASCII ` set ds"
  by (simp add: NewSenderPolicy_def)

lemma Allows_NewSenderPolicy:
  "Allows (NewSenderPolicy ds) a \<longleftrightarrow>
     ds = [] \<or> (Address_Domain a \<noteq> [] \<and> (\<exists>d \<in> set ds. lowerASCII d = Address_Domain a))"
  by (auto simp: Allows_def allowed_NewSenderPolicy Let_def image_iff eq_commute)

text \<open>
  C10. The allowlist is opt-in and exact: a policy built from a list of domains admits
  an address if and only if the list is empty, or the part after the last at sign is
  non-empty and equals an entry up to ASCII case. A parent domain or a subdomain of an entry
  is a different string and is not admitted.
\<close>

theorem policy_exact:
  assumes "CHR ''@'' \<notin> set d"
  shows "Check (NewSenderPolicy ds) \<lparr>Name = n, Addr = loc @ CHR ''@'' # d\<rparr> = None \<longleftrightarrow>
    ds = [] \<or> (d \<noteq> [] \<and> lowerASCII d \<in> lowerASCII ` set ds)"
proof -
  have "lowerASCII d \<in> lowerASCII ` set ds \<longleftrightarrow> (\<exists>e \<in> set ds. lowerASCII e = lowerASCII d)"
    by (metis image_iff)
  then show ?thesis
    by (simp add: pol.check_None Allows_NewSenderPolicy Address_Domain_at [OF assms])
qed

theorem policy_exact_witness:
  "Check (NewSenderPolicy [''Example.com'']) \<lparr>Name = [], Addr = ''bob'' @ CHR ''@'' # ''eXample.COM''\<rparr> = None
   \<and> Check (NewSenderPolicy [''example.com'']) \<lparr>Name = [], Addr = ''bob'' @ CHR ''@'' # ''a.example.com''\<rparr> \<noteq> None"
proof -
  have "lowerASCII ''eXample.COM'' \<in> lowerASCII ` set [''Example.com'']"
    and "lowerASCII ''a.example.com'' \<notin> lowerASCII ` set [''example.com'']"
    by code_simp+
  then show ?thesis
    using policy_exact [of "''eXample.COM''" "[''Example.com'']" "[]" "''bob''"]
      policy_exact [of "''a.example.com''" "[''example.com'']" "[]" "''bob''"]
    by simp
qed

end
