(* ===== verification/Logging.thy ===== *)
theory Logging
  imports Email_Errors
begin

text \<open>
  \<^verbatim>\<open>internal/logging\<close>: the level of a logger and the one structured record that is
  emitted per handled message. A logger is its threshold; what it has written is a list of
  records, threaded through.
\<close>

section \<open>Levels (\<^verbatim>\<open>logging.go\<close>)\<close>

datatype log_level = LevelDebug | LevelInfo | LevelWarn | LevelError

fun level_int :: "log_level \<Rightarrow> int" where
  "level_int LevelDebug = - 4"
| "level_int LevelInfo = 0"
| "level_int LevelWarn = 4"
| "level_int LevelError = 8"

lemma level_int_inj: "level_int a = level_int b \<longleftrightarrow> a = b"
  by (cases a; cases b) simp_all

instantiation log_level :: linorder
begin

definition less_eq_log_level :: "log_level \<Rightarrow> log_level \<Rightarrow> bool" where
  "less_eq_log_level a b \<longleftrightarrow> level_int a \<le> level_int b"

definition less_log_level :: "log_level \<Rightarrow> log_level \<Rightarrow> bool" where
  "less_log_level a b \<longleftrightarrow> level_int a < level_int b"

instance
  by standard (auto simp: less_eq_log_level_def less_log_level_def simp flip: level_int_inj)

end

definition parseLevel :: "unicode \<Rightarrow> string \<Rightarrow> gerror + log_level" where
  "parseLevel U level =
     (let l = toLower U level in
      if l = ''debug'' then Inr LevelDebug
      else if l = ''info'' then Inr LevelInfo
      else if l = ''warn'' then Inr LevelWarn
      else if l = ''error'' then Inr LevelError
      else Inl (ErrNew (''logging: unknown level '' @ goQuote U level
             @ '', expected one of debug, info, warn, error'')))"

record logger =
  lg_level :: log_level

definition New_logger :: "unicode \<Rightarrow> string \<Rightarrow> gerror + logger" where
  "New_logger U level =
     (case parseLevel U level of Inl err \<Rightarrow> Inl err | Inr lvl \<Rightarrow> Inr \<lparr>lg_level = lvl\<rparr>)"

section \<open>Records\<close>

text \<open>A slice of strings that may be nil is an option: a nil slice is logged as null, an empty one as [].\<close>

datatype attr =
    AString string
  | AStrings "string list option"
  | AInt int
  | ADuration int
  | ABool bool

record log_record =
  rec_level :: log_level
  rec_msg :: string
  rec_attrs :: "(string \<times> attr) list"

text \<open>\<^verbatim>\<open>logger.Log\<close>: the handler drops what is below its level.\<close>

definition logger_Log ::
  "logger \<Rightarrow> log_level \<Rightarrow> string \<Rightarrow> (string \<times> attr) list \<Rightarrow> log_record list \<Rightarrow> log_record list"
where
  "logger_Log lg lvl msg attrs out =
     (if lg_level lg \<le> lvl then out @ [\<lparr>rec_level = lvl, rec_msg = msg, rec_attrs = attrs\<rparr>] else out)"

section \<open>Deliveries (\<^verbatim>\<open>delivery.go\<close>)\<close>

definition maxSubjectRunes :: nat where
  "maxSubjectRunes = 120"

record delivery =
  MessageID :: string
  D_RFCMessageID :: string
  D_From :: string
  D_To :: "string list option"          \<comment> \<open>None for a nil slice\<close>
  D_Subject :: string
  Result :: string
  Duration :: int
  D_HTTPStatus :: int
  D_ProviderCode :: int
  D_Attempts :: int
  D_Err :: "gerror option"

definition ellipsis :: rune where
  "ellipsis = 0x2026"

definition TruncateSubject :: "string \<Rightarrow> nat \<Rightarrow> string" where
  "TruncateSubject s limit =
     (let rs = runes s
      in if length rs \<le> limit then s else encode (take limit rs) @ encode_rune ellipsis)"

definition levelForResult :: "string \<Rightarrow> log_level" where
  "levelForResult result =
     (if result = ''deferred'' then LevelWarn
      else if result = ''rejected'' then LevelError
      else LevelInfo)"

text \<open>\<^verbatim>\<open>d.Milliseconds()\<close>: division that truncates towards zero.\<close>

definition milliseconds :: "int \<Rightarrow> int" where
  "milliseconds d = (if d < 0 then - ((- d) div 1000000) else d div 1000000)"

definition delivery_attrs :: "delivery \<Rightarrow> (string \<times> attr) list" where
  "delivery_attrs d =
     [(''message_id'', AString (MessageID d)), (''from'', AString (D_From d)),
      (''to'', AStrings (D_To d)),
      (''subject'', AString (TruncateSubject (D_Subject d) maxSubjectRunes)),
      (''result'', AString (Result d)), (''duration_ms'', AInt (milliseconds (Duration d))),
      (''attempts'', AInt (D_Attempts d))]
     @ (if D_RFCMessageID d \<noteq> [] then [(''rfc_message_id'', AString (D_RFCMessageID d))] else [])
     @ (if D_HTTPStatus d \<noteq> 0 then [(''http_status'', AInt (D_HTTPStatus d))] else [])
     @ (if D_ProviderCode d \<noteq> 0 then [(''provider_code'', AInt (D_ProviderCode d))] else [])
     @ (case D_Err d of None \<Rightarrow> [] | Some e \<Rightarrow> [(''error'', AString (errorText e))])"

definition LogDelivery :: "logger \<Rightarrow> delivery \<Rightarrow> log_record list \<Rightarrow> log_record list" where
  "LogDelivery lg d out =
     logger_Log lg (levelForResult (Result d)) ''message delivery handled'' (delivery_attrs d) out"

section \<open>Truncation never splits a rune\<close>

lemma ellipsis_valid: "valid_rune ellipsis"
  by (simp add: valid_rune_def ellipsis_def)

lemma encode_append: "encode (rs @ ss) = encode rs @ encode ss"
  by (simp add: encode_def)

lemma runes_TruncateSubject:
  "runes (TruncateSubject s n) =
     (if length (runes s) \<le> n then runes s else take n (runes s) @ [ellipsis])"
proof (cases "length (runes s) \<le> n")
  case False
  have "\<forall>r \<in> set (take n (runes s) @ [ellipsis]). valid_rune r"
    using ellipsis_valid by (auto dest: in_set_takeD runes_valid)
  from runes_encode [OF this] False show ?thesis
    by (simp add: TruncateSubject_def Let_def encode_append encode_def)
qed (simp add: TruncateSubject_def Let_def)

text \<open>
  Truncating a subject works on whole characters, for any bytes: the characters of the
  result are those of the subject when there are at most \<open>n\<close>, and otherwise its first \<open>n\<close>
  followed by one ellipsis, so a multi-byte character is never cut in two and the result has
  at most \<open>n + 1\<close> characters.
\<close>

lemma truncate_keeps_runes:
  "runes (TruncateSubject s n) =
     (if length (runes s) \<le> n then runes s else take n (runes s) @ [ellipsis])
   \<and> length (runes (TruncateSubject s n)) \<le> Suc n"
  by (simp add: runes_TruncateSubject)

section \<open>What a record holds\<close>

lemma LogDelivery_emits:
  "lg_level lg \<le> levelForResult (Result d) \<Longrightarrow>
     LogDelivery lg d out = out @ [\<lparr>rec_level = levelForResult (Result d),
       rec_msg = ''message delivery handled'', rec_attrs = delivery_attrs d\<rparr>]"
  by (simp add: LogDelivery_def logger_Log_def)

lemma LogDelivery_drops:
  "\<not> lg_level lg \<le> levelForResult (Result d) \<Longrightarrow> LogDelivery lg d out = out"
  by (simp add: LogDelivery_def logger_Log_def)

lemma levelForResult_simps [simp]:
  "levelForResult ''sent'' = LevelInfo" "levelForResult ''deferred'' = LevelWarn"
  "levelForResult ''rejected'' = LevelError"
  by (simp_all add: levelForResult_def)

lemma log_level_le [simp]:
  "LevelDebug \<le> l" "l \<le> LevelError" "LevelInfo \<le> l \<longleftrightarrow> l \<noteq> LevelDebug"
  "LevelWarn \<le> l \<longleftrightarrow> l = LevelWarn \<or> l = LevelError"
  "LevelError \<le> l \<longleftrightarrow> l = LevelError"
  by (cases l; simp add: less_eq_log_level_def)+

text \<open>
  The record of a delivery has the seven attributes it always has, in order, and the four
  optional ones exactly when they are set; each name occurs once, and the subject is the
  truncated one.
\<close>

lemma delivery_record_attributes:
  "map fst (delivery_attrs d) =
     [''message_id'', ''from'', ''to'', ''subject'', ''result'', ''duration_ms'', ''attempts'']
     @ filter (\<lambda>k. if k = ''rfc_message_id'' then D_RFCMessageID d \<noteq> []
         else if k = ''http_status'' then D_HTTPStatus d \<noteq> 0
         else if k = ''provider_code'' then D_ProviderCode d \<noteq> 0
         else D_Err d \<noteq> None)
       [''rfc_message_id'', ''http_status'', ''provider_code'', ''error'']
   \<and> distinct (map fst (delivery_attrs d))
   \<and> map_of (delivery_attrs d) ''subject'' = Some (AString (TruncateSubject (D_Subject d) 120))
   \<and> map_of (delivery_attrs d) ''error'' = map_option (\<lambda>e. AString (errorText e)) (D_Err d)"
  by (auto simp: delivery_attrs_def maxSubjectRunes_def split: option.split)

text \<open>
  The configured level is a threshold on outcomes: a logger built for \<open>level\<close> writes
  exactly one record for a rejected delivery at every level, one for a deferred delivery
  unless the level is \<^verbatim>\<open>error\<close>, and one for a sent message only at
  \<^verbatim>\<open>debug\<close> and \<^verbatim>\<open>info\<close>.
\<close>

lemma log_threshold:
  assumes "New_logger U level = Inr lg"
  shows "(length (LogDelivery lg d out) = length out + 1 \<longleftrightarrow>
      (if Result d = ''rejected'' then True
       else if Result d = ''deferred'' then toLower U level \<noteq> ''error''
       else toLower U level \<in> {''debug'', ''info''}))
    \<and> take (length out) (LogDelivery lg d out) = out
    \<and> length (LogDelivery lg d out) \<le> length out + 1"
  using assms
  by (auto simp: New_logger_def parseLevel_def Let_def LogDelivery_def logger_Log_def levelForResult_def
      split: if_splits sum.splits)

definition example_delivery :: delivery where
  "example_delivery =
     \<lparr>MessageID = ''id1'', D_RFCMessageID = [], D_From = ''s@y.org'', D_To = Some [''a@x.org''],
      D_Subject = ''hi'', Result = ''sent'', Duration = 7000000, D_HTTPStatus = 200,
      D_ProviderCode = 0, D_Attempts = 1, D_Err = None\<rparr>"

end
