(* ===== verification/Smtp_Options.thy ===== *)
theory Smtp_Options
  imports Email_Policy Logging
begin

text \<open>
  \<^verbatim>\<open>internal/smtpserver/options.go\<close> and \<^verbatim>\<open>server.go\<close>: the options of
  the SMTP server, their validation, and the \<^verbatim>\<open>go-smtp\<close> server built from them. A
  pointer, interface or function field that may be nil is an option. \<open>effective\<close> is an
  Options value after \<^verbatim>\<open>validate\<close>, in which those fields are set.
\<close>

record tls_config =
  Certificates :: "string list"
  MinVersion :: int

record 'w options =
  opt_Addr :: string
  opt_Domain :: string
  opt_Username :: string
  opt_Password :: string
  opt_MaxMessageBytes :: int
  opt_MaxRecipients :: int
  opt_ReadTimeout :: int
  opt_WriteTimeout :: int
  opt_TLSConfig :: "tls_config option"
  opt_Policy :: "sender_policy option"
  opt_Sender :: "'w send_fun option"
  opt_Logger :: "logger option"
  opt_NewID :: "('w \<Rightarrow> string \<times> 'w) option"
  opt_Now :: "('w \<Rightarrow> int \<times> 'w) option"

record 'w effective =
  ef_Addr :: string
  ef_Domain :: string
  ef_Username :: string
  ef_Password :: string
  ef_MaxMessageBytes :: int
  ef_MaxRecipients :: int
  ef_ReadTimeout :: int
  ef_WriteTimeout :: int
  ef_TLSConfig :: "tls_config option"
  ef_Policy :: sender_policy
  ef_Sender :: "'w send_fun"
  ef_Logger :: logger
  ef_NewID :: "'w \<Rightarrow> string \<times> 'w"
  ef_Now :: "'w \<Rightarrow> int \<times> 'w"

text \<open>\<^verbatim>\<open>slog.Default\<close>, \<^verbatim>\<open>uuid.NewString\<close> and \<^verbatim>\<open>time.Now\<close>\<close>

record 'w defaults =
  slog_Default :: logger
  uuid_NewString :: "'w \<Rightarrow> string \<times> 'w"
  time_Now :: "'w \<Rightarrow> int \<times> 'w"

definition defaultDomain :: string where
  "defaultDomain = ''localhost''"

definition ErrSenderRequired :: gerror where
  "ErrSenderRequired = ErrNew ''smtpserver: Sender is required''"
definition ErrUsernameRequired :: gerror where
  "ErrUsernameRequired = ErrNew ''smtpserver: Username is required''"
definition ErrPasswordRequired :: gerror where
  "ErrPasswordRequired = ErrNew ''smtpserver: Password is required''"
definition ErrMaxMessageBytesInvalid :: gerror where
  "ErrMaxMessageBytesInvalid = ErrNew ''smtpserver: MaxMessageBytes must be positive''"
definition ErrMaxRecipientsInvalid :: gerror where
  "ErrMaxRecipientsInvalid = ErrNew ''smtpserver: MaxRecipients must be positive''"

definition orElse :: "'a option \<Rightarrow> 'a \<Rightarrow> 'a" where
  "orElse x d = (case x of Some v \<Rightarrow> v | None \<Rightarrow> d)"

definition validate :: "'w defaults \<Rightarrow> 'w options \<Rightarrow> gerror + 'w effective" where
  "validate df opts =
     (case opt_Sender opts of
        None \<Rightarrow> Inl ErrSenderRequired
      | Some send \<Rightarrow>
          if opt_Username opts = [] then Inl ErrUsernameRequired
          else if opt_Password opts = [] then Inl ErrPasswordRequired
          else if opt_MaxMessageBytes opts \<le> 0 then Inl ErrMaxMessageBytesInvalid
          else if opt_MaxRecipients opts \<le> 0 then Inl ErrMaxRecipientsInvalid
          else Inr \<lparr>ef_Addr = opt_Addr opts,
                    ef_Domain = (if opt_Domain opts = [] then defaultDomain else opt_Domain opts),
                    ef_Username = opt_Username opts, ef_Password = opt_Password opts,
                    ef_MaxMessageBytes = opt_MaxMessageBytes opts,
                    ef_MaxRecipients = opt_MaxRecipients opts,
                    ef_ReadTimeout = opt_ReadTimeout opts, ef_WriteTimeout = opt_WriteTimeout opts,
                    ef_TLSConfig = opt_TLSConfig opts,
                    ef_Policy = orElse (opt_Policy opts) (NewSenderPolicy []),
                    ef_Sender = send,
                    ef_Logger = orElse (opt_Logger opts) (slog_Default df),
                    ef_NewID = orElse (opt_NewID opts) (uuid_NewString df),
                    ef_Now = orElse (opt_Now opts) (time_Now df)\<rparr>)"

text \<open>The fields of \<^verbatim>\<open>gosmtp.Server\<close> that \<^verbatim>\<open>New\<close> sets.\<close>

record 'w smtp_server =
  sv_backend :: "'w effective"
  sv_Addr :: string
  sv_Domain :: string
  sv_MaxMessageBytes :: int
  sv_MaxRecipients :: int
  sv_ReadTimeout :: int
  sv_WriteTimeout :: int
  sv_TLSConfig :: "tls_config option"
  sv_AllowInsecureAuth :: bool

definition New_server :: "'w defaults \<Rightarrow> 'w options \<Rightarrow> gerror + 'w smtp_server" where
  "New_server df opts =
     (case validate df opts of
        Inl err \<Rightarrow> Inl err
      | Inr e \<Rightarrow>
          Inr \<lparr>sv_backend = e, sv_Addr = ef_Addr e, sv_Domain = ef_Domain e,
               sv_MaxMessageBytes = ef_MaxMessageBytes e, sv_MaxRecipients = ef_MaxRecipients e,
               sv_ReadTimeout = ef_ReadTimeout e, sv_WriteTimeout = ef_WriteTimeout e,
               sv_TLSConfig = ef_TLSConfig e,
               sv_AllowInsecureAuth = (ef_TLSConfig e = None)\<rparr>)"

lemma validate_ok:
  assumes "validate df opts = Inr e"
  shows "opt_Sender opts = Some (ef_Sender e) \<and> ef_Username e = opt_Username opts \<and> ef_Username e \<noteq> []
    \<and> ef_Password e = opt_Password opts \<and> ef_Password e \<noteq> [] \<and> 0 < ef_MaxMessageBytes e
    \<and> ef_MaxMessageBytes e = opt_MaxMessageBytes opts \<and> ef_MaxRecipients e = opt_MaxRecipients opts
    \<and> 0 < ef_MaxRecipients e \<and> ef_Domain e \<noteq> [] \<and> ef_TLSConfig e = opt_TLSConfig opts
    \<and> ef_Policy e = orElse (opt_Policy opts) (NewSenderPolicy [])"
  using assms by (auto simp: validate_def defaultDomain_def split: option.splits if_splits)

text \<open>
  A server is built if and only if a sender, both credentials and positive limits are
  given. Its limits are those of the options, its credentials are never empty, and
  authentication without TLS is offered exactly when no TLS configuration is present.
\<close>

lemma server_options_checked:
  "(case New_server df opts of
      Inl err \<Rightarrow>
        opt_Sender opts = None \<or> opt_Username opts = [] \<or> opt_Password opts = []
        \<or> opt_MaxMessageBytes opts \<le> 0 \<or> opt_MaxRecipients opts \<le> 0
    | Inr sv \<Rightarrow>
        opt_Sender opts = Some (ef_Sender (sv_backend sv))
        \<and> ef_Username (sv_backend sv) = opt_Username opts \<and> opt_Username opts \<noteq> []
        \<and> ef_Password (sv_backend sv) = opt_Password opts \<and> opt_Password opts \<noteq> []
        \<and> sv_MaxMessageBytes sv = opt_MaxMessageBytes opts \<and> 0 < opt_MaxMessageBytes opts
        \<and> sv_MaxRecipients sv = opt_MaxRecipients opts \<and> 0 < opt_MaxRecipients opts
        \<and> (sv_AllowInsecureAuth sv \<longleftrightarrow> opt_TLSConfig opts = None))"
  by (simp add: New_server_def validate_def split: option.split)

end
