(* ===== verification/Email_Parse.thy ===== *)
theory Email_Parse
  imports Email_Message "HOL-Library.AList"
begin

text \<open>
  \<^verbatim>\<open>internal/email/parse.go\<close>: from the raw message and the SMTP envelope to a
  \<open>message\<close>. The MIME reader is the package \<^verbatim>\<open>go-message\<close>: what its calls
  return for one message is the record \<open>mail_reader\<close>, an argument of the definitions.
\<close>

section \<open>The MIME reader\<close>

record header_field =
  hf_key :: string                    \<comment> \<open>\<^verbatim>\<open>fields.Key()\<close>\<close>
  hf_text :: "gerror + string"        \<comment> \<open>\<^verbatim>\<open>fields.Text()\<close>\<close>
  hf_value :: string                  \<comment> \<open>\<^verbatim>\<open>fields.Value()\<close>\<close>

datatype part_header =
    InlineHeader (content_type: string)
  | AttachmentHeader

record part =
  pt_header :: part_header
  pt_body :: "gerror + string"        \<comment> \<open>\<^verbatim>\<open>io.ReadAll(part.Body)\<close>\<close>

text \<open>
  \<open>rd_parts\<close> are the successive results of \<^verbatim>\<open>NextPart\<close>, a part and an error
  each of which may be nil; after the last one it returns \<^verbatim>\<open>io.EOF\<close>. That a reader
  of a finite message comes to its end is what the model relies on of the package.
\<close>

record mail_reader =
  rd_subject :: "gerror + string"
  rd_message_id :: "gerror + string"
  rd_text :: "string \<Rightarrow> gerror + string"
  rd_get :: "string \<Rightarrow> string"
  rd_address_list :: "string \<Rightarrow> gerror + address list"
  rd_fields :: "header_field list"
  rd_parts :: "(part option \<times> gerror option) list"

section \<open>Header fields\<close>

definition excludedHeaders :: "string set" where
  "excludedHeaders = set
     [''from'', ''to'', ''cc'', ''bcc'', ''subject'', ''message-id'', ''reply-to'', ''date'',
      ''mime-version'', ''content-type'', ''content-transfer-encoding'', ''content-disposition'',
      ''received'', ''return-path'']"

definition resolveFrom :: "unicode \<Rightarrow> mail_reader \<Rightarrow> string \<Rightarrow> address" where
  "resolveFrom U r envelopeFrom =
     (let from = \<lparr>Name = [], Addr = trimSpace envelopeFrom\<rparr> in
      case rd_address_list r ''From'' of
        Inl _ \<Rightarrow> from
      | Inr [] \<Rightarrow> from
      | Inr (headerFrom # _) \<Rightarrow>
          if equalFold U (Addr headerFrom) (Addr from) then from\<lparr>Name := Name headerFrom\<rparr>
          else from)"

definition headerAddresses :: "mail_reader \<Rightarrow> string \<Rightarrow> address list" where
  "headerAddresses r key =
     (case rd_address_list r key of
        Inl _ \<Rightarrow> []
      | Inr addrs \<Rightarrow> map (\<lambda>a. \<lparr>Name = Name a, Addr = Addr a\<rparr>) addrs)"

definition field_value :: "header_field \<Rightarrow> string" where
  "field_value f = (case hf_text f of Inr v \<Rightarrow> v | Inl _ \<Rightarrow> hf_value f)"

fun extract_loop ::
  "unicode \<Rightarrow> header_field list \<Rightarrow> (string \<times> string) list \<Rightarrow> (string \<times> string) list"
where
  "extract_loop U [] out = out"
| "extract_loop U (f # fs) out =
     (if toLower U (hf_key f) \<in> excludedHeaders then extract_loop U fs out
      else extract_loop U fs (AList.update (hf_key f) (field_value f) out))"

definition extractHeaders :: "unicode \<Rightarrow> mail_reader \<Rightarrow> (string \<times> string) list" where
  "extractHeaders U r = extract_loop U (rd_fields r) []"

section \<open>Recipients\<close>

definition rcpt_key :: "unicode \<Rightarrow> string \<Rightarrow> string" where
  "rcpt_key U r = toLower U (trimSpace r)"

definition rcpt_addr :: "string \<Rightarrow> address" where
  "rcpt_addr r = \<lparr>Name = [], Addr = trimSpace r\<rparr>"

definition addr_key :: "unicode \<Rightarrow> address \<Rightarrow> string" where
  "addr_key U a = toLower U (Addr a)"

definition envelopeSet :: "unicode \<Rightarrow> string list \<Rightarrow> string set" where
  "envelopeSet U envelopeRcpts = set (filter (\<lambda>k. k \<noteq> []) (map (rcpt_key U) envelopeRcpts))"

definition splitRecipients ::
  "unicode \<Rightarrow> address list \<Rightarrow> address list \<Rightarrow> string list \<Rightarrow>
     address list \<times> address list \<times> address list"
where
  "splitRecipients U headerTo headerCc envelopeRcpts =
     (let env = envelopeSet U envelopeRcpts in
      if headerTo = [] \<and> headerCc = [] then
        (fst (assign_loop (rcpt_key U) rcpt_addr (\<lambda>_. True) envelopeRcpts {}), [], [])
      else
        (case assign_loop (addr_key U) (\<lambda>a. a) (\<lambda>k. k \<in> env) headerTo {} of
           (to, assigned1) \<Rightarrow>
         (case assign_loop (addr_key U) (\<lambda>a. a) (\<lambda>k. k \<in> env) headerCc assigned1 of
           (cc, assigned2) \<Rightarrow>
         (case assign_loop (rcpt_key U) rcpt_addr (\<lambda>_. True) envelopeRcpts assigned2 of
           (bcc, _) \<Rightarrow> (to, cc, bcc)))))"

section \<open>The body\<close>

definition part_fatal :: "gerror option \<Rightarrow> bool" where
  "part_fatal err =
     (case err of None \<Rightarrow> False
      | Some e \<Rightarrow> \<not> errorsIs e UnknownCharset \<and> \<not> errorsIs e UnknownEncoding)"

definition store_part :: "string \<Rightarrow> string \<Rightarrow> message \<Rightarrow> message" where
  "store_part contentType body msg =
     (if hasPrefix contentType ''text/plain'' then msg\<lparr>Text := body\<rparr>
      else if hasPrefix contentType ''text/html'' then msg\<lparr>HTML := body\<rparr>
      else msg)"

fun readBodyParts :: "(part option \<times> gerror option) list \<Rightarrow> message \<Rightarrow> gerror + message" where
  "readBodyParts [] msg = Inr msg"
| "readBodyParts ((p, err) # rest) msg =
     (if part_fatal err then Inl (ErrWrap ''email: parse message body: '' (the err) [])
      else
        (case p of
           None \<Rightarrow> readBodyParts rest msg
         | Some prt \<Rightarrow>
             (case pt_header prt of
                AttachmentHeader \<Rightarrow> readBodyParts rest msg
              | InlineHeader contentType \<Rightarrow>
                  (case pt_body prt of
                     Inl rerr \<Rightarrow> Inl (ErrWrap ''email: read message part: '' rerr [])
                   | Inr body \<Rightarrow> readBodyParts rest (store_part contentType body msg)))))"

section \<open>\<^verbatim>\<open>Parse\<close>\<close>

text \<open>
  \<open>create_reader raw\<close> is \<^verbatim>\<open>emmail.CreateReader\<close>: the reader counts only when the
  error is nil or an unknown charset. \<open>now\<close> is \<^verbatim>\<open>time.Now().UTC()\<close>.
\<close>

definition create_fatal :: "gerror option \<Rightarrow> bool" where
  "create_fatal err = (case err of None \<Rightarrow> False | Some e \<Rightarrow> \<not> errorsIs e UnknownCharset)"

definition header_message :: "unicode \<Rightarrow> mail_reader \<Rightarrow> int \<Rightarrow> string \<Rightarrow> string \<Rightarrow> string list \<Rightarrow> message" where
  "header_message U r now raw envelopeFrom envelopeRcpts =
     (case splitRecipients U (headerAddresses r ''To'') (headerAddresses r ''Cc'') envelopeRcpts of
        (to, cc, bcc) \<Rightarrow>
          \<lparr>ID = [],
           RFCMessageID = (case rd_message_id r of Inr i \<Rightarrow> i | Inl _ \<Rightarrow> []),
           From = resolveFrom U r envelopeFrom,
           To = to, Cc = cc, Bcc = bcc,
           ReplyTo = (case rd_text r ''Reply-To'' of Inr t \<Rightarrow> t | Inl _ \<Rightarrow> rd_get r ''Reply-To''),
           Subject = (case rd_subject r of Inr s \<Rightarrow> s | Inl _ \<Rightarrow> rd_get r ''Subject''),
           Text = [], HTML = [],
           Headers = extractHeaders U r,
           Size = int (length raw), ReceivedAt = now\<rparr>)"

definition Parse ::
  "unicode \<Rightarrow> (string \<Rightarrow> mail_reader \<times> gerror option) \<Rightarrow> int \<Rightarrow> string \<Rightarrow> string \<Rightarrow> string list \<Rightarrow>
     gerror + message"
where
  "Parse U create_reader now raw envelopeFrom envelopeRcpts =
     (case create_reader raw of
        (r, err) \<Rightarrow>
          if create_fatal err then Inl (ErrWrap ''email: parse message: '' (the err) [])
          else readBodyParts (rd_parts r) (header_message U r now raw envelopeFrom envelopeRcpts))"

section \<open>Recipient splitting: the specification on sets of keys\<close>

text \<open>
  The abstract contract: which keys go where, as sets. \<open>E\<close> are the envelope's keys,
  \<open>T\<close> and \<open>C\<close> the non-empty keys of the two headers.
\<close>

definition header_keys :: "unicode \<Rightarrow> address list \<Rightarrow> string set" where
  "header_keys U as = addr_key U ` set as - {[]}"

definition split_spec :: "bool \<Rightarrow> string set \<Rightarrow> string set \<Rightarrow> string set \<Rightarrow> string set \<times> string set \<times> string set" where
  "split_spec bare E T C =
     (if bare then (E, {}, {}) else (E \<inter> T, (E \<inter> C) - T, E - (T \<union> C)))"

lemma addr_key_rcpt_addr [simp]: "addr_key U (rcpt_addr r) = rcpt_key U r"
  by (simp add: addr_key_def rcpt_addr_def rcpt_key_def)

lemma loop_keys_env: "loop_keys (rcpt_key U) (\<lambda>_. True) rs = envelopeSet U rs"
  by (auto simp: loop_keys_def envelopeSet_def)

lemma loop_keys_header: "loop_keys (addr_key U) (\<lambda>k. k \<in> env) as = header_keys U as \<inter> env"
  by (auto simp: loop_keys_def header_keys_def)

lemma envelopeSet_nonempty: "k \<in> envelopeSet U rs \<Longrightarrow> k \<noteq> []"
  by (simp add: envelopeSet_def)

definition keys_of :: "unicode \<Rightarrow> address list \<Rightarrow> string set" where
  "keys_of U as = set (map (addr_key U) as)"

lemma header_loop:
  "distinct (map (addr_key U) (fst (assign_loop (addr_key U) (\<lambda>a. a) (\<lambda>k. k \<in> env) as assigned)))"
  "keys_of U (fst (assign_loop (addr_key U) (\<lambda>a. a) (\<lambda>k. k \<in> env) as assigned)) =
     header_keys U as \<inter> env - assigned"
  using assign_loop_output [of "addr_key U" "\<lambda>a. a" "addr_key U" "\<lambda>k. k \<in> env" as assigned]
  by (simp_all add: keys_of_def loop_keys_header)

lemma rcpt_loop:
  "distinct (map (addr_key U) (fst (assign_loop (rcpt_key U) rcpt_addr (\<lambda>_. True) rs assigned)))"
  "keys_of U (fst (assign_loop (rcpt_key U) rcpt_addr (\<lambda>_. True) rs assigned)) =
     envelopeSet U rs - assigned"
  using assign_loop_output [of "addr_key U" rcpt_addr "rcpt_key U" "\<lambda>_. True" rs assigned]
  by (simp_all add: keys_of_def loop_keys_env)

text \<open>The three lists in terms of their loops, the sets of assigned keys computed.\<close>

lemma splitRecipients_headed:
  assumes "headerTo \<noteq> [] \<or> headerCc \<noteq> []"
  shows "splitRecipients U headerTo headerCc rs =
    (let E = envelopeSet U rs; T = header_keys U headerTo \<inter> E; C = header_keys U headerCc \<inter> E in
     (fst (assign_loop (addr_key U) (\<lambda>a. a) (\<lambda>k. k \<in> E) headerTo {}),
      fst (assign_loop (addr_key U) (\<lambda>a. a) (\<lambda>k. k \<in> E) headerCc T),
      fst (assign_loop (rcpt_key U) rcpt_addr (\<lambda>_. True) rs (T \<union> C))))"
  using assms assign_loop_assigned [of "addr_key U" "\<lambda>a. a" "\<lambda>k. k \<in> envelopeSet U rs" headerTo "{}"]
    assign_loop_assigned [of "addr_key U" "\<lambda>a. a" "\<lambda>k. k \<in> envelopeSet U rs" headerCc
      "header_keys U headerTo \<inter> envelopeSet U rs"]
  by (auto simp: splitRecipients_def Let_def loop_keys_header case_prod_beta)

lemma splitRecipients_bare:
  "splitRecipients U [] [] rs =
     (fst (assign_loop (rcpt_key U) rcpt_addr (\<lambda>_. True) rs {}), [], [])"
  by (simp add: splitRecipients_def Let_def)

lemma splitRecipients_spec:
  assumes "splitRecipients U headerTo headerCc rs = (to, cc, bcc)"
  shows "(keys_of U to, keys_of U cc, keys_of U bcc) =
      split_spec (headerTo = [] \<and> headerCc = []) (envelopeSet U rs)
        (header_keys U headerTo) (header_keys U headerCc)"
    and "distinct (map (addr_key U) (to @ cc @ bcc))"
proof -
  let ?E = "envelopeSet U rs"
  let ?T = "header_keys U headerTo \<inter> ?E" and ?C = "header_keys U headerCc \<inter> ?E"
  have "(keys_of U to, keys_of U cc, keys_of U bcc) =
      split_spec (headerTo = [] \<and> headerCc = []) ?E (header_keys U headerTo) (header_keys U headerCc)
    \<and> distinct (map (addr_key U) (to @ cc @ bcc))"
  proof (cases "headerTo = [] \<and> headerCc = []")
    case True
    with assms show ?thesis
      using rcpt_loop [of U rs "{}"] by (auto simp: splitRecipients_bare split_spec_def keys_of_def)
  next
    case False
    then have out: "to = fst (assign_loop (addr_key U) (\<lambda>a. a) (\<lambda>k. k \<in> ?E) headerTo {})"
      "cc = fst (assign_loop (addr_key U) (\<lambda>a. a) (\<lambda>k. k \<in> ?E) headerCc ?T)"
      "bcc = fst (assign_loop (rcpt_key U) rcpt_addr (\<lambda>_. True) rs (?T \<union> ?C))"
      using assms splitRecipients_headed [of headerTo headerCc U rs] by (auto simp: Let_def)
    have "distinct (map (addr_key U) to) \<and> keys_of U to = ?T"
      and "distinct (map (addr_key U) cc) \<and> keys_of U cc = ?C - ?T"
      and "distinct (map (addr_key U) bcc) \<and> keys_of U bcc = ?E - (?T \<union> ?C)"
      using header_loop [of U ?E headerTo "{}"] header_loop [of U ?E headerCc ?T]
        rcpt_loop [of U rs "?T \<union> ?C"] by (simp_all add: out)
    with False show ?thesis
      by (auto simp: split_spec_def keys_of_def)
  qed
  then show "(keys_of U to, keys_of U cc, keys_of U bcc) =
      split_spec (headerTo = [] \<and> headerCc = []) ?E (header_keys U headerTo) (header_keys U headerCc)"
    and "distinct (map (addr_key U) (to @ cc @ bcc))" by blast+
qed

section \<open>Specification of the body loop\<close>

text \<open>The error, the plain text and the HTML that one result of \<open>NextPart\<close> contributes.\<close>

definition event_error :: "part option \<times> gerror option \<Rightarrow> gerror option" where
  "event_error ev =
     (if part_fatal (snd ev) then Some (ErrWrap ''email: parse message body: '' (the (snd ev)) [])
      else (case map_option (\<lambda>prt. (pt_header prt, pt_body prt)) (fst ev) of
              Some (InlineHeader _, Inl rerr) \<Rightarrow>
                Some (ErrWrap ''email: read message part: '' rerr [])
            | _ \<Rightarrow> None))"

definition event_body :: "string \<Rightarrow> part option \<times> gerror option \<Rightarrow> string option" where
  "event_body prefix ev =
     (case map_option (\<lambda>prt. (pt_header prt, pt_body prt)) (fst ev) of
        Some (InlineHeader ct, Inr body) \<Rightarrow> if hasPrefix ct prefix then Some body else None
      | _ \<Rightarrow> None)"

fun first_error :: "(part option \<times> gerror option) list \<Rightarrow> gerror option" where
  "first_error [] = None"
| "first_error (ev # evs) = (case event_error ev of Some e \<Rightarrow> Some e | None \<Rightarrow> first_error evs)"

definition last_body :: "string \<Rightarrow> (part option \<times> gerror option) list \<Rightarrow> string \<Rightarrow> string" where
  "last_body prefix evs d = last (d # List.map_filter (event_body prefix) evs)"

lemma hasPrefix_nth: "hasPrefix s p \<Longrightarrow> i < length p \<Longrightarrow> s ! i = p ! i"
  unfolding hasPrefix_def by (metis nth_take)

lemma text_prefixes_disjoint: "hasPrefix ct ''text/plain'' \<Longrightarrow> \<not> hasPrefix ct ''text/html''"
  using hasPrefix_nth [of ct "''text/plain''" 5] hasPrefix_nth [of ct "''text/html''" 5] by auto

lemma last_body_Nil: "last_body prefix [] d = d"
  by (simp add: last_body_def List.map_filter_simps)

lemma last_body_Cons:
  "last_body prefix (ev # evs) d =
     last_body prefix evs (case event_body prefix ev of Some b \<Rightarrow> b | None \<Rightarrow> d)"
  by (simp add: last_body_def List.map_filter_simps split: option.splits)

lemma readBodyParts_spec:
  "readBodyParts evs msg =
     (case first_error evs of
        Some e \<Rightarrow> Inl e
      | None \<Rightarrow> Inr (msg\<lparr>Text := last_body ''text/plain'' evs (Text msg),
                         HTML := last_body ''text/html'' evs (HTML msg)\<rparr>))"
proof (induction evs msg rule: readBodyParts.induct)
  case (1 msg)
  show ?case by (simp add: last_body_Nil)
next
  case (2 p err rest msg)
  show ?case
  proof (cases "part_fatal err")
    case True
    then show ?thesis by (simp add: event_error_def)
  next
    case nonfatal: False
    show ?thesis
    proof (cases p)
      case None
      with 2(1) nonfatal show ?thesis
        by (simp add: event_error_def event_body_def last_body_Cons split: option.splits)
    next
      case (Some prt)
      obtain h b where prt: "prt = \<lparr>pt_header = h, pt_body = b\<rparr>" by (cases prt)
      show ?thesis
        using 2(2,3) nonfatal Some prt text_prefixes_disjoint
        by (cases h; cases b)
          (auto simp: event_error_def event_body_def last_body_Cons store_part_def
            split: option.splits if_splits)
    qed
  qed
qed

section \<open>Parse\<close>

lemma header_message_simps [simp]:
  "From (header_message U r now raw ef rs) = resolveFrom U r ef"
  "Headers (header_message U r now raw ef rs) = extractHeaders U r"
  "(To (header_message U r now raw ef rs), Cc (header_message U r now raw ef rs),
    Bcc (header_message U r now raw ef rs)) =
     splitRecipients U (headerAddresses r ''To'') (headerAddresses r ''Cc'') rs"
  "Size (header_message U r now raw ef rs) = int (length raw)"
  "ID (header_message U r now raw ef rs) = []"
  by (simp_all add: header_message_def case_prod_beta)

lemma Parse_Inr:
  assumes "Parse U cr now raw ef rs = Inr m"
  obtains r t h where "r = fst (cr raw)" and "\<not> create_fatal (snd (cr raw))"
    and "first_error (rd_parts r) = None"
    and "m = (header_message U r now raw ef rs)\<lparr>Text := t, HTML := h\<rparr>"
  using assms
  by (auto simp: Parse_def readBodyParts_spec case_prod_beta split: if_splits option.splits)

text \<open>The fields of a parsed message that do not depend on the body.\<close>

lemma Parse_fields:
  assumes "Parse U cr now raw ef rs = Inr m"
  shows "From m = resolveFrom U (fst (cr raw)) ef"
    and "Headers m = extractHeaders U (fst (cr raw))"
    and "(To m, Cc m, Bcc m) = splitRecipients U (headerAddresses (fst (cr raw)) ''To'')
      (headerAddresses (fst (cr raw)) ''Cc'') rs"
    and "Size m = int (length raw)" and "ID m = []"
  using assms by (auto elim!: Parse_Inr)

lemma resolveFrom_Addr [simp]: "Addr (resolveFrom U r ef) = trimSpace ef"
  by (simp add: resolveFrom_def Let_def split: sum.splits list.splits)

lemma Parse_From: "Parse U cr now raw ef rs = Inr m \<Longrightarrow> Addr (From m) = trimSpace ef"
  by (simp add: Parse_fields(1))

lemma split_spec_union:
  "split_spec bare E T C = (A, B, D) \<Longrightarrow> A \<union> B \<union> D = E"
  by (auto simp: split_spec_def split: if_splits)

lemma keys_of_append [simp]: "keys_of U (xs @ ys) = keys_of U xs \<union> keys_of U ys"
  by (auto simp: keys_of_def)

lemma Parse_recipients:
  assumes "Parse U cr now raw ef rs = Inr m"
  shows "keys_of U (To m @ Cc m @ Bcc m) = envelopeSet U rs"
    and "distinct (map (addr_key U) (To m @ Cc m @ Bcc m))"
  using splitRecipients_spec [OF Parse_fields(3) [OF assms, symmetric]] split_spec_union
  by (auto simp: Un_assoc [symmetric])

lemma RecipientCount_le:
  assumes "Parse U cr now raw ef rs = Inr m"
  shows "RecipientCount m \<le> length rs"
proof -
  have "RecipientCount m = card (keys_of U (To m @ Cc m @ Bcc m))"
    using distinct_card [OF Parse_recipients(2) [OF assms]]
    by (simp add: RecipientCount_def keys_of_def)
  also have "\<dots> = card (envelopeSet U rs)" by (simp only: Parse_recipients(1) [OF assms])
  also have "\<dots> \<le> length (filter (\<lambda>k. k \<noteq> []) (map (rcpt_key U) rs))"
    unfolding envelopeSet_def by (rule card_length)
  also have "\<dots> \<le> length rs" using length_filter_le [of _ "map (rcpt_key U) rs"] by simp
  finally show ?thesis .
qed

section \<open>Preserved headers\<close>

definition kept_fields :: "unicode \<Rightarrow> header_field list \<Rightarrow> (string \<times> string) list" where
  "kept_fields U fs =
     map (\<lambda>f. (hf_key f, field_value f)) (filter (\<lambda>f. toLower U (hf_key f) \<notin> excludedHeaders) fs)"

lemma map_of_extract_loop:
  "map_of (extract_loop U fs out) = map_of out ++ map_of (rev (kept_fields U fs))"
  by (induction U fs out rule: extract_loop.induct)
    (auto simp: kept_fields_def update_conv fun_eq_iff map_add_def split: option.splits)

lemma distinct_extract_loop:
  "distinct (map fst out) \<Longrightarrow> distinct (map fst (extract_loop U fs out))"
  by (induction U fs out rule: extract_loop.induct) (simp_all add: distinct_update)

lemma map_of_extractHeaders: "map_of (extractHeaders U r) = map_of (rev (kept_fields U (rd_fields r)))"
  by (simp add: extractHeaders_def map_of_extract_loop)

lemma extractHeaders_keys:
  "(k, v) \<in> set (extractHeaders U r) \<Longrightarrow> toLower U k \<notin> excludedHeaders"
proof -
  assume "(k, v) \<in> set (extractHeaders U r)"
  then have "k \<in> fst ` set (extractHeaders U r)" by force
  then have "map_of (rev (kept_fields U (rd_fields r))) k \<noteq> None"
    using map_of_eq_None_iff [of "extractHeaders U r" k] by (simp add: map_of_extractHeaders)
  then show ?thesis
    using map_of_eq_None_iff [of "rev (kept_fields U (rd_fields r))" k]
    by (auto simp: kept_fields_def)
qed

section \<open>Properties\<close>

text \<open>
  C12. \<open>splitRecipients\<close> implements its set-level specification on every input: with
  at least one usable To or Cc address, To gets exactly the envelope keys named in the To
  header, Cc those named in Cc and not in To, Bcc those named in neither; with none, To gets
  all of them. No key occurs twice over the three lists.
\<close>

theorem splitRecipients_refines:
  "case splitRecipients U headerTo headerCc rs of (to, cc, bcc) \<Rightarrow>
     (keys_of U to, keys_of U cc, keys_of U bcc) =
       split_spec (headerTo = [] \<and> headerCc = []) (envelopeSet U rs)
         (header_keys U headerTo) (header_keys U headerCc) \<and>
     distinct (map (addr_key U) (to @ cc @ bcc))"
proof -
  obtain to cc bcc where s: "splitRecipients U headerTo headerCc rs = (to, cc, bcc)"
    by (metis surj_pair)
  from splitRecipients_spec [OF this] show ?thesis unfolding s prod.case by (rule conjI)
qed

text \<open>
  C8. A parsed message goes to exactly the envelope's recipients, each once, whatever its
  headers say, so it has no more recipients than the envelope; its From address is the
  envelope sender; its size is the length of the data; its ID is left to the caller.
\<close>

theorem Parse_delivers_envelope:
  assumes "Parse U create_reader now raw envelopeFrom envelopeRcpts = Inr m"
  shows "keys_of U (To m @ Cc m @ Bcc m) = envelopeSet U envelopeRcpts
    \<and> distinct (map (addr_key U) (To m @ Cc m @ Bcc m))
    \<and> RecipientCount m \<le> length envelopeRcpts
    \<and> Addr (From m) = trimSpace envelopeFrom
    \<and> Size m = int (length raw) \<and> ID m = []"
  by (intro conjI Parse_recipients [OF assms] RecipientCount_le [OF assms] Parse_From [OF assms]
      Parse_fields(4,5) [OF assms])

definition example_reader :: mail_reader where
  "example_reader =
     \<lparr>rd_subject = Inr ''hi'', rd_message_id = Inr ''m1'', rd_text = (\<lambda>_. Inr []),
      rd_get = (\<lambda>_. []),
      rd_address_list = (\<lambda>k. if k = ''To'' then Inr [\<lparr>Name = ''A'', Addr = ''A@x.org''\<rparr>]
         else if k = ''From'' then Inr [\<lparr>Name = ''Eve'', Addr = ''eve@z.org''\<rparr>] else Inr []),
      rd_fields =
        [\<lparr>hf_key = ''Bcc'', hf_text = Inr ''b@x.org'', hf_value = ''b@x.org''\<rparr>,
         \<lparr>hf_key = ''X-Tag'', hf_text = Inr ''1'', hf_value = ''1''\<rparr>,
         \<lparr>hf_key = ''X-Tag'', hf_text = Inl (ErrNew ''bad''), hf_value = ''2''\<rparr>],
      rd_parts =
        [(Some \<lparr>pt_header = InlineHeader ''text/plain'', pt_body = Inr ''body''\<rparr>, None),
         (Some \<lparr>pt_header = AttachmentHeader, pt_body = Inl (ErrNew ''unread'')\<rparr>, None)]\<rparr>"

theorem Parse_delivers_envelope_witness:
  "\<exists>m. Parse ascii_tables (\<lambda>_. (example_reader, None)) 0 ''raw'' '' s@y.org'' [''a@x.org'', ''b@x.org''] = Inr m
    \<and> To m = [\<lparr>Name = ''A'', Addr = ''A@x.org''\<rparr>] \<and> Bcc m = [\<lparr>Name = [], Addr = ''b@x.org''\<rparr>]
    \<and> RecipientCount m \<le> 2 \<and> Addr (From m) = trimSpace '' s@y.org''"
proof -
  let ?p = "Parse ascii_tables (\<lambda>_. (example_reader, None)) 0 ''raw'' '' s@y.org'' [''a@x.org'', ''b@x.org'']"
  have "case ?p of Inl _ \<Rightarrow> False
      | Inr m \<Rightarrow> To m = [\<lparr>Name = ''A'', Addr = ''A@x.org''\<rparr>] \<and> Bcc m = [\<lparr>Name = [], Addr = ''b@x.org''\<rparr>]"
    by code_simp
  then obtain m where m: "?p = Inr m" "To m = [\<lparr>Name = ''A'', Addr = ''A@x.org''\<rparr>]"
      "Bcc m = [\<lparr>Name = [], Addr = ''b@x.org''\<rparr>]"
    by (auto split: sum.splits)
  with Parse_delivers_envelope [OF m(1)] show ?thesis by auto
qed

text \<open>
  C21. The preserved headers: a key maps to the value of its last field, decoded where
  decoding succeeds and raw otherwise, if the lowered key is not one the provider rebuilds,
  and to nothing otherwise; so no From, To, Cc, Bcc, Received or MIME framing field is ever
  forwarded.
\<close>

theorem extractHeaders_spec:
  "map_of (extractHeaders U r) k =
     (if toLower U k \<in> excludedHeaders then None
      else map_of (rev (map (\<lambda>f. (hf_key f, field_value f)) (rd_fields r))) k)"
proof -
  have "map_of (rev (kept_fields U fs)) k =
      (if toLower U k \<in> excludedHeaders then None
       else map_of (rev (map (\<lambda>f. (hf_key f, field_value f)) fs)) k)" for fs
    by (induction fs) (auto simp: kept_fields_def map_add_def split: option.splits)
  then show ?thesis by (simp add: map_of_extractHeaders)
qed

text \<open>
  C20. The body loop: it fails with the first error that is not an unknown charset or
  encoding of a part, or a body read error of an inline part (an attachment is never read);
  otherwise Text and HTML are the bodies of the last inline parts of those types, and the
  rest of the message is untouched.
\<close>

theorem readBodyParts_functional:
  "readBodyParts evs msg =
     (case first_error evs of
        Some e \<Rightarrow> Inl e
      | None \<Rightarrow> Inr (msg\<lparr>Text := last_body ''text/plain'' evs (Text msg),
                         HTML := last_body ''text/html'' evs (HTML msg)\<rparr>))"
  by (rule readBodyParts_spec)

text \<open>
  C24. When neither the To nor the Cc header yields an address, because it is absent or
  because it is malformed or names no mailbox (a group such as
  \<^verbatim>\<open>undisclosed-recipients:;\<close>), every envelope recipient is put into To and none
  into Bcc: recipients that were blind become visible to each other.
\<close>

theorem unusable_headers_expose_blind:
  assumes "Parse U create_reader now raw envelopeFrom envelopeRcpts = Inr m"
    and "fst (create_reader raw) = r"
    and "headerAddresses r ''To'' = []" and "headerAddresses r ''Cc'' = []"
  shows "keys_of U (To m) = envelopeSet U envelopeRcpts \<and> Cc m = [] \<and> Bcc m = []"
  using Parse_fields(3) [OF assms(1)] assms(2-4) rcpt_loop(2) [of U envelopeRcpts "{}"]
  by (simp add: splitRecipients_bare)

theorem unusable_headers_expose_blind_witness:
  "\<exists>m. Parse ascii_tables
      (\<lambda>_. (example_reader\<lparr>rd_address_list := \<lambda>k. if k = ''To'' then Inl (ErrNew ''malformed'') else Inr []\<rparr>, None))
      0 ''raw'' ''s@y.org'' [''a@x.org'', ''b@x.org''] = Inr m
    \<and> keys_of ascii_tables (To m) = {''a@x.org'', ''b@x.org''} \<and> Bcc m = []"
proof -
  let ?r = "example_reader\<lparr>rd_address_list := \<lambda>k. if k = ''To'' then Inl (ErrNew ''malformed'') else Inr []\<rparr>"
  let ?rs = "[''a@x.org'', ''b@x.org'']"
  let ?p = "Parse ascii_tables (\<lambda>_. (?r, None)) 0 ''raw'' ''s@y.org'' ?rs"
  have "case ?p of Inl _ \<Rightarrow> False | Inr m \<Rightarrow> True" by code_simp
  then obtain m where m: "?p = Inr m" by (auto split: sum.splits)
  have env: "envelopeSet ascii_tables ?rs = {''a@x.org'', ''b@x.org''}" by code_simp
  have "headerAddresses ?r ''To'' = []" "headerAddresses ?r ''Cc'' = []"
    by (simp_all add: headerAddresses_def)
  from unusable_headers_expose_blind [OF m _ this] m env show ?thesis by auto
qed

end
