(* ===== verification/Smtp_Session.thy ===== *)
theory Smtp_Session
  imports Smtp_Login Smtp_Options Email_Parse "HOL-Library.Word"
begin

text \<open>
  \<^verbatim>\<open>internal/smtpserver/session.go\<close>: the callbacks that \<^verbatim>\<open>go-smtp\<close> runs on
  a connection, with the world \<open>'w\<close> and the log threaded through. The locales
  \<open>authenticator\<close> and \<open>sender\<close> are the interfaces to the login machine and to the
  transport.
\<close>

unbundle bit_operations_syntax

section \<open>Credentials\<close>

text \<open>\<^verbatim>\<open>crypto/subtle\<close>: the differences of all bytes are accumulated before the test.\<close>

definition word_byte :: "char \<Rightarrow> 8 word" where
  "word_byte c = word_of_nat (byte c)"

definition ConstantTimeByteEq :: "8 word \<Rightarrow> 8 word \<Rightarrow> int" where
  "ConstantTimeByteEq x y = uint (drop_bit 31 ((ucast (x XOR y) :: 32 word) - 1))"

definition ConstantTimeCompare :: "string \<Rightarrow> string \<Rightarrow> int" where
  "ConstantTimeCompare x y =
     (if length x \<noteq> length y then 0
      else ConstantTimeByteEq
        (fold (\<lambda>(a, b) v. v OR (word_byte a XOR word_byte b)) (zip x y) 0) 0)"

lemma word_byte_eq [simp]: "word_byte a = word_byte b \<longleftrightarrow> a = b"
proof -
  have "unat (word_byte c) = byte c" for c
    using byte_lt_256 [of c] by (simp add: word_byte_def unat_of_nat take_bit_eq_mod)
  then show ?thesis by (metis of_char_eq_iff)
qed

lemma xor_zero: "x XOR y = 0 \<longleftrightarrow> x = y" for x y :: "'a::len word"
  by (auto simp: bit_eq_iff bit_xor_iff)

lemma ConstantTimeByteEq_iff: "ConstantTimeByteEq x y = 1 \<longleftrightarrow> x = y"
proof (cases "x = y")
  case True
  have "uint (drop_bit 31 (- 1 :: 32 word)) = 1" by simp
  with True show ?thesis by (simp add: ConstantTimeByteEq_def)
next
  case False
  let ?d = "ucast (x XOR y) :: 32 word"
  have small: "unat (x XOR y) < 256"
    using unsigned_less [of "x XOR y", where 'a = nat] by simp
  then have u: "unat ?d = unat (x XOR y)" by (simp add: unsigned_ucast_eq take_bit_eq_mod)
  moreover have "x XOR y \<noteq> 0" using False by (simp add: xor_zero)
  ultimately have "?d \<noteq> 0" by (metis unsigned_0 unsigned_eq_0_iff)
  then have "unat (?d - 1) < 256" using small u by (simp add: unat_minus_one)
  moreover have "drop_bit 31 n = 0" if "n < 256" for n :: nat using that by (simp add: drop_bit_eq_div)
  ultimately have "unat (drop_bit 31 (?d - 1)) = 0" by (simp only: unat_drop_bit_eq)
  then have "drop_bit 31 (?d - 1) = 0" by (metis unsigned_0 unsigned_word_eqI)
  with False show ?thesis by (simp add: ConstantTimeByteEq_def)
qed

lemma fold_or_zero:
  "fold (\<lambda>(a, b) v. v OR (word_byte a XOR word_byte b)) zs v = 0 \<longleftrightarrow>
     v = 0 \<and> (\<forall>(a, b) \<in> set zs. a = b)"
  by (induction zs arbitrary: v) (auto simp: or_eq_0_iff xor_zero)

lemma ConstantTimeCompare_eq: "ConstantTimeCompare x y = 1 \<longleftrightarrow> x = y"
proof (cases "length x = length y")
  case True
  have "(\<forall>(a, b) \<in> set (zip x y). a = b) \<longleftrightarrow> x = y"
    using True by (induction x y rule: list_induct2) auto
  with True show ?thesis
    by (simp add: ConstantTimeCompare_def ConstantTimeByteEq_iff fold_or_zero)
qed (auto simp: ConstantTimeCompare_def)

section \<open>The session\<close>

record session =
  authenticated :: bool
  s_from :: string
  s_recipients :: "string list"

definition NewSession :: session where
  "NewSession = \<lparr>authenticated = False, s_from = [], s_recipients = []\<rparr>"

text \<open>What the process gets from its libraries: Unicode tables, the MIME reader, the clock, contexts.\<close>

record 'w platform =
  pf_unicode :: unicode
  pf_create_reader :: "string \<Rightarrow> mail_reader \<times> gerror option"
  pf_now :: "'w \<Rightarrow> int"                     \<comment> \<open>\<^verbatim>\<open>time.Now().UTC()\<close> in \<^verbatim>\<open>Parse\<close>\<close>
  pf_with_timeout :: "int \<Rightarrow> 'w \<Rightarrow> 'w"       \<comment> \<open>\<^verbatim>\<open>context.WithTimeout(context.Background(), d)\<close>\<close>

definition sendTimeout :: int where
  "sendTimeout = 30 * second"

definition errAuthRequired :: gerror where
  "errAuthRequired = ErrSMTP 530 (5, 7, 0) ''Authentication required''"

definition ErrAuthFailed :: gerror where
  "ErrAuthFailed = ErrSentinel AuthFailed ''Authentication failed''"

definition ErrAuthUnknownMechanism :: gerror where
  "ErrAuthUnknownMechanism = ErrSentinel AuthUnknownMechanism ''Unsupported authentication mechanism''"

definition AuthMechanisms :: "string list" where
  "AuthMechanisms = [''PLAIN'', ''LOGIN'']"

text \<open>
  \<^verbatim>\<open>Auth\<close> returns a machine that will call \<open>authenticate\<close>: the PLAIN one is
  \<^verbatim>\<open>go-sasl\<close>'s, which calls it once with the user name and password of the response.
\<close>

datatype sasl_server =
    PlainServer
  | LoginServer login_server

definition Auth :: "string \<Rightarrow> gerror + sasl_server" where
  "Auth mech =
     (if mech = ''PLAIN'' then Inr PlainServer
      else if mech = ''LOGIN'' then Inr (LoginServer newLoginServer)
      else Inl ErrAuthUnknownMechanism)"

definition authenticate :: "'w effective \<Rightarrow> string \<Rightarrow> string \<Rightarrow> session \<Rightarrow> gerror option \<times> session" where
  "authenticate opts username password s =
     (let validUser = (ConstantTimeCompare username (ef_Username opts) = 1);
          validPass = (ConstantTimeCompare password (ef_Password opts) = 1)
      in if \<not> validUser \<or> \<not> validPass then (Some ErrAuthFailed, s)
         else (None, s\<lparr>authenticated := True\<rparr>))"

definition Reset :: "session \<Rightarrow> session" where
  "Reset s = s\<lparr>s_from := [], s_recipients := []\<rparr>"

definition Logout :: "session \<Rightarrow> gerror option \<times> session" where
  "Logout s = (None, Reset s)"

definition Mail :: "unicode \<Rightarrow> 'w effective \<Rightarrow> string \<Rightarrow> session \<Rightarrow> gerror option \<times> session" where
  "Mail U opts from s =
     (if \<not> authenticated s then (Some errAuthRequired, s)
      else
        (let addr = \<lparr>Name = [], Addr = from\<rparr> in
         case Check (ef_Policy opts) addr of
           Some err \<Rightarrow>
             if errorsIs err SenderNotAllowed then
               (Some (ErrSMTP 550 (5, 7, 1)
                  (''sender domain '' @ goQuote U (Address_Domain addr) @ '' is not allowed'')), s)
             else (Some (ErrSMTP 550 (5, 7, 1) ''sender rejected''), s)
         | None \<Rightarrow> (None, s\<lparr>s_from := from, s_recipients := []\<rparr>)))"

definition Rcpt :: "string \<Rightarrow> session \<Rightarrow> gerror option \<times> session" where
  "Rcpt to s = (None, s\<lparr>s_recipients := s_recipients s @ [to]\<rparr>)"

section \<open>\<^verbatim>\<open>Data\<close>\<close>

text \<open>The variables that the deferred log call reads, as they are declared.\<close>

definition data_start :: delivery where
  "data_start =
     \<lparr>MessageID = [], D_RFCMessageID = [], D_From = [], D_To = None, D_Subject = [],
      Result = ''rejected'', Duration = 0, D_HTTPStatus = 0, D_ProviderCode = 0, D_Attempts = 0,
      D_Err = None\<rparr>"

text \<open>
  From the body to the message that is handed to the sender. \<open>body\<close> is the result of
  \<^verbatim>\<open>io.ReadAll(r)\<close>; \<open>Inl\<close> is an early return with its log variables and reply.
\<close>

definition prepare ::
  "'w platform \<Rightarrow> 'w effective \<Rightarrow> gerror + string \<Rightarrow> session \<Rightarrow> 'w \<Rightarrow>
     (delivery \<times> gerror + message) \<times> 'w"
where
  "prepare pf opts body s w =
     (case body of
        Inl err \<Rightarrow>
          if errorsIs err DataTooLarge then
            (Inl (data_start\<lparr>D_Err := Some err, Result := ''rejected''\<rparr>, err), w)
          else
            (Inl (data_start\<lparr>D_Err := Some err, Result := ''deferred''\<rparr>,
                  ErrSMTP 451 (4, 3, 0) ''error reading message''), w)
      | Inr raw \<Rightarrow>
          (case Parse (pf_unicode pf) (pf_create_reader pf) (pf_now pf w) raw (s_from s) (s_recipients s) of
             Inl perr \<Rightarrow>
               (Inl (data_start\<lparr>D_Err := Some perr, Result := ''rejected''\<rparr>,
                     ErrSMTP 550 (5, 6, 0) ''message could not be parsed''), w)
           | Inr msg \<Rightarrow> (case ef_NewID opts w of (i, w1) \<Rightarrow> (Inr (msg\<lparr>ID := i\<rparr>), w1))))"

definition message_delivery :: "message \<Rightarrow> delivery" where
  "message_delivery msg =
     data_start\<lparr>MessageID := ID msg, D_RFCMessageID := RFCMessageID msg, D_From := Addr (From msg),
       D_To := Some (AllRecipients msg), D_Subject := Subject msg\<rparr>"

text \<open>The outcome of \<^verbatim>\<open>Send\<close> as log variables and reply.\<close>

definition settle :: "message \<Rightarrow> result option \<times> gerror option \<Rightarrow> delivery \<times> gerror option" where
  "settle msg oc =
     (case oc of
        (_, Some serr) \<Rightarrow>
          (case AsDeliveryError serr of
             Some de \<Rightarrow>
               ((message_delivery msg)\<lparr>D_Err := Some serr, D_HTTPStatus := HTTPStatus de,
                  D_ProviderCode := ProviderCode de, D_Attempts := Attempts de,
                  Result := (if Temporary de then ''deferred'' else ''rejected'')\<rparr>,
                Some (ErrSMTP (SMTPCode de) (EnhancedCode de) (Reason de)))
           | None \<Rightarrow>
               ((message_delivery msg)\<lparr>D_Err := Some serr, Result := ''deferred''\<rparr>,
                Some (ErrSMTP 451 (4, 0, 0) ''internal error'')))
      | (res, None) \<Rightarrow>
          (let d = (message_delivery msg)\<lparr>Result := ''sent''\<rparr> in
           ((case res of None \<Rightarrow> d
             | Some r \<Rightarrow> d\<lparr>D_HTTPStatus := ResHTTPStatus r, D_Attempts := ResAttempts r\<rparr>),
            None)))"

definition Data ::
  "'w platform \<Rightarrow> 'w effective \<Rightarrow> gerror + string \<Rightarrow> session \<Rightarrow> 'w \<Rightarrow> log_record list \<Rightarrow>
     gerror option \<times> 'w \<times> log_record list"
where
  "Data pf opts body s w logs =
     (case ef_Now opts w of
        (start, w1) \<Rightarrow>
          (case (case prepare pf opts body s w1 of
                   (Inl (d, e), w2) \<Rightarrow> ((d, Some e), w2)
                 | (Inr msg, w2) \<Rightarrow>
                     (case ef_Sender opts msg (pf_with_timeout pf sendTimeout w2) of
                        (oc, w3) \<Rightarrow> (settle msg oc, w3))) of
             ((d, reply), w4) \<Rightarrow>
               (case ef_Now opts w4 of
                  (t, w5) \<Rightarrow> (reply, w5, LogDelivery (ef_Logger opts) (d\<lparr>Duration := timeSub t start\<rparr>) logs))))"

section \<open>Authentication\<close>

lemma authenticate_eq:
  "authenticate opts u p s =
     (if u = ef_Username opts \<and> p = ef_Password opts then (None, s\<lparr>authenticated := True\<rparr>)
      else (Some ErrAuthFailed, s))"
  by (simp add: authenticate_def ConstantTimeCompare_eq)

interpretation login: authenticator "authenticate opts" authenticated for opts
  by unfold_locales (auto simp: authenticate_eq split: if_splits)

lemma fold_Rcpt:
  "fold (\<lambda>to s. snd (Rcpt to s)) rs s = s\<lparr>s_recipients := s_recipients s @ rs\<rparr>"
  by (induction rs arbitrary: s) (simp_all add: Rcpt_def)

lemma Mail_None:
  assumes "Mail U opts from s = (None, s')"
  shows "authenticated s \<and> Allows (ef_Policy opts) \<lparr>Name = [], Addr = from\<rparr>
    \<and> s' = s\<lparr>s_from := from, s_recipients := []\<rparr>"
  using assms by (auto simp: Mail_def Let_def pol.check_None split: if_splits option.splits)

lemma Mail_Some:
  assumes "Mail U opts from s = (Some e, s')"
  shows "s' = s"
  using assms by (auto simp: Mail_def Let_def split: if_splits option.splits)

text \<open>
  C30. Credentials are compared exactly: the accumulate-and-compare loop accepts a user name
  and a password if and only if both are equal, byte for byte, to the configured ones; only
  then does the session become authenticated, and a refusal leaves it as it was.
\<close>

theorem authenticate_exact:
  "authenticate opts username password s =
     (if username = ef_Username opts \<and> password = ef_Password opts
      then (None, s\<lparr>authenticated := True\<rparr>) else (Some ErrAuthFailed, s))"
  by (rule authenticate_eq)

text \<open>
  AUTH LOGIN against the session's credentials: an exchange that ends without an error
  has authenticated the session, and no exchange changes the session in any other way.
\<close>

lemma login_exchange_safe:
  "case Login_Next (authenticate opts) l response s of
     ((challenge, finished, err), l', s') \<Rightarrow>
       (s' = s \<or> s' = s\<lparr>authenticated := True\<rparr>)
       \<and> (if finished \<and> err = None then authenticated s' else s' = s)"
  by (auto simp: Login_Next_def authenticate_eq split: login_state.split option.split prod.split)

text \<open>
  MAIL FROM is refused with 530 5.7.0 before authentication and with 550 5.7.1 for a
  sender outside the allowlist, in both cases leaving the envelope as it was; otherwise it
  starts a new envelope with that sender and no recipients.
\<close>

lemma mail_guards:
  "case Mail U opts from s of
     (None, s') \<Rightarrow> authenticated s \<and> Allows (ef_Policy opts) \<lparr>Name = [], Addr = from\<rparr>
       \<and> s' = s\<lparr>s_from := from, s_recipients := []\<rparr>
   | (Some (ErrSMTP code enh _), s') \<Rightarrow> s' = s
       \<and> (if authenticated s
          then code = 550 \<and> enh = (5, 7, 1) \<and> \<not> Allows (ef_Policy opts) \<lparr>Name = [], Addr = from\<rparr>
          else code = 530 \<and> enh = (5, 7, 0))
   | _ \<Rightarrow> False"
  by (auto simp: Mail_def Let_def errAuthRequired_def pol.check_reason split: option.split
      simp flip: pol.check_None)

section \<open>What reply and log record have in common\<close>

text \<open>
  A log record \<open>d\<close> fits the reply when both tell the same outcome: sent without an error,
  deferred with 451 and class 4, rejected with 550 and class 5 or with the error of a body
  that is too large.
\<close>

fun outcome_fits :: "delivery \<Rightarrow> gerror option \<Rightarrow> bool" where
  "outcome_fits d None \<longleftrightarrow> Result d = ''sent'' \<and> D_Err d = None"
| "outcome_fits d (Some (ErrSMTP code enh _)) \<longleftrightarrow> D_Err d \<noteq> None \<and>
     (if Result d = ''deferred'' then code = 451 \<and> fst enh = 4
      else Result d = ''rejected'' \<and> code = 550 \<and> fst enh = 5)"
| "outcome_fits d (Some err) \<longleftrightarrow> Result d = ''rejected'' \<and> D_Err d = Some err \<and> errorsIs err DataTooLarge"

lemma outcome_fits_Duration [simp]: "outcome_fits (d\<lparr>Duration := t\<rparr>) r = outcome_fits d r"
  by (cases "(d, r)" rule: outcome_fits.cases) simp_all

lemma message_delivery_simps [simp]:
  "D_Err (message_delivery m) = None" "Result (message_delivery m) = ''rejected''"
  by (simp_all add: message_delivery_def data_start_def)

lemma prepare_fits:
  assumes "prepare pf opts body s w = (Inl (d, e), w')"
  shows "outcome_fits d (Some e)"
proof -
  have "\<not> errorsIs (ErrSMTP c h m) DataTooLarge" for c h m by simp
  then have "outcome_fits (data_start\<lparr>D_Err := Some err, Result := ''rejected''\<rparr>) (Some err)"
    if "errorsIs err DataTooLarge" for err using that by (cases err) auto
  with assms show ?thesis
    by (auto simp: prepare_def split: sum.splits if_splits prod.splits)
qed

text \<open>
  A reply is well formed when its enhanced code has the class of its code and its text fits on
  one line; the other errors are those that the library turns into a reply of its own.
\<close>

fun reply_ok :: "gerror \<Rightarrow> bool" where
  "reply_ok (ErrSMTP code enh msg) \<longleftrightarrow>
     code \<in> {451, 530, 550} \<and> fst enh = code div 100 \<and> clean_text msg"
| "reply_ok e \<longleftrightarrow> errorsIs e DataTooLarge \<or> errorsIs e AuthFailed \<or> errorsIs e AuthUnknownMechanism"

lemma reply_ok_DataTooLarge: "errorsIs e DataTooLarge \<Longrightarrow> reply_ok e"
  by (cases e) simp_all

lemma authenticate_reply: "pred_option reply_ok (fst (authenticate opts u p s))"
  by (simp add: authenticate_eq ErrAuthFailed_def)

lemma Auth_reply: "Auth mech = Inl e \<Longrightarrow> reply_ok e"
  by (auto simp: Auth_def ErrAuthUnknownMechanism_def split: if_splits)

lemma Mail_reply: "pred_option reply_ok (fst (Mail U opts from s))"
  by (auto simp: Mail_def Let_def errAuthRequired_def clean_goQuote split: option.split)

lemma prepare_reply: "prepare pf opts body s w = (Inl (d, e), w') \<Longrightarrow> reply_ok e"
  by (auto simp: prepare_def intro: reply_ok_DataTooLarge split: sum.splits if_splits prod.splits)

lemma prepare_message:
  assumes "prepare pf opts body s w = (Inr m, w')"
  shows "\<exists>raw m0. body = Inr raw
    \<and> Parse (pf_unicode pf) (pf_create_reader pf) (pf_now pf w) raw (s_from s) (s_recipients s) = Inr m0
    \<and> m = m0\<lparr>ID := fst (ef_NewID opts w)\<rparr>"
  using assms by (auto simp: prepare_def split: sum.splits if_splits prod.splits)

context sender
begin

lemma settle_fits:
  assumes "send m w = (oc, w')" and "settle m oc = (d, reply)"
  shows "outcome_fits d reply"
proof -
  obtain res eo where oc: "oc = (res, eo)" by fastforce
  show ?thesis
  proof (cases eo)
    case None
    with assms(2) oc show ?thesis by (auto simp: settle_def Let_def split: option.splits)
  next
    case (Some e)
    with assms(1) oc send_classified obtain de
      where "AsDeliveryError e = Some de" "well_classified de" by blast
    with assms(2) oc Some show ?thesis by (auto simp: settle_def well_classified_def split: if_splits)
  qed
qed

lemma settle_reply:
  assumes "send m w = (oc, w')" and "settle m oc = (d, Some e)"
  shows "reply_ok e"
proof -
  obtain res eo where oc: "oc = (res, eo)" by fastforce
  then obtain x where x: "eo = Some x" using assms(2) by (cases eo) (auto simp: settle_def Let_def)
  with assms(1) oc send_classified obtain de
    where "AsDeliveryError x = Some de" "well_classified de" by blast
  with assms(2) oc x show ?thesis by (auto simp: settle_def well_classified_def split: if_splits)
qed

lemma Data_reply:
  assumes "ef_Sender opts = send"
  shows "pred_option reply_ok (fst (Data pf opts body s w logs))"
proof -
  obtain start w1 where start: "ef_Now opts w = (start, w1)" by fastforce
  obtain pr w2 where prep: "prepare pf opts body s w1 = (pr, w2)" by fastforce
  show ?thesis
  proof (cases pr)
    case (Inl de)
    then obtain d e where "pr = Inl (d, e)" by (cases de) auto
    with prep prepare_reply [of pf opts body s w1 d e w2] show ?thesis
      by (simp add: Data_def start split: prod.split)
  next
    case (Inr m)
    obtain oc w3 where sent: "send m (pf_with_timeout pf sendTimeout w2) = (oc, w3)" by fastforce
    obtain d reply where se: "settle m oc = (d, reply)" by fastforce
    have "pred_option reply_ok reply" using settle_reply [OF sent] se by (cases reply) simp_all
    then show ?thesis by (simp add: Data_def start prep Inr assms sent se split: prod.split)
  qed
qed

text \<open>One call of \<^verbatim>\<open>Data\<close> logs one record, and it tells what the client was told.\<close>

lemma Data_logs_outcome:
  assumes "ef_Sender opts = send"
  shows "\<exists>d reply w'. Data pf opts body s w logs = (reply, w', LogDelivery (ef_Logger opts) d logs)
    \<and> outcome_fits d reply"
proof -
  obtain start w1 where start: "ef_Now opts w = (start, w1)" by fastforce
  obtain pr w2 where prep: "prepare pf opts body s w1 = (pr, w2)" by fastforce
  show ?thesis
  proof (cases pr)
    case (Inl de)
    then obtain d e where de: "pr = Inl (d, e)" by (cases de) auto
    obtain t w5 where t: "ef_Now opts w2 = (t, w5)" by fastforce
    have "outcome_fits (d\<lparr>Duration := timeSub t start\<rparr>) (Some e)"
      using prepare_fits [of pf opts body s w1 d e w2] prep de by simp
    moreover have "Data pf opts body s w logs =
        (Some e, w5, LogDelivery (ef_Logger opts) (d\<lparr>Duration := timeSub t start\<rparr>) logs)"
      by (simp add: Data_def start prep de t)
    ultimately show ?thesis by blast
  next
    case (Inr m)
    obtain oc w3 where sent: "send m (pf_with_timeout pf sendTimeout w2) = (oc, w3)" by fastforce
    obtain d reply where se: "settle m oc = (d, reply)" by fastforce
    obtain t w5 where t: "ef_Now opts w3 = (t, w5)" by fastforce
    have "outcome_fits (d\<lparr>Duration := timeSub t start\<rparr>) reply"
      using settle_fits [OF sent se] by simp
    moreover have "Data pf opts body s w logs =
        (reply, w5, LogDelivery (ef_Logger opts) (d\<lparr>Duration := timeSub t start\<rparr>) logs)"
      by (simp add: Data_def start prep Inr assms sent se t)
    ultimately show ?thesis by blast
  qed
qed

end

end
