(* ===== verification/Smtp_Conn.thy ===== *)
theory Smtp_Conn
  imports Smtp_Session
begin

text \<open>
  A connection: the order in which \<^verbatim>\<open>go-smtp\<close> runs the callbacks of
  \<^verbatim>\<open>session.go\<close>. The library is not part of the repository; of it the step
  relation uses what its documentation states: DATA and RCPT are only dispatched after a MAIL
  that was accepted in the same transaction, RCPT only below \<^verbatim>\<open>MaxRecipients\<close>,
  \<^verbatim>\<open>Reset\<close> runs after DATA and on RSET, STARTTLS starts a new session. It leaves
  out further guards of the library (the size limit on the body, at least one RCPT before DATA, no
  AUTH in plain text unless that is allowed), so it has every run of the server and more: what
  holds of all its runs holds of the server, and nothing is concluded from the mere existence of
  a run.
\<close>

section \<open>Steps\<close>

text \<open>
  \<open>c_mail\<close> says that a MAIL was accepted in this transaction. \<open>c_handed\<close> is a ghost:
  the messages handed to the sender, each with the session at that time.
\<close>

record 'w conn =
  c_sess :: session
  c_mail :: bool
  c_world :: 'w
  c_logs :: "log_record list"
  c_handed :: "(session \<times> message) list"

definition new_conn :: "'w \<Rightarrow> log_record list \<Rightarrow> 'w conn" where
  "new_conn w logs =
     \<lparr>c_sess = NewSession, c_mail = False, c_world = w, c_logs = logs, c_handed = []\<rparr>"

text \<open>The message that a DATA command hands over, if it gets that far.\<close>

definition handed_by ::
  "'w platform \<Rightarrow> 'w effective \<Rightarrow> gerror + string \<Rightarrow> session \<Rightarrow> 'w \<Rightarrow> message list"
where
  "handed_by pf opts body s w =
     (case prepare pf opts body s (snd (ef_Now opts w)) of
        (Inr m, _) \<Rightarrow> [m] | (Inl _, _) \<Rightarrow> [])"

text \<open>What the client makes the library call.\<close>

datatype event =
    Ev_Plain string string
  | Ev_Login "string option list"
  | Ev_Mail string
  | Ev_Rcpt string
  | Ev_Data "gerror + string"
  | Ev_Rset
  | Ev_Quit
  | Ev_StartTLS

inductive conn_step :: "'w platform \<Rightarrow> 'w effective \<Rightarrow> 'w conn \<Rightarrow> event \<Rightarrow> 'w conn \<Rightarrow> bool"
  for pf :: "'w platform" and opts :: "'w effective"
where
  plain: "authenticate opts u p (c_sess c) = (e, s') \<Longrightarrow>
    conn_step pf opts c (Ev_Plain u p) (c\<lparr>c_sess := s'\<rparr>)"
| login: "login_run (authenticate opts) newLoginServer rs (c_sess c) = (as, l, s') \<Longrightarrow>
    conn_step pf opts c (Ev_Login rs) (c\<lparr>c_sess := s'\<rparr>)"
| mail: "Mail (pf_unicode pf) opts from (c_sess c) = (None, s') \<Longrightarrow>
    conn_step pf opts c (Ev_Mail from) (c\<lparr>c_sess := s', c_mail := True\<rparr>)"
| mail_refused: "Mail (pf_unicode pf) opts from (c_sess c) = (Some e, s') \<Longrightarrow>
    conn_step pf opts c (Ev_Mail from) (c\<lparr>c_sess := s'\<rparr>)"
| rcpt: "c_mail c \<Longrightarrow> int (length (s_recipients (c_sess c))) < ef_MaxRecipients opts \<Longrightarrow>
    Rcpt to (c_sess c) = (e, s') \<Longrightarrow> conn_step pf opts c (Ev_Rcpt to) (c\<lparr>c_sess := s'\<rparr>)"
| data: "c_mail c \<Longrightarrow> Data pf opts body (c_sess c) (c_world c) (c_logs c) = (reply, w', logs') \<Longrightarrow>
    conn_step pf opts c (Ev_Data body)
      (c\<lparr>c_sess := Reset (c_sess c), c_mail := False, c_world := w', c_logs := logs',
         c_handed := c_handed c @
           map (Pair (c_sess c)) (handed_by pf opts body (c_sess c) (c_world c))\<rparr>)"
| rset: "conn_step pf opts c Ev_Rset (c\<lparr>c_sess := Reset (c_sess c), c_mail := False\<rparr>)"
| quit: "Logout (c_sess c) = (e, s') \<Longrightarrow>
    conn_step pf opts c Ev_Quit (c\<lparr>c_sess := s', c_mail := False\<rparr>)"
| starttls: "conn_step pf opts c Ev_StartTLS (c\<lparr>c_sess := NewSession, c_mail := False\<rparr>)"

inductive conn_run :: "'w platform \<Rightarrow> 'w effective \<Rightarrow> 'w conn \<Rightarrow> event list \<Rightarrow> 'w conn \<Rightarrow> bool"
  for pf :: "'w platform" and opts :: "'w effective" and c0 :: "'w conn"
where
  run_start: "conn_run pf opts c0 [] c0"
| run_step: "conn_run pf opts c0 evs c \<Longrightarrow> conn_step pf opts c ev c' \<Longrightarrow>
    conn_run pf opts c0 (evs @ [ev]) c'"

inductive_cases conn_stepE: "conn_step pf opts c ev c'"

inductive_simps conn_step_rcpt: "conn_step pf opts c (Ev_Rcpt a) c'"
inductive_simps conn_step_data: "conn_step pf opts c (Ev_Data body) c'"

text \<open>The ghost is exact: what \<^verbatim>\<open>Data\<close> asks of the sender is this message and no other.\<close>

lemma Data_sender_cong:
  assumes "\<And>m w. m \<in> set (handed_by pf opts body s w0) \<Longrightarrow> send' m w = ef_Sender opts m w"
  shows "Data pf (opts\<lparr>ef_Sender := send'\<rparr>) body s w0 logs = Data pf opts body s w0 logs"
proof -
  have prep: "prepare pf (opts\<lparr>ef_Sender := send'\<rparr>) = prepare pf opts"
    by (intro ext) (simp add: prepare_def cong: sum.case_cong)
  show ?thesis
    using assms by (auto simp: Data_def prep handed_by_def split: prod.splits sum.splits)
qed

section \<open>The invariant\<close>

definition envelope_ok :: "'w effective \<Rightarrow> session \<Rightarrow> bool" where
  "envelope_ok opts s \<longleftrightarrow>
     authenticated s \<and> Allows (ef_Policy opts) \<lparr>Name = [], Addr = s_from s\<rparr>"

definition handed_ok :: "'w platform \<Rightarrow> 'w effective \<Rightarrow> session \<times> message \<Rightarrow> bool" where
  "handed_ok pf opts sm =
     (case sm of (s, m) \<Rightarrow>
        envelope_ok opts s \<and> Addr (From m) = trimSpace (s_from s)
        \<and> keys_of (pf_unicode pf) (To m @ Cc m @ Bcc m) = envelopeSet (pf_unicode pf) (s_recipients s)
        \<and> int (RecipientCount m) \<le> ef_MaxRecipients opts)"

definition conn_ok :: "'w platform \<Rightarrow> 'w effective \<Rightarrow> 'w conn \<Rightarrow> bool" where
  "conn_ok pf opts c \<longleftrightarrow>
     (c_mail c \<longrightarrow> envelope_ok opts (c_sess c))
     \<and> int (length (s_recipients (c_sess c))) \<le> ef_MaxRecipients opts
     \<and> list_all (handed_ok pf opts) (c_handed c)"

lemma handed_by_ok:
  assumes "envelope_ok opts s" and "int (length (s_recipients s)) \<le> ef_MaxRecipients opts"
    and "m \<in> set (handed_by pf opts body s w)"
  shows "handed_ok pf opts (s, m)"
proof -
  obtain w1 where "prepare pf opts body s (snd (ef_Now opts w)) = (Inr m, w1)"
    using assms(3) by (cases "prepare pf opts body s (snd (ef_Now opts w))")
      (auto simp: handed_by_def split: sum.splits)
  from prepare_message [OF this] obtain raw m0 i where
    p: "Parse (pf_unicode pf) (pf_create_reader pf) (pf_now pf (snd (ef_Now opts w))) raw
      (s_from s) (s_recipients s) = Inr m0" and m: "m = m0\<lparr>ID := i\<rparr>" by blast
  have "RecipientCount m = RecipientCount m0" by (simp add: m RecipientCount_def)
  with Parse_From [OF p] Parse_recipients(1) [OF p] RecipientCount_le [OF p] assms(1,2)
  show ?thesis by (simp add: handed_ok_def m)
qed

lemma authenticate_keeps:
  "authenticate opts u p s = (e, s') \<Longrightarrow> s' = s \<or> s' = s\<lparr>authenticated := True\<rparr>"
  by (auto simp: authenticate_eq split: if_splits)

lemma login_run_session:
  "snd (snd (login_run (authenticate opts) newLoginServer rs s)) \<in> {s, s\<lparr>authenticated := True\<rparr>}"
  by (auto simp: login_run_username newLoginServer_def authenticate_eq split: list.split option.split)

lemma envelope_ok_auth: "envelope_ok opts s \<Longrightarrow> envelope_ok opts (s\<lparr>authenticated := True\<rparr>)"
  by (simp add: envelope_ok_def)

lemma conn_ok_auth:
  assumes "conn_ok pf opts c" and "s' \<in> {c_sess c, (c_sess c)\<lparr>authenticated := True\<rparr>}"
  shows "conn_ok pf opts (c\<lparr>c_sess := s'\<rparr>)"
  using assms by (auto simp: conn_ok_def envelope_ok_auth)

lemma conn_step_ok:
  assumes "conn_step pf opts c ev c'" and "0 \<le> ef_MaxRecipients opts" and "conn_ok pf opts c"
  shows "conn_ok pf opts c'"
  using assms(1)
proof cases
  case (plain u p e s')
  then show ?thesis using conn_ok_auth [OF assms(3), of s'] authenticate_keeps by blast
next
  case (login rs ans l s')
  then show ?thesis
    using conn_ok_auth [OF assms(3), of s'] login_run_session [of opts rs "c_sess c"] by auto
next
  case (mail f s')
  then show ?thesis using assms(2,3) by (auto simp: conn_ok_def envelope_ok_def dest: Mail_None)
next
  case (mail_refused f e s')
  then show ?thesis using assms(3) by (auto simp: conn_ok_def dest: Mail_Some)
next
  case (rcpt a e s')
  then show ?thesis using assms(3) by (auto simp: conn_ok_def envelope_ok_def Rcpt_def)
next
  case (data body reply w' logs')
  with assms(3) have "list_all (handed_ok pf opts)
      (map (Pair (c_sess c)) (handed_by pf opts body (c_sess c) (c_world c)))"
    by (auto simp: conn_ok_def list_all_iff intro: handed_by_ok)
  then show ?thesis using assms(2,3) data by (simp add: conn_ok_def Reset_def)
next
  case rset
  then show ?thesis using assms(2,3) by (simp add: conn_ok_def Reset_def)
next
  case (quit e s')
  then show ?thesis using assms(2,3) by (auto simp: conn_ok_def Logout_def Reset_def)
next
  case starttls
  then show ?thesis using assms(2,3) by (simp add: conn_ok_def NewSession_def)
qed

lemma conn_run_ok:
  assumes "conn_run pf opts (new_conn w logs) evs c" and "0 \<le> ef_MaxRecipients opts"
  shows "conn_ok pf opts c"
  using assms(1)
proof (induction rule: conn_run.induct)
  case run_start
  show ?case using assms(2) by (simp add: conn_ok_def new_conn_def NewSession_def)
next
  case (run_step evs c ev c')
  then show ?case using conn_step_ok assms(2) by blast
qed

section \<open>Without the credentials nothing is handed over\<close>

definition presents :: "'w effective \<Rightarrow> event \<Rightarrow> bool" where
  "presents opts ev =
     (case ev of
        Ev_Plain u p \<Rightarrow> u = ef_Username opts \<and> p = ef_Password opts
      | Ev_Login rs \<Rightarrow>
          (case dropWhile (\<lambda>r. r = None) rs of
             Some u # p # _ \<Rightarrow> u = ef_Username opts \<and> bytes_of p = ef_Password opts
           | _ \<Rightarrow> False)
      | _ \<Rightarrow> False)"

definition conn_idle :: "'w conn \<Rightarrow> bool" where
  "conn_idle c \<longleftrightarrow> \<not> authenticated (c_sess c) \<and> \<not> c_mail c \<and> c_handed c = []"

lemma login_run_exact:
  "snd (snd (login_run (authenticate opts) newLoginServer rs s)) =
     s\<lparr>authenticated := authenticated s \<or> presents opts (Ev_Login rs)\<rparr>"
proof -
  define ds where "ds = dropWhile (\<lambda>r. r = None) rs"
  have "snd (snd (login_run (authenticate opts) newLoginServer rs s)) =
      (case ds of Some u # p # _ \<Rightarrow> snd (authenticate opts u (bytes_of p) s) | _ \<Rightarrow> s)"
    using login_run_username [of newLoginServer "authenticate opts" rs s]
    by (simp add: newLoginServer_def ds_def)
  then show ?thesis
    by (cases s) (auto simp: presents_def authenticate_eq simp flip: ds_def
        split: list.splits option.splits)
qed

lemma login_run_refused:
  assumes "login_run (authenticate opts) newLoginServer rs s = (as, l, s')"
    and "\<not> presents opts (Ev_Login rs)"
  shows "s' = s"
  using login_run_exact [of opts rs s] assms by simp

lemma conn_step_idle:
  assumes "conn_step pf opts c ev c'" and "\<not> presents opts ev" and "conn_idle c"
  shows "conn_idle c'"
  using assms(1)
proof cases
  case (login rs ans l s')
  with assms(2) have "s' = c_sess c" by (auto dest: login_run_refused)
  with login assms(3) show ?thesis by (simp add: conn_idle_def)
qed (use assms(2,3) in \<open>auto simp: conn_idle_def presents_def authenticate_eq Reset_def Logout_def
    NewSession_def dest: Mail_None Mail_Some split: if_splits\<close>)

lemma conn_run_idle:
  assumes "conn_run pf opts (new_conn w logs) evs c" and "list_all (\<lambda>ev. \<not> presents opts ev) evs"
  shows "conn_idle c"
  using assms
proof (induction rule: conn_run.induct)
  case run_start
  show ?case by (simp add: conn_idle_def new_conn_def NewSession_def)
next
  case (run_step evs c ev c')
  then show ?case using conn_step_idle by (auto simp: list_all_iff)
qed

section \<open>The transactions of a connection\<close>

text \<open>
  What a connection promises, stated over the commands alone and without the callbacks: once the
  credentials were presented the client is authenticated, until STARTTLS begins anew; an allowed
  MAIL of an authenticated client opens an empty envelope, in place of one that is open; RCPT
  adds to an open envelope; DATA, RSET and the end of the session close it.
\<close>

record txn =
  t_auth :: bool
  t_env :: "(string \<times> string list) option"

definition txn_step :: "'w effective \<Rightarrow> event \<Rightarrow> txn \<Rightarrow> txn" where
  "txn_step opts ev t =
     (case ev of
        Ev_Mail from \<Rightarrow>
          if t_auth t \<and> Allows (ef_Policy opts) \<lparr>Name = [], Addr = from\<rparr>
          then t\<lparr>t_env := Some (from, [])\<rparr> else t
      | Ev_Rcpt to \<Rightarrow> t\<lparr>t_env := map_option (map_prod id (\<lambda>rs. rs @ [to])) (t_env t)\<rparr>
      | Ev_StartTLS \<Rightarrow> \<lparr>t_auth = False, t_env = None\<rparr>
      | Ev_Plain _ _ \<Rightarrow> t\<lparr>t_auth := t_auth t \<or> presents opts ev\<rparr>
      | Ev_Login _ \<Rightarrow> t\<lparr>t_auth := t_auth t \<or> presents opts ev\<rparr>
      | _ \<Rightarrow> t\<lparr>t_env := None\<rparr>)"

definition transaction :: "'w effective \<Rightarrow> event list \<Rightarrow> txn" where
  "transaction opts evs = fold (txn_step opts) evs \<lparr>t_auth = False, t_env = None\<rparr>"

lemma transaction_simps [simp]:
  "transaction opts [] = \<lparr>t_auth = False, t_env = None\<rparr>"
  "transaction opts (evs @ [ev]) = txn_step opts ev (transaction opts evs)"
  by (simp_all add: transaction_def)

text \<open>The session that a transaction stands for; without an open envelope its fields are empty.\<close>

definition session_of :: "txn \<Rightarrow> session" where
  "session_of t =
     \<lparr>authenticated = t_auth t, s_from = (case t_env t of None \<Rightarrow> [] | Some (from, _) \<Rightarrow> from),
      s_recipients = (case t_env t of None \<Rightarrow> [] | Some (_, rs) \<Rightarrow> rs)\<rparr>"

definition tracks :: "txn \<Rightarrow> 'w conn \<Rightarrow> bool" where
  "tracks t c \<longleftrightarrow> c_sess c = session_of t \<and> c_mail c = (t_env t \<noteq> None)"

lemma Mail_refused:
  assumes "Mail U opts from s = (Some e, s')"
  shows "\<not> (authenticated s \<and> Allows (ef_Policy opts) \<lparr>Name = [], Addr = from\<rparr>) \<and> s' = s"
  using assms Check_None [of "ef_Policy opts" "\<lparr>Name = [], Addr = from\<rparr>"] Mail_Some [OF assms]
  by (auto simp: Mail_def Let_def)

lemma conn_step_tracks:
  assumes "conn_step pf opts c ev c'" and "tracks t c"
  shows "tracks (txn_step opts ev t) c'"
  using assms(1)
proof cases
  case (plain u p e s')
  then show ?thesis using assms(2)
    by (auto simp: tracks_def session_of_def txn_step_def presents_def authenticate_eq split: if_splits)
next
  case (login rs ans l s')
  then have "s' = (c_sess c)\<lparr>authenticated := authenticated (c_sess c) \<or> presents opts (Ev_Login rs)\<rparr>"
    using login_run_exact [of opts rs "c_sess c"] by simp
  then show ?thesis using assms(2) login by (simp add: tracks_def session_of_def txn_step_def)
next
  case (mail f s')
  from mail(3) have "authenticated (c_sess c)" "Allows (ef_Policy opts) \<lparr>Name = [], Addr = f\<rparr>"
    "s' = (c_sess c)\<lparr>s_from := f, s_recipients := []\<rparr>" by (auto dest: Mail_None)
  then show ?thesis using assms(2) mail(1,2) by (simp add: tracks_def session_of_def txn_step_def)
next
  case (mail_refused f e s')
  then show ?thesis using assms(2) Mail_refused [OF mail_refused(3)]
    by (auto simp: tracks_def session_of_def txn_step_def)
next
  case (rcpt a e s')
  then show ?thesis using assms(2) by (auto simp: tracks_def session_of_def txn_step_def Rcpt_def)
qed (use assms(2) in \<open>auto simp: tracks_def session_of_def txn_step_def Reset_def Logout_def NewSession_def\<close>)

text \<open>
  The message \<open>m\<close> handed over with session \<open>s\<close> is the one of some DATA command among
  \<open>evs\<close>: the envelope that the commands before it have opened and filled is the envelope of
  the message.
\<close>

definition handed_for :: "'w platform \<Rightarrow> 'w effective \<Rightarrow> event list \<Rightarrow> session \<Rightarrow> message \<Rightarrow> bool" where
  "handed_for pf opts evs s m \<longleftrightarrow>
     (\<exists>pre body post from rs. evs = pre @ Ev_Data body # post
        \<and> transaction opts pre = \<lparr>t_auth = True, t_env = Some (from, rs)\<rparr>
        \<and> s = \<lparr>authenticated = True, s_from = from, s_recipients = rs\<rparr>
        \<and> Allows (ef_Policy opts) \<lparr>Name = [], Addr = from\<rparr> \<and> Addr (From m) = trimSpace from
        \<and> keys_of (pf_unicode pf) (To m @ Cc m @ Bcc m) = envelopeSet (pf_unicode pf) rs
        \<and> int (RecipientCount m) \<le> ef_MaxRecipients opts)"

lemma handed_for_append: "handed_for pf opts evs s m \<Longrightarrow> handed_for pf opts (evs @ fs) s m"
  by (fastforce simp: handed_for_def)

lemma handed_for_data:
  assumes "tracks (transaction opts evs) c" and "c_mail c" and "handed_ok pf opts (c_sess c, m)"
  shows "handed_for pf opts (evs @ [Ev_Data body]) (c_sess c) m"
proof -
  obtain "from" rs where env: "t_env (transaction opts evs) = Some (from, rs)"
    using assms(1,2) by (auto simp: tracks_def)
  with assms(1,3) have "t_auth (transaction opts evs)"
    by (simp add: tracks_def session_of_def handed_ok_def envelope_ok_def)
  with env have "transaction opts evs = \<lparr>t_auth = True, t_env = Some (from, rs)\<rparr>"
    by (cases "transaction opts evs") simp
  moreover from this assms(1) have "c_sess c = \<lparr>authenticated = True, s_from = from, s_recipients = rs\<rparr>"
    by (simp add: tracks_def session_of_def)
  ultimately show ?thesis
    using assms(3) unfolding handed_for_def handed_ok_def envelope_ok_def by fastforce
qed

text \<open>One step of a connection that is in step with its transaction and has only handed over such messages.\<close>

definition conn_inv :: "'w platform \<Rightarrow> 'w effective \<Rightarrow> event list \<Rightarrow> 'w conn \<Rightarrow> bool" where
  "conn_inv pf opts evs c \<longleftrightarrow> conn_ok pf opts c \<and> tracks (transaction opts evs) c
     \<and> list_all (\<lambda>(s, m). handed_for pf opts evs s m) (c_handed c)"

lemma conn_inv_new: "0 \<le> ef_MaxRecipients opts \<Longrightarrow> conn_inv pf opts [] (new_conn w logs)"
  by (simp add: conn_inv_def conn_ok_def tracks_def session_of_def new_conn_def NewSession_def)

lemma conn_step_inv:
  assumes "conn_step pf opts c ev c'" and "0 \<le> ef_MaxRecipients opts" and "conn_inv pf opts evs c"
  shows "conn_inv pf opts (evs @ [ev]) c'"
proof -
  have ok: "conn_ok pf opts c'" using conn_step_ok [OF assms(1,2)] assms(3) by (simp add: conn_inv_def)
  have old: "list_all (\<lambda>(s, m). handed_for pf opts (evs @ [ev]) s m) (c_handed c)"
    using assms(3) by (auto simp: conn_inv_def list_all_iff handed_for_append)
  have "list_all (\<lambda>(s, m). handed_for pf opts (evs @ [ev]) s m) (c_handed c')"
    using assms(1)
  proof cases
    case (data body reply w' logs')
    then have "handed_for pf opts (evs @ [ev]) (c_sess c) m"
      if "m \<in> set (handed_by pf opts body (c_sess c) (c_world c))" for m
      using that assms(3) ok handed_for_data [of opts evs c pf m body]
      by (auto simp: conn_inv_def conn_ok_def list_all_iff)
    with old data show ?thesis by (auto simp: list_all_iff)
  qed (use old in simp_all)
  with ok conn_step_tracks [OF assms(1)] assms(3) show ?thesis by (simp add: conn_inv_def)
qed

lemma conn_run_inv:
  assumes "conn_run pf opts (new_conn w logs) evs c" and "0 \<le> ef_MaxRecipients opts"
  shows "conn_inv pf opts evs c"
  using assms(1)
proof (induction rule: conn_run.induct)
  case run_start
  show ?case by (rule conn_inv_new [OF assms(2)])
next
  case (run_step evs c ev c')
  then show ?case using conn_step_inv assms(2) by blast
qed

section \<open>An authorised transaction\<close>

lemma rcpts_run:
  assumes "conn_run pf opts c0 evs c" and "c_mail c"
    and "int (length (s_recipients (c_sess c)) + length rs) \<le> ef_MaxRecipients opts"
  shows "conn_run pf opts c0 (evs @ map Ev_Rcpt rs)
    (c\<lparr>c_sess := (c_sess c)\<lparr>s_recipients := s_recipients (c_sess c) @ rs\<rparr>\<rparr>)"
  using assms
proof (induction rs arbitrary: evs c)
  case Nil
  then show ?case by simp
next
  case (Cons r rs)
  let ?c = "c\<lparr>c_sess := (c_sess c)\<lparr>s_recipients := s_recipients (c_sess c) @ [r]\<rparr>\<rparr>"
  have "conn_step pf opts c (Ev_Rcpt r) ?c"
    by (rule rcpt [of _ _ _ None]) (use Cons.prems(2,3) in \<open>simp_all add: Rcpt_def\<close>)
  from run_step [OF Cons.prems(1) this] Cons.IH [of "evs @ [Ev_Rcpt r]" ?c] Cons.prems(2,3)
  show ?case by simp
qed

lemma mail_run:
  assumes "conn_run pf opts c0 evs c" and "authenticated (c_sess c)"
    and "Allows (ef_Policy opts) \<lparr>Name = [], Addr = from\<rparr>" and "int (length rs) \<le> ef_MaxRecipients opts"
  shows "conn_run pf opts c0 (evs @ Ev_Mail from # map Ev_Rcpt rs)
    (c\<lparr>c_mail := True, c_sess := \<lparr>authenticated = True, s_from = from, s_recipients = rs\<rparr>\<rparr>)"
proof -
  let ?c = "c\<lparr>c_sess := \<lparr>authenticated = True, s_from = from, s_recipients = []\<rparr>, c_mail := True\<rparr>"
  have "Mail (pf_unicode pf) opts from (c_sess c) = (None, c_sess ?c)"
    using Check_None [THEN iffD2, OF assms(3)] assms(2) by (simp add: Mail_def Let_def)
  from run_step [OF assms(1) mail [OF this]]
  have "conn_run pf opts c0 (evs @ [Ev_Mail from]) ?c" by simp
  from rcpts_run [OF this, of rs] assms(4) show ?thesis by simp
qed

text \<open>A whole transaction of an authenticated client, from MAIL to DATA.\<close>

definition mail_events :: "string \<Rightarrow> string list \<Rightarrow> string \<Rightarrow> event list" where
  "mail_events from rs raw = Ev_Mail from # map Ev_Rcpt rs @ [Ev_Data (Inr raw)]"

lemma transaction_run:
  assumes "conn_run pf opts c0 evs c" and "authenticated (c_sess c)"
    and "Allows (ef_Policy opts) \<lparr>Name = [], Addr = from\<rparr>" and "int (length rs) \<le> ef_MaxRecipients opts"
    and "ef_Now opts (c_world c) = (start, w1)"
    and "Parse (pf_unicode pf) (pf_create_reader pf) (pf_now pf w1) raw from rs = Inr m"
  shows "\<exists>c' i. conn_run pf opts c0 (evs @ mail_events from rs raw) c' \<and> authenticated (c_sess c')
    \<and> c_handed c' = c_handed c @ [(\<lparr>authenticated = True, s_from = from, s_recipients = rs\<rparr>, m\<lparr>ID := i\<rparr>)]
    \<and> c_world c' = fst (snd (Data pf opts (Inr raw)
        \<lparr>authenticated = True, s_from = from, s_recipients = rs\<rparr> (c_world c) (c_logs c)))"
proof -
  let ?s = "\<lparr>authenticated = True, s_from = from, s_recipients = rs\<rparr>"
  let ?c = "c\<lparr>c_mail := True, c_sess := ?s\<rparr>"
  have h: "handed_by pf opts (Inr raw) ?s (c_world c) = [m\<lparr>ID := fst (ef_NewID opts w1)\<rparr>]"
    using assms(5,6) by (simp add: handed_by_def prepare_def case_prod_beta)
  obtain reply w' logs' where d: "Data pf opts (Inr raw) (c_sess ?c) (c_world ?c) (c_logs ?c) = (reply, w', logs')"
    by (metis surj_pair)
  note run = run_step [OF mail_run [OF assms(1-4)] data [OF _ d]]
  show ?thesis unfolding mail_events_def
    by (rule exI, rule exI [of _ "fst (ef_NewID opts w1)"], intro conjI)
      (use run d in \<open>simp, simp_all add: h Reset_def\<close>)
qed

definition login_mail :: "'w effective \<Rightarrow> string \<Rightarrow> string list \<Rightarrow> string \<Rightarrow> event list" where
  "login_mail opts from rs raw =
     Ev_Plain (ef_Username opts) (ef_Password opts) # mail_events from rs raw"

lemma login_run:
  "conn_run pf opts (new_conn w logs) [Ev_Plain (ef_Username opts) (ef_Password opts)]
     ((new_conn w logs)\<lparr>c_sess := NewSession\<lparr>authenticated := True\<rparr>\<rparr>)"
  using run_step [OF run_start plain [of opts "ef_Username opts" "ef_Password opts" "new_conn w logs" None
      "NewSession\<lparr>authenticated := True\<rparr>" pf]]
  by (simp add: authenticate_eq new_conn_def)

lemma authorised_run:
  assumes "Allows (ef_Policy opts) \<lparr>Name = [], Addr = from\<rparr>"
    and "int (length rs) \<le> ef_MaxRecipients opts" and "ef_Now opts w = (start, w1)"
    and "Parse (pf_unicode pf) (pf_create_reader pf) (pf_now pf w1) raw from rs = Inr m"
  shows "\<exists>c i. conn_run pf opts (new_conn w logs) (login_mail opts from rs raw) c
    \<and> authenticated (c_sess c)
    \<and> c_handed c = [(\<lparr>authenticated = True, s_from = from, s_recipients = rs\<rparr>, m\<lparr>ID := i\<rparr>)]
    \<and> c_world c = fst (snd (Data pf opts (Inr raw)
        \<lparr>authenticated = True, s_from = from, s_recipients = rs\<rparr> w logs))"
  using transaction_run [OF login_run _ assms(1,2) _ assms(4), of w logs start] assms(3)
  by (simp add: new_conn_def login_mail_def)

section \<open>A concrete connection\<close>

definition example_platform :: "int platform" where
  "example_platform =
     \<lparr>pf_unicode = ascii_tables, pf_create_reader = (\<lambda>_. (example_reader, None)),
      pf_now = (\<lambda>_. 0), pf_with_timeout = (\<lambda>_ w. w)\<rparr>"

definition example_opts :: "int effective" where
  "example_opts =
     \<lparr>ef_Addr = '':2525'', ef_Domain = ''localhost'', ef_Username = ''u'', ef_Password = ''p'',
      ef_MaxMessageBytes = 1000, ef_MaxRecipients = 2, ef_ReadTimeout = 0, ef_WriteTimeout = 0,
      ef_TLSConfig = None, ef_Policy = NewSenderPolicy [''y.org''],
      ef_Sender = (\<lambda>m w. ((Some \<lparr>ProviderID = [], ResHTTPStatus = 200, ResAttempts = 1\<rparr>, None), w + 1)),
      ef_Logger = \<lparr>lg_level = LevelInfo\<rparr>, ef_NewID = (\<lambda>w. (''id'', w)), ef_Now = (\<lambda>w. (w, w))\<rparr>"

lemma example_allows:
  "Allows (ef_Policy example_opts) \<lparr>Name = [], Addr = ''s@y.org''\<rparr>"
  "int (length [''a@x.org'']) \<le> ef_MaxRecipients example_opts"
  "int (length [''a@x.org'', ''b@x.org'']) \<le> ef_MaxRecipients example_opts"
  "ef_Now example_opts w = (w, w)"
proof -
  show "Allows (ef_Policy example_opts) \<lparr>Name = [], Addr = ''s@y.org''\<rparr>" by code_simp
qed (simp_all add: example_opts_def)

lemma example_parses:
  assumes "rs = [''a@x.org''] \<or> rs = [''a@x.org'', ''b@x.org'']"
  obtains m where "Parse (pf_unicode example_platform) (pf_create_reader example_platform)
     (pf_now example_platform w) ''raw'' ''s@y.org'' rs = Inr m"
proof -
  have "case Parse ascii_tables (\<lambda>_. (example_reader, None)) 0 ''raw'' ''s@y.org'' [''a@x.org'']
     of Inl _ \<Rightarrow> False | Inr _ \<Rightarrow> True"
    "case Parse ascii_tables (\<lambda>_. (example_reader, None)) 0 ''raw'' ''s@y.org'' [''a@x.org'', ''b@x.org'']
     of Inl _ \<Rightarrow> False | Inr _ \<Rightarrow> True" by code_simp+
  with assms that show thesis by (auto simp: example_platform_def split: sum.splits)
qed

section \<open>Properties\<close>

text \<open>
  C4. The relay is never open: on a connection that has not presented the configured user
  name and password together, over PLAIN or over LOGIN, no message is ever handed to the
  sender, whatever else the client does and in whatever order.
\<close>

theorem no_credentials_no_relay:
  assumes "conn_run pf opts (new_conn w logs) evs c"
    and "list_all (\<lambda>ev. \<not> presents opts ev) evs"
  shows "c_handed c = [] \<and> \<not> authenticated (c_sess c)"
  using conn_run_idle [OF assms] by (simp add: conn_idle_def)

theorem no_credentials_no_relay_witness:
  "conn_run example_platform example_opts (new_conn 0 []) [Ev_Plain ''u'' ''wrong''] (new_conn 0 [])
   \<and> c_handed (new_conn (0::int) []) = []"
proof -
  have "conn_step example_platform example_opts (new_conn 0 []) (Ev_Plain ''u'' ''wrong'')
      ((new_conn 0 [])\<lparr>c_sess := NewSession\<rparr>)"
    by (rule plain [of _ _ _ _ "Some ErrAuthFailed"])
      (simp add: authenticate_eq example_opts_def new_conn_def)
  moreover have "(new_conn 0 [])\<lparr>c_sess := NewSession\<rparr> = (new_conn 0 [] :: int conn)"
    by (simp add: new_conn_def)
  ultimately have run: "conn_run example_platform example_opts (new_conn 0 [])
      [Ev_Plain ''u'' ''wrong''] (new_conn 0 [])"
    using run_step [OF run_start] by fastforce
  from no_credentials_no_relay [OF run] run show ?thesis
    by (simp add: presents_def example_opts_def)
qed

text \<open>
  C5. Every message handed to the sender on any connection is the message of one DATA command of
  this connection, and its envelope is the transaction that the commands before it make up: the
  client had presented the credentials; the last MAIL that was accepted named a sender that the
  allowlist admits, and it is the From address of the message; the recipients of the message are
  exactly those named by RCPT since that MAIL, none of an earlier transaction, and there are no
  more of them than \<^verbatim>\<open>MaxRecipients\<close>.
\<close>

theorem handed_messages_authorised:
  assumes "conn_run pf opts (new_conn w logs) evs c" and "0 \<le> ef_MaxRecipients opts"
    and "(s, m) \<in> set (c_handed c)"
  shows "\<exists>pre body post from rs. evs = pre @ Ev_Data body # post
    \<and> transaction opts pre = \<lparr>t_auth = True, t_env = Some (from, rs)\<rparr>
    \<and> s = \<lparr>authenticated = True, s_from = from, s_recipients = rs\<rparr>
    \<and> Allows (ef_Policy opts) \<lparr>Name = [], Addr = from\<rparr> \<and> Addr (From m) = trimSpace from
    \<and> keys_of (pf_unicode pf) (To m @ Cc m @ Bcc m) = envelopeSet (pf_unicode pf) rs
    \<and> int (RecipientCount m) \<le> ef_MaxRecipients opts"
proof -
  have "handed_for pf opts evs s m"
    using conn_run_inv [OF assms(1,2)] assms(3) by (auto simp: conn_inv_def list_all_iff)
  then show ?thesis by (simp only: handed_for_def)
qed

text \<open>Two transactions on one connection: the second message goes to the recipient of the second only.\<close>

theorem handed_messages_authorised_witness:
  "\<exists>c s m. conn_run example_platform example_opts (new_conn 0 [])
      (login_mail example_opts ''s@y.org'' [''a@x.org'', ''b@x.org''] ''raw''
         @ mail_events ''s@y.org'' [''a@x.org''] ''raw'') c
    \<and> last (c_handed c) = (s, m) \<and> length (c_handed c) = 2
    \<and> keys_of ascii_tables (To m @ Cc m @ Bcc m) = {''a@x.org''}"
proof -
  obtain m1 where m1: "Parse (pf_unicode example_platform) (pf_create_reader example_platform)
     (pf_now example_platform 0) ''raw'' ''s@y.org'' [''a@x.org'', ''b@x.org''] = Inr m1"
    using example_parses by blast
  obtain c1 i where run1: "conn_run example_platform example_opts (new_conn 0 [])
      (login_mail example_opts ''s@y.org'' [''a@x.org'', ''b@x.org''] ''raw'') c1"
    and auth: "authenticated (c_sess c1)" and one: "length (c_handed c1) = 1"
    using authorised_run [OF example_allows(1,3,4) m1] by fastforce
  obtain m2 where m2: "Parse (pf_unicode example_platform) (pf_create_reader example_platform)
     (pf_now example_platform (c_world c1)) ''raw'' ''s@y.org'' [''a@x.org''] = Inr m2"
    using example_parses by blast
  let ?s = "\<lparr>authenticated = True, s_from = ''s@y.org'', s_recipients = [''a@x.org'']\<rparr>"
  obtain c j where run: "conn_run example_platform example_opts (new_conn 0 [])
      (login_mail example_opts ''s@y.org'' [''a@x.org'', ''b@x.org''] ''raw''
         @ mail_events ''s@y.org'' [''a@x.org''] ''raw'') c"
    and two: "c_handed c = c_handed c1 @ [(?s, m2\<lparr>ID := j\<rparr>)]"
    using transaction_run [OF run1 auth example_allows(1,2,4) m2] by blast
  have "envelopeSet ascii_tables [''a@x.org''] = {''a@x.org''}" by code_simp
  with handed_messages_authorised [OF run, of ?s "m2\<lparr>ID := j\<rparr>"] two
  have "keys_of ascii_tables (To m2 @ Cc m2 @ Bcc m2) = {''a@x.org''}"
    by (auto simp: example_opts_def example_platform_def)
  with run one two show ?thesis by (intro exI [of _ c]) simp
qed

end
