(* ===== verification/Go_Time.thy ===== *)
theory Go_Time
  imports Go_Strings
begin

text \<open>
  Go's package \<^verbatim>\<open>time\<close> as the configuration uses it: \<^verbatim>\<open>ParseDuration\<close> and
  \<^verbatim>\<open>Duration.String\<close>, on nanoseconds. The one floating-point product in
  \<^verbatim>\<open>ParseDuration\<close>, the value of the digits after a point, is a parameter \<open>frac\<close>:
  \<open>frac f unit k\<close> is \<^verbatim>\<open>uint64(float64(f) * (float64(unit) / scale))\<close> with a scale of
  \<open>10 ^ k\<close>.
\<close>

section \<open>\<^verbatim>\<open>ParseDuration\<close>\<close>

definition digit :: "char \<Rightarrow> bool" where
  "digit c \<longleftrightarrow> 48 \<le> byte c \<and> byte c \<le> 57"

definition two63 :: int where
  "two63 = 9223372036854775808"

definition two64 :: int where
  "two64 = 18446744073709551616"

fun leadingInt :: "int \<Rightarrow> string \<Rightarrow> (int \<times> string) option" where
  "leadingInt x [] = Some (x, [])"
| "leadingInt x (c # cs) =
     (if \<not> digit c then Some (x, c # cs)
      else if x > two63 div 10 then None
      else (let y = x * 10 + (int (byte c) - 48) in if y > two63 then None else leadingInt y cs))"

text \<open>The fraction's digits as far as they fit, their number, and the rest.\<close>

fun leadingFraction :: "int \<Rightarrow> nat \<Rightarrow> bool \<Rightarrow> string \<Rightarrow> int \<times> nat \<times> string" where
  "leadingFraction x k overflow [] = (x, k, [])"
| "leadingFraction x k overflow (c # cs) =
     (if \<not> digit c then (x, k, c # cs)
      else if overflow \<or> x > (two63 - 1) div 10 then leadingFraction x k True cs
      else (let y = x * 10 + (int (byte c) - 48)
            in if y > two63 then leadingFraction x k True cs else leadingFraction y (Suc k) False cs))"

definition unitMap :: "(string \<times> int) list" where
  "unitMap =
     [(''ns'', 1), (''us'', 1000), ([CHR 0xC2, CHR 0xB5, CHR ''s''], 1000),
      ([CHR 0xCE, CHR 0xBC, CHR ''s''], 1000), (''ms'', 1000000), (''s'', second),
      (''m'', 60 * second), (''h'', 3600 * second)]"

type_synonym frac = "int \<Rightarrow> int \<Rightarrow> nat \<Rightarrow> int"

definition unit_char :: "char \<Rightarrow> bool" where
  "unit_char c \<longleftrightarrow> c \<noteq> CHR ''.'' \<and> \<not> digit c"

text \<open>The part from the point on: digits, their number, whether there are any, the rest.\<close>

definition fraction :: "string \<Rightarrow> int \<times> nat \<times> bool \<times> string" where
  "fraction s =
     (if take 1 s = ''.'' then
        (case leadingFraction 0 0 False (drop 1 s) of (f, k, r) \<Rightarrow> (f, k, r \<noteq> drop 1 s, r))
      else (0, 0, False, s))"

text \<open>One number with its unit: one round of the loop up to \<^verbatim>\<open>d += v\<close>.\<close>

definition duration_group :: "frac \<Rightarrow> string \<Rightarrow> (int \<times> string) option" where
  "duration_group frac s =
     (if s = [] \<or> unit_char (hd s) then None
      else (case leadingInt 0 s of
         None \<Rightarrow> None
       | Some (v, s1) \<Rightarrow>
           (let pre = (s1 \<noteq> s); (f, k, post, s2) = fraction s1; u = takeWhile unit_char s2
            in if \<not> pre \<and> \<not> post then None
               else if u = [] then None
               else (case map_of unitMap u of
                  None \<Rightarrow> None
                | Some unit \<Rightarrow>
                    if v > two63 div unit then None
                    else (let v1 = v * unit; v2 = (if f > 0 then (v1 + frac f unit k) mod two64 else v1)
                          in if f > 0 \<and> v2 > two63 then None else Some (v2, dropWhile unit_char s2))))))"

lemma leadingInt_length: "leadingInt x s = Some (v, r) \<Longrightarrow> length r \<le> length s"
  by (induction x s rule: leadingInt.induct) (auto simp: Let_def split: if_splits)

lemma leadingFraction_length: "leadingFraction x k b s = (f, n, r) \<Longrightarrow> length r \<le> length s"
  by (induction x k b s rule: leadingFraction.induct) (auto simp: Let_def split: if_splits)

lemma duration_group_length:
  assumes "duration_group frac s = Some (v, r)"
  shows "length r < length s"
proof -
  obtain v1 s1 where i: "leadingInt 0 s = Some (v1, s1)"
    using assms by (auto simp: duration_group_def split: if_splits option.splits)
  obtain f k post s2 where f: "fraction s1 = (f, k, post, s2)" by (metis surj_pair)
  have le: "length s2 \<le> length s1"
    using f by (auto simp: fraction_def dest: leadingFraction_length split: if_splits prod.splits)
  have "takeWhile unit_char s2 \<noteq> []" and r: "r = dropWhile unit_char s2"
    using assms by (auto simp: duration_group_def i f Let_def split: if_splits option.splits)
  then have "length (dropWhile unit_char s2) < length s2"
    by (cases s2) (auto simp: le_imp_less_Suc length_dropWhile_le split: if_splits)
  with r le leadingInt_length [OF i] show ?thesis by simp
qed

function duration_loop :: "frac \<Rightarrow> int \<Rightarrow> string \<Rightarrow> int option" where
  "duration_loop frac d s =
     (if s = [] then Some d
      else (case duration_group frac s of
         None \<Rightarrow> None
       | Some (v, r) \<Rightarrow>
           (let d' = (d + v) mod two64
            in if d' > two63 then None else duration_loop frac d' r)))"
  by pat_completeness auto
termination
  by (relation "measure (\<lambda>(frac, d, s). length s)") (auto dest: duration_group_length)

declare duration_loop.simps [simp del]

definition ParseDuration :: "frac \<Rightarrow> string \<Rightarrow> int option" where
  "ParseDuration frac s0 =
     (let neg = (take 1 s0 = ''-'');
          s = (if take 1 s0 = ''-'' \<or> take 1 s0 = ''+'' then drop 1 s0 else s0)
      in if s = ''0'' then Some 0
         else if s = [] then None
         else (case duration_loop frac 0 s of
            None \<Rightarrow> None
          | Some d \<Rightarrow> if neg then Some (- d) else if d > two63 - 1 then None else Some d))"

section \<open>\<^verbatim>\<open>Duration.String\<close>\<close>

text \<open>The last \<open>prec\<close> digits as a fraction without trailing zeros, and what is left of the number.\<close>

fun fmtFrac :: "nat \<Rightarrow> int \<Rightarrow> bool \<Rightarrow> string \<Rightarrow> string \<times> int" where
  "fmtFrac 0 v print acc = ((if print then CHR ''.'' # acc else acc), v)"
| "fmtFrac (Suc prec) v print acc =
     (let d = v mod 10; print' = print \<or> d \<noteq> 0
      in fmtFrac prec (v div 10) print' (if print' then char_of (48 + nat d) # acc else acc))"

definition Duration_String :: "int \<Rightarrow> string" where
  "Duration_String d =
     (let u = \<bar>d\<bar>;
          small = (\<lambda>prec unit. case fmtFrac prec u False unit of (t, v) \<Rightarrow> itoa v @ t);
          text = (if u = 0 then ''0s''
            else if u < 1000 then small 0 ''ns''
            else if u < 1000000 then small 3 [CHR 0xC2, CHR 0xB5, CHR ''s'']
            else if u < second then small 6 ''ms''
            else (case fmtFrac 9 u False ''s'' of
               (t, secs) \<Rightarrow>
                 (let t1 = itoa (secs mod 60) @ t; mins = secs div 60
                  in if mins > 0 then
                       (let t2 = itoa (mins mod 60) @ CHR ''m'' # t1; hours = mins div 60
                        in if hours > 0 then itoa hours @ CHR ''h'' # t2 else t2)
                     else t1)))
      in if d < 0 then CHR ''-'' # text else text)"

section \<open>What is printed is read back\<close>

text \<open>The two models fit together: a check on both, for the values of whole seconds.\<close>

lemma digits_val_le: "digits_val acc ds = Some n \<Longrightarrow> acc \<le> n"
  by (induction acc ds rule: digits_val.induct) (auto split: if_splits)

lemma leadingInt_digits:
  assumes "digits_val acc ds = Some n" and "int n \<le> two63" and "u = [] \<or> \<not> digit (hd u)"
  shows "leadingInt (int acc) (ds @ u) = Some (int n, u)"
  using assms
proof (induction acc ds rule: digits_val.induct)
  case (1 acc)
  then show ?case by (cases u) auto
next
  case (2 acc c cs)
  then have c: "48 \<le> byte c" "byte c \<le> 57" by (auto split: if_splits)
  let ?y = "10 * acc + (byte c - 48)"
  have "?y \<le> n" using 2(2) c by (auto dest: digits_val_le)
  then have le: "int ?y \<le> two63" using 2(3) by linarith
  have y: "int acc * 10 + (int (byte c) - 48) = int ?y" using c by simp
  have "int acc \<le> two63 div 10" using le by (simp add: two63_def)
  moreover have "leadingInt (int ?y) (cs @ u) = Some (int n, u)"
    using 2 c by simp
  ultimately show ?case using c le by (simp add: digit_def Let_def y)
qed

lemma unit_digit: "digit c \<Longrightarrow> \<not> unit_char c"
  by (simp add: unit_char_def)

lemma show_nat_hd: "digit (hd (show_nat n @ t))"
  using show_nat_digits [of "hd (show_nat n)" n] by (simp add: digit_def)

text \<open>A printed number with a unit is one group.\<close>

lemma duration_group_show:
  assumes "map_of unitMap u = Some unit" and "0 < unit" and "int n \<le> two63 div unit" and "int n \<le> two63"
    and "list_all unit_char u" and "u \<noteq> []" and "r = [] \<or> digit (hd r)"
  shows "duration_group frac (show_nat n @ u @ r) = Some (int n * unit, r)"
proof -
  obtain c u' where u: "u = c # u'" "unit_char c" using assms(5,6) by (cases u) auto
  then have dot: "take 1 (u @ r) \<noteq> ''.''" and nd: "\<not> digit (hd (u @ r))" by (auto simp: unit_char_def)
  have i: "leadingInt 0 (show_nat n @ u @ r) = Some (int n, u @ r)"
    using leadingInt_digits [OF digits_val_show_nat assms(4), of "u @ r"] nd by simp
  have tail: "takeWhile unit_char r = []" "dropWhile unit_char r = r"
    using assms(7) unit_digit by (cases r; auto)+
  have w: "takeWhile unit_char (u @ r) = u" "dropWhile unit_char (u @ r) = r"
    using assms(5) tail by (simp_all add: list_all_iff)
  have h: "\<not> unit_char (hd (show_nat n @ u @ r))" using show_nat_hd unit_digit by blast
  have pre: "u @ r \<noteq> show_nat n @ u @ r" by simp
  show ?thesis
    using assms(1,3,6) h pre dot by (simp add: duration_group_def i fraction_def w)
qed

lemma fmtFrac_zero: "fmtFrac n (v * 10 ^ n) False acc = (acc, v)"
  by (induction n arbitrary: v) (simp_all add: Let_def mult.assoc [symmetric] mult.commute)

lemma itoa_nonneg: "0 \<le> v \<Longrightarrow> itoa v = show_nat (nat v)"
  by (simp add: itoa_def)

lemma duration_loop_group:
  assumes "duration_group frac s = Some (v, r)" and "0 \<le> d + v" and "d + v \<le> two63"
  shows "duration_loop frac d s = duration_loop frac (d + v) r"
proof -
  have "s \<noteq> []" using duration_group_length [OF assms(1)] by auto
  moreover have "(d + v) mod two64 = d + v" using assms(2,3) by (simp add: two63_def two64_def)
  ultimately show ?thesis using assms by (subst duration_loop.simps) (simp add: Let_def)
qed

lemma unit_values:
  "map_of unitMap ''s'' = Some second" "map_of unitMap ''m'' = Some (60 * second)"
  "map_of unitMap ''h'' = Some (3600 * second)"
  "list_all unit_char ''s''" "list_all unit_char ''m''" "list_all unit_char ''h''"
  by (simp_all add: unitMap_def unit_char_def digit_def)

lemma duration_loop_unit:
  assumes "u \<in> {''s'', ''m'', ''h''}" and "map_of unitMap u = Some unit" and "0 \<le> d" and "0 \<le> n"
    and "d + n * unit \<le> two63" and "r = [] \<or> digit (hd r)"
  shows "duration_loop frac d (itoa n @ u @ r) = duration_loop frac (d + n * unit) r"
proof -
  have unit: "unit \<in> {second, 60 * second, 3600 * second}" "list_all unit_char u" "u \<noteq> []"
    using assms(1,2) unit_values by auto
  then have pos: "0 < unit" "1 \<le> unit" by (auto simp: second_def)
  have nu: "n * unit \<le> two63" using assms(3,5) by simp
  then have le: "n \<le> two63 div unit" using pos(1) by (simp add: zdiv_mono1 [of "n * unit" _ unit, simplified])
  moreover have "n \<le> n * unit" using assms(4) pos(2) by (simp add: mult_le_cancel_left1)
  ultimately have "duration_group frac (show_nat (nat n) @ u @ r) = Some (int (nat n) * unit, r)"
    using assms(2,4,6) unit pos nu by (intro duration_group_show) auto
  with assms(3-5) pos(1) show ?thesis by (simp add: itoa_nonneg duration_loop_group)
qed

lemma itoa_hd: "0 \<le> n \<Longrightarrow> digit (hd (itoa n @ t))"
  using show_nat_hd [of "nat n" t] by (simp only: itoa_nonneg)

definition hms :: "int \<Rightarrow> string" where
  "hms n =
     (let t = itoa (n mod 60) @ ''s'' in
      if n div 60 > 0 then
        (let t2 = itoa (n div 60 mod 60) @ CHR ''m'' # t
         in if n div 60 div 60 > 0 then itoa (n div 60 div 60) @ CHR ''h'' # t2 else t2)
      else t)"

lemma Duration_String_seconds: "0 < n \<Longrightarrow> Duration_String (n * second) = hms n"
proof -
  assume n: "0 < n"
  then have u: "\<bar>n * second\<bar> = n * 10 ^ 9" "\<not> n * second < second" by (simp_all add: second_def)
  have big: "n * 10 ^ 9 \<noteq> 0" "\<not> n * 10 ^ 9 < 1000" "\<not> n * 10 ^ 9 < 1000000" "\<not> n * 10 ^ 9 < second"
    "\<not> n * second < 0" using n by (simp_all add: second_def)
  show ?thesis
    unfolding Duration_String_def Let_def u(1) hms_def fmtFrac_zero prod.case
    using big by simp
qed

lemma duration_loop_hms:
  assumes "0 \<le> n" and "n * second \<le> two63"
  shows "duration_loop frac 0 (hms n) = Some (n * second)"
proof -
  define s m h where "s = n mod 60" and "m = n div 60 mod 60" and "h = n div 60 div 60"
  have split: "n = h * 3600 + m * 60 + s"
    unfolding s_def m_def h_def
    using div_mult_mod_eq [of n 60] div_mult_mod_eq [of "n div 60" 60] by linarith
  have nn: "0 \<le> s" "0 \<le> m" "0 \<le> h" using assms(1) by (simp_all add: s_def m_def h_def)
  have pos: "0 < second" by (simp add: second_def)
  have last: "duration_loop frac d (itoa s @ ''s'') = Some (d + s * second)"
    if "0 \<le> d" "d + s * second \<le> two63" for d
    using duration_loop_unit [of "''s''" second d s "[]" frac] that nn unit_values
    by (simp add: duration_loop.simps [of _ _ "[]"])
  have mid: "duration_loop frac d (itoa m @ CHR ''m'' # itoa s @ ''s'') = Some (d + m * (60 * second) + s * second)"
    if "0 \<le> d" "d + m * (60 * second) + s * second \<le> two63" for d
  proof -
    have "0 \<le> s * second" "0 \<le> m * (60 * second)" using nn pos by simp_all
    then show ?thesis
      using duration_loop_unit [of "''m''" "60 * second" d m "itoa s @ ''s''" frac] last that nn unit_values itoa_hd
      by simp
  qed
  have sum: "n * second = h * (3600 * second) + m * (60 * second) + s * second"
    by (subst split) (simp add: algebra_simps)
  have ge: "0 \<le> s * second" "0 \<le> m * (60 * second)" "0 \<le> h * (3600 * second)" using nn pos by simp_all
  have hb: "h * (3600 * second) \<le> two63" using assms(2) ge unfolding sum by linarith
  have top: "duration_loop frac 0 (itoa h @ CHR ''h'' # itoa m @ CHR ''m'' # itoa s @ ''s'') = Some (n * second)"
    using duration_loop_unit [of "''h''" "3600 * second" 0 h "itoa m @ CHR ''m'' # itoa s @ ''s''" frac]
      mid [of "h * (3600 * second)"] assms(2) hb nn ge unit_values itoa_hd
    by (simp add: sum)
  have no_h: "h = 0" if "\<not> 0 < h" using that nn by simp
  have no_m: "m = 0 \<and> h = 0" if "\<not> 0 < n div 60"
    using that assms(1) by (simp add: m_def h_def not_less pos_imp_zdiv_nonneg_iff antisym)
  show ?thesis
    using top mid [of 0] last [of 0] assms(2) no_h no_m ge
    by (auto simp: hms_def Let_def sum simp flip: s_def m_def h_def)
qed

lemma show_zero: "show_nat 0 = ''0''"
  by code_simp

text \<open>Whole seconds are read back exactly, whatever the floating-point unit does.\<close>

lemma ParseDuration_String:
  assumes "0 \<le> n" and "n * second < two63"
  shows "ParseDuration frac (Duration_String (n * second)) = Some (n * second)"
proof (cases "n = 0")
  case True
  have "duration_group frac ''0s'' = Some (0, [])"
    using duration_group_show [of "''s''" second 0 "[]" frac] unit_values
    by (simp add: show_zero two63_def second_def)
  then have "duration_loop frac 0 ''0s'' = Some 0"
    by (simp add: duration_loop_group two63_def duration_loop.simps [of _ _ "[]"])
  with True show ?thesis
    by (simp add: Duration_String_def ParseDuration_def Let_def two63_def)
next
  case False
  with assms(1) have printed: "Duration_String (n * second) = hms n" by (intro Duration_String_seconds) simp
  have "\<exists>k t. hms n = itoa k @ t \<and> 0 \<le> k \<and> t \<noteq> []"
  proof (cases "0 < n div 60")
    case False
    then have "hms n = itoa (n mod 60) @ ''s''" by (simp add: hms_def)
    then show ?thesis by (intro exI [of _ "n mod 60"] exI [of _ "''s''"]) simp
  next
    case True
    have ex: "\<exists>k' t'. itoa k @ t = itoa k' @ t' \<and> 0 \<le> k' \<and> t' \<noteq> []" if "0 \<le> k" "t \<noteq> []" for k t
      using that by blast
    from True show ?thesis
      by (cases "0 < n div 60 div 60") (auto simp: hms_def Let_def intro: ex)
  qed
  then obtain k t where k: "hms n = itoa k @ t" "0 \<le> k" "t \<noteq> []" by blast
  then obtain c cs where c: "hms n = c # cs" "digit c" "cs \<noteq> []"
    using itoa_hd [of k t] by (cases "show_nat (nat k)") (auto simp: itoa_nonneg)
  then have "c \<noteq> CHR ''-''" "c \<noteq> CHR ''+''" by (auto simp: digit_def)
  with c(1,3) duration_loop_hms [of n frac] assms show ?thesis
    by (simp add: printed ParseDuration_def Let_def)
qed

end
