(* ===== verification/Config.thy ===== *)
theory Config
  imports Logging Go_Time
begin

text \<open>
  \<^verbatim>\<open>internal/config\<close>: loading and validating the environment, and the redacted views
  of the result. Every getter returns its value with the problems it found, in the order in
  which the code appends them. \<^verbatim>\<open>url.Parse\<close>, whose checks differ between Go releases,
  and the floating-point product in \<^verbatim>\<open>time.ParseDuration\<close> are fields of the record
  \<open>config_lib\<close>.
\<close>

section \<open>The configuration\<close>

record config_lib =
  cl_unicode :: unicode
  cl_frac :: frac
  parseURL :: "string \<Rightarrow> gerror + (string \<times> string)"   \<comment> \<open>scheme and host\<close>

definition TransportREST :: string where
  "TransportREST = ''rest''"
definition TransportWorker :: string where
  "TransportWorker = ''worker''"
definition cloudflareMaxMessageBytes :: int where
  "cloudflareMaxMessageBytes = 5242880"
definition cloudflareMaxRecipients :: int where
  "cloudflareMaxRecipients = 50"

record config =
  SMTPHost :: string
  SMTPPort :: int
  SMTPUser :: string
  SMTPPassword :: string
  SMTPMaxMessageBytes :: int
  SMTPMaxRecipients :: int
  SMTPReadTimeout :: int
  SMTPWriteTimeout :: int
  SMTPTLSCert :: string
  SMTPTLSKey :: string
  CloudflareTransport :: string
  CloudflareAccountID :: string
  CloudflareAPIToken :: string
  CloudflareAPIBaseURL :: string
  CloudflareTimeout :: int
  CloudflareMaxRetries :: int
  WorkerURL :: string
  WorkerSecret :: string
  AllowedFromDomains :: "string list"
  HealthHost :: string
  HealthPort :: int
  LogLevel :: string

type_synonym getenv = "string \<Rightarrow> string option"
type_synonym 'a checked = "'a \<times> string list"

section \<open>Getters and checks (\<^verbatim>\<open>config.go\<close>, \<^verbatim>\<open>validate.go\<close>)\<close>

definition stringOrDefault :: "getenv \<Rightarrow> string \<Rightarrow> string \<Rightarrow> string" where
  "stringOrDefault getenv key def = (case getenv key of Some v \<Rightarrow> v | None \<Rightarrow> def)"

definition requireString :: "getenv \<Rightarrow> string \<Rightarrow> string checked" where
  "requireString getenv key =
     (case getenv key of
        Some v \<Rightarrow> if v = [] then ([], [key @ '': required, no default'']) else (v, [])
      | None \<Rightarrow> ([], [key @ '': required, no default'']))"

definition intOrDefault :: "unicode \<Rightarrow> getenv \<Rightarrow> string \<Rightarrow> int \<Rightarrow> int checked" where
  "intOrDefault U getenv key def =
     (case getenv key of
        None \<Rightarrow> (def, [])
      | Some v \<Rightarrow>
          if v = [] then (def, [])
          else (case atoi v of
                  Some n \<Rightarrow> (n, [])
                | None \<Rightarrow> (def, [key @ '': expected an integer, got '' @ goQuote U v])))"

text \<open>\<^verbatim>\<open>strconv.Atoi\<close> and \<^verbatim>\<open>ParseInt(v, 10, 64)\<close> accept the same texts on a 64-bit platform.\<close>

definition int64OrDefault :: "unicode \<Rightarrow> getenv \<Rightarrow> string \<Rightarrow> int \<Rightarrow> int checked" where
  "int64OrDefault U getenv key def =
     (case getenv key of
        None \<Rightarrow> (def, [])
      | Some v \<Rightarrow>
          if v = [] then (def, [])
          else (case atoi v of
                  Some n \<Rightarrow> (n, [])
                | None \<Rightarrow> (def, [key @ '': expected an integer, got '' @ goQuote U v])))"

definition durationOrDefault :: "config_lib \<Rightarrow> getenv \<Rightarrow> string \<Rightarrow> int \<Rightarrow> int checked" where
  "durationOrDefault L getenv key def =
     (case getenv key of
        None \<Rightarrow> (def, [])
      | Some v \<Rightarrow>
          if v = [] then (def, [])
          else (case ParseDuration (cl_frac L) v of
                  Some d \<Rightarrow> (d, [])
                | None \<Rightarrow>
                    (def, [key @ '': expected a duration (e.g. \"30s\"), got '' @ goQuote (cl_unicode L) v])))"

definition validatePortRange :: "int \<Rightarrow> string \<Rightarrow> string list" where
  "validatePortRange port key =
     (if port < 1 \<or> port > 65535
      then [key @ '': must be between 1 and 65535, got '' @ itoa port] else [])"

definition validateAbsoluteHTTPURL :: "config_lib \<Rightarrow> string \<Rightarrow> string \<Rightarrow> string list" where
  "validateAbsoluteHTTPURL L raw key =
     (case parseURL L raw of
        Inl err \<Rightarrow>
          [key @ '': must be a valid URL, got '' @ goQuote (cl_unicode L) raw @ '': '' @ errorText err]
      | Inr (scheme, host) \<Rightarrow>
          if scheme = [] \<or> (scheme \<noteq> ''http'' \<and> scheme \<noteq> ''https'') \<or> host = [] then
            [key @ '': must be an absolute http or https URL, got '' @ goQuote (cl_unicode L) raw]
          else [])"

definition normalizeDomains :: "unicode \<Rightarrow> string \<Rightarrow> string list" where
  "normalizeDomains U raw =
     (if raw = [] then []
      else fst (assign_loop (\<lambda>p. toLower U (trimSpace p)) (\<lambda>p. toLower U (trimSpace p)) (\<lambda>_. True)
             (splitOn CHR '','' raw) {}))"

definition aggregateError :: "string list \<Rightarrow> gerror" where
  "aggregateError problems = ErrJoin (map ErrNew problems)"

section \<open>\<^verbatim>\<open>loadFrom\<close>\<close>

definition check_limits :: "config \<Rightarrow> string list" where
  "check_limits cfg =
     (if SMTPMaxMessageBytes cfg \<le> 0 \<or> SMTPMaxMessageBytes cfg > cloudflareMaxMessageBytes then
        [''SMTP_MAX_MESSAGE_BYTES: must be > 0 and <= '' @ itoa cloudflareMaxMessageBytes
           @ '' (Cloudflare hard cap), got '' @ itoa (SMTPMaxMessageBytes cfg)] else [])
     @ (if SMTPMaxRecipients cfg \<le> 0 \<or> SMTPMaxRecipients cfg > cloudflareMaxRecipients then
        [''SMTP_MAX_RECIPIENTS: must be > 0 and <= '' @ itoa cloudflareMaxRecipients
           @ '' (Cloudflare cap), got '' @ itoa (SMTPMaxRecipients cfg)] else [])
     @ (if CloudflareMaxRetries cfg < 0 \<or> CloudflareMaxRetries cfg > 5 then
        [''CLOUDFLARE_MAX_RETRIES: must be >= 0 and <= 5, got '' @ itoa (CloudflareMaxRetries cfg)] else [])
     @ (if (SMTPTLSCert cfg = []) \<noteq> (SMTPTLSKey cfg = []) then
          (if SMTPTLSCert cfg = [] then [''SMTP_TLS_CERT: required when SMTP_TLS_KEY is set'']
           else [''SMTP_TLS_KEY: required when SMTP_TLS_CERT is set''])
        else [])"

definition check_level :: "unicode \<Rightarrow> string \<Rightarrow> string checked" where
  "check_level U rawLogLevel =
     (let l = toLower U rawLogLevel in
      if l = ''debug'' \<or> l = ''info'' \<or> l = ''warn'' \<or> l = ''error'' then (l, [])
      else ([], [''LOG_LEVEL: must be one of debug, info, warn, error (case-insensitive), got ''
                   @ goQuote U rawLogLevel]))"

definition check_transport :: "config_lib \<Rightarrow> config \<Rightarrow> string list" where
  "check_transport L cfg =
     (let q = goQuote (cl_unicode L) in
      if CloudflareTransport cfg = TransportREST then
        (if CloudflareAccountID cfg = [] then
           [''CLOUDFLARE_ACCOUNT_ID: required when CLOUDFLARE_TRANSPORT is '' @ q TransportREST] else [])
        @ (if CloudflareAPIToken cfg = [] then
           [''CLOUDFLARE_API_TOKEN: required when CLOUDFLARE_TRANSPORT is '' @ q TransportREST] else [])
      else if CloudflareTransport cfg = TransportWorker then
        (if WorkerURL cfg = [] then
           [''WORKER_URL: required when CLOUDFLARE_TRANSPORT is '' @ q TransportWorker]
         else validateAbsoluteHTTPURL L (WorkerURL cfg) ''WORKER_URL'')
        @ (if WorkerSecret cfg = [] then
           [''WORKER_SECRET: required when CLOUDFLARE_TRANSPORT is '' @ q TransportWorker] else [])
      else
        [''CLOUDFLARE_TRANSPORT: must be '' @ q TransportREST @ '' or '' @ q TransportWorker
           @ '', got '' @ q (CloudflareTransport cfg)])"

text \<open>The struct literal: the configuration without its log level, and the problems of the getters.\<close>

definition read_config :: "config_lib \<Rightarrow> getenv \<Rightarrow> config checked" where
  "read_config L getenv =
     (let U = cl_unicode L;
          port = intOrDefault U getenv ''SMTP_PORT'' 2525;
          user = requireString getenv ''SMTP_USER'';
          password = requireString getenv ''SMTP_PASSWORD'';
          maxBytes = int64OrDefault U getenv ''SMTP_MAX_MESSAGE_BYTES'' cloudflareMaxMessageBytes;
          maxRcpts = intOrDefault U getenv ''SMTP_MAX_RECIPIENTS'' cloudflareMaxRecipients;
          readT = durationOrDefault L getenv ''SMTP_READ_TIMEOUT'' (30 * second);
          writeT = durationOrDefault L getenv ''SMTP_WRITE_TIMEOUT'' (30 * second);
          cfT = durationOrDefault L getenv ''CLOUDFLARE_TIMEOUT'' (15 * second);
          retries = intOrDefault U getenv ''CLOUDFLARE_MAX_RETRIES'' 2;
          hport = intOrDefault U getenv ''HEALTH_PORT'' 8080
      in (\<lparr>SMTPHost = stringOrDefault getenv ''SMTP_HOST'' ''0.0.0.0'', SMTPPort = fst port,
           SMTPUser = fst user, SMTPPassword = fst password, SMTPMaxMessageBytes = fst maxBytes,
           SMTPMaxRecipients = fst maxRcpts, SMTPReadTimeout = fst readT, SMTPWriteTimeout = fst writeT,
           SMTPTLSCert = stringOrDefault getenv ''SMTP_TLS_CERT'' [],
           SMTPTLSKey = stringOrDefault getenv ''SMTP_TLS_KEY'' [],
           CloudflareTransport = stringOrDefault getenv ''CLOUDFLARE_TRANSPORT'' TransportREST,
           CloudflareAccountID = stringOrDefault getenv ''CLOUDFLARE_ACCOUNT_ID'' [],
           CloudflareAPIToken = stringOrDefault getenv ''CLOUDFLARE_API_TOKEN'' [],
           CloudflareAPIBaseURL =
             stringOrDefault getenv ''CLOUDFLARE_API_BASE_URL'' ''https://api.cloudflare.com/client/v4'',
           CloudflareTimeout = fst cfT, CloudflareMaxRetries = fst retries,
           WorkerURL = stringOrDefault getenv ''WORKER_URL'' [],
           WorkerSecret = stringOrDefault getenv ''WORKER_SECRET'' [],
           AllowedFromDomains = normalizeDomains U (stringOrDefault getenv ''ALLOWED_FROM_DOMAINS'' []),
           HealthHost = stringOrDefault getenv ''HEALTH_HOST'' ''0.0.0.0'', HealthPort = fst hport,
           LogLevel = []\<rparr>,
          snd port @ snd user @ snd password @ snd maxBytes @ snd maxRcpts @ snd readT @ snd writeT
          @ snd cfT @ snd retries @ snd hport))"

definition loadFrom :: "config_lib \<Rightarrow> getenv \<Rightarrow> gerror + config" where
  "loadFrom L getenv =
     (case read_config L getenv of
        (cfg, problems0) \<Rightarrow>
          (case check_level (cl_unicode L) (stringOrDefault getenv ''LOG_LEVEL'' ''info'') of
             (level, problems1) \<Rightarrow>
               (let problems = problems0
                    @ validatePortRange (SMTPPort cfg) ''SMTP_PORT''
                    @ validatePortRange (HealthPort cfg) ''HEALTH_PORT''
                    @ check_limits cfg @ problems1 @ check_transport L cfg
                in if problems \<noteq> [] then Inl (aggregateError problems)
                   else Inr (cfg\<lparr>LogLevel := level\<rparr>))))"

section \<open>Addresses (\<^verbatim>\<open>accessors.go\<close>)\<close>

text \<open>\<^verbatim>\<open>net.JoinHostPort\<close>: a host with a colon goes into brackets.\<close>

definition joinHostPort :: "string \<Rightarrow> string \<Rightarrow> string" where
  "joinHostPort host port =
     (if CHR '':'' \<in> set host then CHR ''['' # host @ '']:'' @ port
      else host @ CHR '':'' # port)"

definition SMTPAddr :: "config \<Rightarrow> string" where
  "SMTPAddr c = joinHostPort (SMTPHost c) (itoa (SMTPPort c))"

definition HealthAddr :: "config \<Rightarrow> string" where
  "HealthAddr c = joinHostPort (HealthHost c) (itoa (HealthPort c))"

section \<open>Redaction (\<^verbatim>\<open>redact.go\<close>)\<close>

definition redactedMarker :: string where
  "redactedMarker = ''[REDACTED]''"
definition emptyMarker :: string where
  "emptyMarker = ''[EMPTY]''"

definition redact :: "string \<Rightarrow> string" where
  "redact secret = (if secret = [] then emptyMarker else redactedMarker)"

fun spaced :: "string list \<Rightarrow> string" where
  "spaced [] = []"
| "spaced [x] = x"
| "spaced (x # y # xs) = x @ CHR '' '' # spaced (y # xs)"

definition Config_String :: "config \<Rightarrow> string" where
  "Config_String c =
     ''config.Config{SMTPHost: '' @ SMTPHost c @ '', SMTPPort: '' @ itoa (SMTPPort c)
     @ '', SMTPUser: '' @ SMTPUser c @ '', SMTPPassword: '' @ redact (SMTPPassword c)
     @ '', SMTPMaxMessageBytes: '' @ itoa (SMTPMaxMessageBytes c)
     @ '', SMTPMaxRecipients: '' @ itoa (SMTPMaxRecipients c)
     @ '', SMTPReadTimeout: '' @ Duration_String (SMTPReadTimeout c)
     @ '', SMTPWriteTimeout: '' @ Duration_String (SMTPWriteTimeout c)
     @ '', SMTPTLSCert: '' @ SMTPTLSCert c @ '', SMTPTLSKey: '' @ SMTPTLSKey c
     @ '', CloudflareTransport: '' @ CloudflareTransport c
     @ '', CloudflareAccountID: '' @ CloudflareAccountID c
     @ '', CloudflareAPIToken: '' @ redact (CloudflareAPIToken c)
     @ '', CloudflareAPIBaseURL: '' @ CloudflareAPIBaseURL c
     @ '', CloudflareTimeout: '' @ Duration_String (CloudflareTimeout c)
     @ '', CloudflareMaxRetries: '' @ itoa (CloudflareMaxRetries c)
     @ '', WorkerURL: '' @ WorkerURL c @ '', WorkerSecret: '' @ redact (WorkerSecret c)
     @ '', AllowedFromDomains: ['' @ spaced (AllowedFromDomains c)
     @ ''], HealthHost: '' @ HealthHost c @ '', HealthPort: '' @ itoa (HealthPort c)
     @ '', LogLevel: '' @ LogLevel c @ ''}''"

text \<open>An empty list of domains is a nil slice: \<^verbatim>\<open>normalizeDomains\<close> makes no other.\<close>

definition Config_LogValue :: "config \<Rightarrow> (string \<times> attr) list" where
  "Config_LogValue c =
     [(''smtp_host'', AString (SMTPHost c)), (''smtp_port'', AInt (SMTPPort c)),
      (''smtp_user'', AString (SMTPUser c)), (''smtp_password'', AString (redact (SMTPPassword c))),
      (''smtp_max_message_bytes'', AInt (SMTPMaxMessageBytes c)),
      (''smtp_max_recipients'', AInt (SMTPMaxRecipients c)),
      (''smtp_read_timeout'', ADuration (SMTPReadTimeout c)),
      (''smtp_write_timeout'', ADuration (SMTPWriteTimeout c)),
      (''smtp_tls_cert'', AString (SMTPTLSCert c)), (''smtp_tls_key'', AString (SMTPTLSKey c)),
      (''cloudflare_transport'', AString (CloudflareTransport c)),
      (''cloudflare_account_id'', AString (CloudflareAccountID c)),
      (''cloudflare_api_token'', AString (redact (CloudflareAPIToken c))),
      (''cloudflare_api_base_url'', AString (CloudflareAPIBaseURL c)),
      (''cloudflare_timeout'', ADuration (CloudflareTimeout c)),
      (''cloudflare_max_retries'', AInt (CloudflareMaxRetries c)),
      (''worker_url'', AString (WorkerURL c)), (''worker_secret'', AString (redact (WorkerSecret c))),
      (''allowed_from_domains'', AStrings (if AllowedFromDomains c = [] then None else Some (AllowedFromDomains c))),
      (''health_host'', AString (HealthHost c)), (''health_port'', AInt (HealthPort c)),
      (''log_level'', AString (LogLevel c))]"

section \<open>What a value of the environment is\<close>

definition env_set :: "getenv \<Rightarrow> string \<Rightarrow> bool" where
  "env_set getenv key \<longleftrightarrow> stringOrDefault getenv key [] \<noteq> []"

definition int_value :: "getenv \<Rightarrow> string \<Rightarrow> int \<Rightarrow> int option" where
  "int_value getenv key def =
     (if env_set getenv key then atoi (stringOrDefault getenv key []) else Some def)"

definition duration_ok :: "config_lib \<Rightarrow> getenv \<Rightarrow> string \<Rightarrow> bool" where
  "duration_ok L getenv key \<longleftrightarrow>
     (if env_set getenv key then ParseDuration (cl_frac L) (stringOrDefault getenv key []) \<noteq> None else True)"

fun within :: "int option \<Rightarrow> int \<Rightarrow> int \<Rightarrow> bool" where
  "within None lo hi = False"
| "within (Some n) lo hi = (lo \<le> n \<and> n \<le> hi)"

definition http_url :: "config_lib \<Rightarrow> string \<Rightarrow> bool" where
  "http_url L raw \<longleftrightarrow>
     (case parseURL L raw of
        Inl _ \<Rightarrow> False
      | Inr (scheme, host) \<Rightarrow> (scheme = ''http'' \<or> scheme = ''https'') \<and> host \<noteq> [])"

lemma requireString_ok:
  "(snd (requireString g k) = []) = env_set g k"
  "fst (requireString g k) = stringOrDefault g k []"
  by (auto simp: requireString_def env_set_def stringOrDefault_def split: option.split)

lemma intOrDefault_within:
  "(snd (intOrDefault U g k d) = [] \<and> lo \<le> fst (intOrDefault U g k d) \<and> fst (intOrDefault U g k d) \<le> hi)
     = within (int_value g k d) lo hi"
  by (auto simp: intOrDefault_def int_value_def env_set_def stringOrDefault_def split: option.split)

lemma int64OrDefault_eq: "int64OrDefault = intOrDefault"
  by (intro ext) (simp add: int64OrDefault_def intOrDefault_def)

lemma durationOrDefault_ok: "(snd (durationOrDefault L g k d) = []) = duration_ok L g k"
  by (auto simp: durationOrDefault_def duration_ok_def env_set_def stringOrDefault_def split: option.split)

lemma validatePortRange_ok: "(validatePortRange p k = []) = (1 \<le> p \<and> p \<le> 65535)"
  by (auto simp: validatePortRange_def)

lemma validateAbsoluteHTTPURL_ok: "(validateAbsoluteHTTPURL L raw k = []) = http_url L raw"
  by (auto simp: validateAbsoluteHTTPURL_def http_url_def split: sum.split)

lemma check_limits_ok:
  "(check_limits cfg = []) =
     ((1 \<le> SMTPMaxMessageBytes cfg \<and> SMTPMaxMessageBytes cfg \<le> 5242880)
      \<and> (1 \<le> SMTPMaxRecipients cfg \<and> SMTPMaxRecipients cfg \<le> 50)
      \<and> (0 \<le> CloudflareMaxRetries cfg \<and> CloudflareMaxRetries cfg \<le> 5)
      \<and> ((SMTPTLSCert cfg = []) = (SMTPTLSKey cfg = [])))"
  by (auto simp: check_limits_def cloudflareMaxMessageBytes_def cloudflareMaxRecipients_def)

lemma check_level_ok:
  "(snd (check_level U raw) = []) = (toLower U raw \<in> {''debug'', ''info'', ''warn'', ''error''})"
  "snd (check_level U raw) = [] \<Longrightarrow> fst (check_level U raw) = toLower U raw"
  by (auto simp: check_level_def Let_def)

definition transport_ok :: "config_lib \<Rightarrow> config \<Rightarrow> bool" where
  "transport_ok L cfg \<longleftrightarrow>
     (if CloudflareTransport cfg = ''rest'' then CloudflareAccountID cfg \<noteq> [] \<and> CloudflareAPIToken cfg \<noteq> []
      else CloudflareTransport cfg = ''worker'' \<and> WorkerURL cfg \<noteq> [] \<and> http_url L (WorkerURL cfg)
        \<and> WorkerSecret cfg \<noteq> [])"

lemma check_transport_ok: "(check_transport L cfg = []) = transport_ok L cfg"
  by (auto simp: check_transport_def transport_ok_def TransportREST_def TransportWorker_def Let_def
      validateAbsoluteHTTPURL_ok)

definition level_ok :: "config_lib \<Rightarrow> getenv \<Rightarrow> bool" where
  "level_ok L getenv \<longleftrightarrow>
     toLower (cl_unicode L) (stringOrDefault getenv ''LOG_LEVEL'' ''info'')
       \<in> {''debug'', ''info'', ''warn'', ''error''}"

text \<open>The outcome of \<open>loadFrom\<close> as one condition on what was read.\<close>

lemma loadFrom_Inr:
  "loadFrom L g = Inr cfg \<longleftrightarrow>
     snd (read_config L g) = [] \<and> level_ok L g
     \<and> (1 \<le> SMTPPort cfg \<and> SMTPPort cfg \<le> 65535) \<and> (1 \<le> HealthPort cfg \<and> HealthPort cfg \<le> 65535)
     \<and> check_limits cfg = [] \<and> transport_ok L cfg
     \<and> cfg = (fst (read_config L g))\<lparr>LogLevel :=
         toLower (cl_unicode L) (stringOrDefault g ''LOG_LEVEL'' ''info'')\<rparr>"
proof -
  obtain c ps where r: "read_config L g = (c, ps)" by fastforce
  obtain l ls where l: "check_level (cl_unicode L) (stringOrDefault g ''LOG_LEVEL'' ''info'') = (l, ls)"
    by fastforce
  have upd: "check_limits (c\<lparr>LogLevel := x\<rparr>) = check_limits c"
    "transport_ok L (c\<lparr>LogLevel := x\<rparr>) = transport_ok L c" for x
    by (simp_all add: check_limits_def transport_ok_def)
  have lv: "(ls = []) = level_ok L g"
    "ls = [] \<Longrightarrow> l = toLower (cl_unicode L) (stringOrDefault g ''LOG_LEVEL'' ''info'')"
    using check_level_ok [of "cl_unicode L" "stringOrDefault g ''LOG_LEVEL'' ''info''"]
    by (simp_all add: l level_ok_def)
  show ?thesis
    using lv by (auto simp: loadFrom_def r l validatePortRange_ok check_transport_ok upd)
qed

lemma read_config_fields:
  "SMTPUser (fst (read_config L g)) = stringOrDefault g ''SMTP_USER'' []"
  "SMTPPassword (fst (read_config L g)) = stringOrDefault g ''SMTP_PASSWORD'' []"
  "AllowedFromDomains (fst (read_config L g)) =
     normalizeDomains (cl_unicode L) (stringOrDefault g ''ALLOWED_FROM_DOMAINS'' [])"
  "SMTPPort (fst (read_config L g)) = fst (intOrDefault (cl_unicode L) g ''SMTP_PORT'' 2525)"
  "HealthPort (fst (read_config L g)) = fst (intOrDefault (cl_unicode L) g ''HEALTH_PORT'' 8080)"
  "SMTPMaxMessageBytes (fst (read_config L g)) =
     fst (intOrDefault (cl_unicode L) g ''SMTP_MAX_MESSAGE_BYTES'' 5242880)"
  "SMTPMaxRecipients (fst (read_config L g)) = fst (intOrDefault (cl_unicode L) g ''SMTP_MAX_RECIPIENTS'' 50)"
  "CloudflareMaxRetries (fst (read_config L g)) = fst (intOrDefault (cl_unicode L) g ''CLOUDFLARE_MAX_RETRIES'' 2)"
  "SMTPTLSCert (fst (read_config L g)) = stringOrDefault g ''SMTP_TLS_CERT'' []"
  "SMTPTLSKey (fst (read_config L g)) = stringOrDefault g ''SMTP_TLS_KEY'' []"
  "CloudflareTransport (fst (read_config L g)) = stringOrDefault g ''CLOUDFLARE_TRANSPORT'' ''rest''"
  "CloudflareAccountID (fst (read_config L g)) = stringOrDefault g ''CLOUDFLARE_ACCOUNT_ID'' []"
  "CloudflareAPIToken (fst (read_config L g)) = stringOrDefault g ''CLOUDFLARE_API_TOKEN'' []"
  "WorkerURL (fst (read_config L g)) = stringOrDefault g ''WORKER_URL'' []"
  "WorkerSecret (fst (read_config L g)) = stringOrDefault g ''WORKER_SECRET'' []"
  by (simp_all only: read_config_def Let_def fst_conv config.simps requireString_ok int64OrDefault_eq
      cloudflareMaxMessageBytes_def cloudflareMaxRecipients_def TransportREST_def)

lemma read_config_problems:
  "(snd (read_config L g) = []) \<longleftrightarrow>
     snd (intOrDefault (cl_unicode L) g ''SMTP_PORT'' 2525) = []
     \<and> env_set g ''SMTP_USER'' \<and> env_set g ''SMTP_PASSWORD''
     \<and> snd (intOrDefault (cl_unicode L) g ''SMTP_MAX_MESSAGE_BYTES'' 5242880) = []
     \<and> snd (intOrDefault (cl_unicode L) g ''SMTP_MAX_RECIPIENTS'' 50) = []
     \<and> duration_ok L g ''SMTP_READ_TIMEOUT'' \<and> duration_ok L g ''SMTP_WRITE_TIMEOUT''
     \<and> duration_ok L g ''CLOUDFLARE_TIMEOUT''
     \<and> snd (intOrDefault (cl_unicode L) g ''CLOUDFLARE_MAX_RETRIES'' 2) = []
     \<and> snd (intOrDefault (cl_unicode L) g ''HEALTH_PORT'' 8080) = []"
  by (simp only: read_config_def Let_def snd_conv append_is_Nil_conv requireString_ok int64OrDefault_eq
      durationOrDefault_ok cloudflareMaxMessageBytes_def cloudflareMaxRecipients_def)

lemma loadFrom_ok_fields:
  assumes "loadFrom L g = Inr cfg"
  shows "SMTPUser cfg \<noteq> []" "SMTPPassword cfg \<noteq> []"
    and "0 < SMTPMaxMessageBytes cfg" "0 < SMTPMaxRecipients cfg" "SMTPMaxRecipients cfg \<le> 50"
    and "0 \<le> CloudflareMaxRetries cfg" "CloudflareMaxRetries cfg \<le> 5" "transport_ok L cfg"
    and "LogLevel cfg \<in> {''debug'', ''info'', ''warn'', ''error''}"
    and "AllowedFromDomains cfg =
        normalizeDomains (cl_unicode L) (stringOrDefault g ''ALLOWED_FROM_DOMAINS'' [])"
    and "SMTPUser cfg = stringOrDefault g ''SMTP_USER'' []"
    and "SMTPPassword cfg = stringOrDefault g ''SMTP_PASSWORD'' []"
proof -
  note ok = assms [unfolded loadFrom_Inr check_limits_ok read_config_problems]
  obtain c l where c: "c = fst (read_config L g)" "cfg = c\<lparr>LogLevel := l\<rparr>"
      "l = toLower (cl_unicode L) (stringOrDefault g ''LOG_LEVEL'' ''info'')"
    using ok by blast
  show "AllowedFromDomains cfg =
      normalizeDomains (cl_unicode L) (stringOrDefault g ''ALLOWED_FROM_DOMAINS'' [])"
    and u: "SMTPUser cfg = stringOrDefault g ''SMTP_USER'' []"
    and p: "SMTPPassword cfg = stringOrDefault g ''SMTP_PASSWORD'' []"
    by (simp_all add: c read_config_fields)
  have "env_set g ''SMTP_USER''" "env_set g ''SMTP_PASSWORD''" using ok by blast+
  then show "SMTPUser cfg \<noteq> []" "SMTPPassword cfg \<noteq> []"
    unfolding u p env_set_def .
  show "LogLevel cfg \<in> {''debug'', ''info'', ''warn'', ''error''}"
    using ok c(2,3) by (simp only: level_ok_def) simp
  show "0 < SMTPMaxMessageBytes cfg" "0 < SMTPMaxRecipients cfg" "SMTPMaxRecipients cfg \<le> 50"
    "0 \<le> CloudflareMaxRetries cfg" "CloudflareMaxRetries cfg \<le> 5" "transport_ok L cfg"
    using ok by linarith+
qed

text \<open>
  C26. The environment loads if and only if every variable is valid on its own: the two ports
  are in 1..65535, the message size in 1..5242880, the recipients in 1..50, the retries in
  0..5 (unset or empty means the default), the durations parse, both credentials are set, the
  TLS pair is complete or absent, the level is one of four, and the selected transport has
  all it needs.
\<close>

theorem load_exact:
  "(\<exists>cfg. loadFrom L g = Inr cfg) \<longleftrightarrow>
     within (int_value g ''SMTP_PORT'' 2525) 1 65535
     \<and> within (int_value g ''HEALTH_PORT'' 8080) 1 65535
     \<and> within (int_value g ''SMTP_MAX_MESSAGE_BYTES'' 5242880) 1 5242880
     \<and> within (int_value g ''SMTP_MAX_RECIPIENTS'' 50) 1 50
     \<and> within (int_value g ''CLOUDFLARE_MAX_RETRIES'' 2) 0 5
     \<and> duration_ok L g ''SMTP_READ_TIMEOUT'' \<and> duration_ok L g ''SMTP_WRITE_TIMEOUT''
     \<and> duration_ok L g ''CLOUDFLARE_TIMEOUT''
     \<and> env_set g ''SMTP_USER'' \<and> env_set g ''SMTP_PASSWORD''
     \<and> env_set g ''SMTP_TLS_CERT'' = env_set g ''SMTP_TLS_KEY''
     \<and> level_ok L g
     \<and> (let t = stringOrDefault g ''CLOUDFLARE_TRANSPORT'' ''rest'' in
        if t = ''rest'' then env_set g ''CLOUDFLARE_ACCOUNT_ID'' \<and> env_set g ''CLOUDFLARE_API_TOKEN''
        else t = ''worker'' \<and> env_set g ''WORKER_URL'' \<and> http_url L (stringOrDefault g ''WORKER_URL'' [])
          \<and> env_set g ''WORKER_SECRET'')"
proof -
  let ?c = "fst (read_config L g)"
  have upd: "check_limits (?c\<lparr>LogLevel := x\<rparr>) = check_limits ?c"
    "transport_ok L (?c\<lparr>LogLevel := x\<rparr>) = transport_ok L ?c"
    "SMTPPort (?c\<lparr>LogLevel := x\<rparr>) = SMTPPort ?c" "HealthPort (?c\<lparr>LogLevel := x\<rparr>) = HealthPort ?c" for x
    by (simp_all add: check_limits_def transport_ok_def)
  have "(\<exists>cfg. loadFrom L g = Inr cfg) \<longleftrightarrow>
     snd (read_config L g) = [] \<and> level_ok L g
     \<and> (1 \<le> SMTPPort ?c \<and> SMTPPort ?c \<le> 65535) \<and> (1 \<le> HealthPort ?c \<and> HealthPort ?c \<le> 65535)
     \<and> check_limits ?c = [] \<and> transport_ok L ?c"
    unfolding loadFrom_Inr by (simp add: upd)
  then show ?thesis
    unfolding intOrDefault_within [of "cl_unicode L", symmetric] check_limits_ok transport_ok_def
      read_config_problems read_config_fields env_set_def Let_def
    by blast
qed

section \<open>The allowlist\<close>

lemma normalizeDomains_entries:
  "d \<in> set (normalizeDomains U raw) \<Longrightarrow> \<exists>p. d = toLower U (trimSpace p) \<and> d \<noteq> []"
  using assign_loop_output [of "\<lambda>d. d" "\<lambda>p. toLower U (trimSpace p)" "\<lambda>p. toLower U (trimSpace p)"
      "\<lambda>_. True" "splitOn CHR '','' raw" "{}"]
  by (auto simp: normalizeDomains_def loop_keys_def split: if_splits)

lemma normalizeDomains_ends:
  assumes "lower_ok U" and "d \<in> set (normalizeDomains U raw)"
  shows "ends_nonspace d"
  using normalizeDomains_entries [OF assms(2)] ends_nonspace_trimSpace ends_nonspace_toLower [OF assms(1)]
  by fastforce

text \<open>
  C33. The configured allowlist has no duplicates and holds exactly the trimmed and lowered
  parts of the comma-separated value, but for the empty ones.
\<close>

theorem normalizeDomains_exact:
  "distinct (normalizeDomains U raw)
   \<and> set (normalizeDomains U raw) = (\<lambda>p. toLower U (trimSpace p)) ` set (splitOn CHR '','' raw) - {[]}"
  using assign_loop_output [of "\<lambda>d. d" "\<lambda>p. toLower U (trimSpace p)" "\<lambda>p. toLower U (trimSpace p)"
      "\<lambda>_. True" "splitOn CHR '','' raw" "{}"]
  by (auto simp: normalizeDomains_def loop_keys_def)

definition example_lib :: config_lib where
  "example_lib =
     \<lparr>cl_unicode = ascii_tables, cl_frac = (\<lambda>f unit k. f * unit div 10 ^ k),
      parseURL = (\<lambda>s. if hasPrefix s ''https://'' then Inr (''https'', drop 8 s) else Inr ([], []))\<rparr>"

section \<open>Secrets\<close>

text \<open>
  C34. No secret reaches a log: the text and the structured view of a configuration depend on
  the SMTP password, the API token and the Worker secret only through whether each is empty.
\<close>

theorem secrets_redacted:
  assumes "(p = []) = (SMTPPassword c = [])" and "(t = []) = (CloudflareAPIToken c = [])"
    and "(w = []) = (WorkerSecret c = [])"
  shows "Config_String (c\<lparr>SMTPPassword := p, CloudflareAPIToken := t, WorkerSecret := w\<rparr>) = Config_String c
    \<and> Config_LogValue (c\<lparr>SMTPPassword := p, CloudflareAPIToken := t, WorkerSecret := w\<rparr>) = Config_LogValue c"
proof -
  have "redact p = redact (SMTPPassword c)" "redact t = redact (CloudflareAPIToken c)"
    "redact w = redact (WorkerSecret c)"
    using assms by (simp_all add: redact_def)
  then show ?thesis by (simp add: Config_String_def Config_LogValue_def)
qed

definition example_env :: getenv where
  "example_env =
     map_of [(''SMTP_USER'', ''u''), (''SMTP_PASSWORD'', ''p''), (''CLOUDFLARE_ACCOUNT_ID'', ''acc''),
       (''CLOUDFLARE_API_TOKEN'', ''tok''), (''ALLOWED_FROM_DOMAINS'', '' Y.org,y.org ,'')]"

lemma example_loads: "\<exists>cfg. loadFrom example_lib example_env = Inr cfg \<and> SMTPPassword cfg = ''p''
    \<and> CloudflareAPIToken cfg = ''tok'' \<and> WorkerSecret cfg = [] \<and> AllowedFromDomains cfg = [''y.org'']
    \<and> CloudflareTransport cfg = ''rest''"
proof -
  have "case loadFrom example_lib example_env of Inl _ \<Rightarrow> False
    | Inr cfg \<Rightarrow> SMTPPassword cfg = ''p'' \<and> CloudflareAPIToken cfg = ''tok'' \<and> WorkerSecret cfg = []
        \<and> AllowedFromDomains cfg = [''y.org''] \<and> CloudflareTransport cfg = ''rest''"
    by code_simp
  then show ?thesis by (auto split: sum.splits)
qed

theorem secrets_redacted_witness:
  "\<exists>cfg. loadFrom example_lib example_env = Inr cfg
    \<and> Config_LogValue (cfg\<lparr>SMTPPassword := ''other'', CloudflareAPIToken := ''x'', WorkerSecret := []\<rparr>)
        = Config_LogValue cfg"
proof -
  obtain cfg where c: "loadFrom example_lib example_env = Inr cfg" "SMTPPassword cfg = ''p''"
      "CloudflareAPIToken cfg = ''tok''" "WorkerSecret cfg = []"
    using example_loads by blast
  with secrets_redacted [of "''other''" cfg "''x''" "[]"] show ?thesis by simp
qed

end
