(* ===== verification/Health.thy ===== *)
theory Health
  imports Go_Http Go_Json
begin

text \<open>
  \<^verbatim>\<open>internal/health\<close>: the health endpoint and the probe that the container runs
  against it.
\<close>

section \<open>The endpoint\<close>

definition healthBody :: string where
  "healthBody = ''{\"status\":\"ok\"}''"

definition readHeaderTimeout :: int where
  "readHeaderTimeout = 5 * second"

text \<open>
  \<^verbatim>\<open>http.ServeMux\<close> with the one pattern \<^verbatim>\<open>/health\<close>: a path that is not in
  canonical form is redirected to it (\<open>redirect\<close> is what the multiplexer of the library
  answers to a method and a path of its own accord), any other path is not found.
\<close>

definition health_func :: "string \<Rightarrow> http_reply" where
  "health_func reqMethod =
     (if reqMethod \<noteq> ''GET'' then http_Error [(''Allow'', ''GET'')] ''method not allowed'' 405
      else \<lparr>rp_status = 200, rp_headers = [(''Content-Type'', ''application/json'')],
            rp_body = healthBody\<rparr>)"

definition Handler :: "(string \<Rightarrow> string \<Rightarrow> http_reply option) \<Rightarrow> string \<Rightarrow> string \<Rightarrow> http_reply" where
  "Handler redirect reqMethod path =
     (case redirect reqMethod path of
        Some reply \<Rightarrow> reply
      | None \<Rightarrow>
          if path = ''/health'' then health_func reqMethod
          else http_Error [] ''404 page not found'' 404)"

record health_server =
  hs_Addr :: string
  hs_ReadHeaderTimeout :: int

definition New_health :: "string \<Rightarrow> health_server" where
  "New_health addr = \<lparr>hs_Addr = addr, hs_ReadHeaderTimeout = readHeaderTimeout\<rparr>"

section \<open>The probe\<close>

record statusPayload =
  st_Status :: string

definition statusPayload_field :: "unicode \<Rightarrow> string \<Rightarrow> json \<Rightarrow> statusPayload \<Rightarrow> statusPayload option" where
  "statusPayload_field U k v p =
     (if field_named U ''status'' k then
        map_option (\<lambda>s. p\<lparr>st_Status := s\<rparr>) (into_string (st_Status p) v)
      else Some p)"

text \<open>
  \<^verbatim>\<open>json.NewDecoder(body).Decode\<close> reads one value and leaves what follows it unread.
\<close>

definition decode_first :: "(string \<Rightarrow> json \<Rightarrow> 'a \<Rightarrow> 'a option) \<Rightarrow> 'a \<Rightarrow> string \<Rightarrow> gerror + 'a" where
  "decode_first f zero body =
     (case jvalue (2 * length body + 2) 0 body of
        None \<Rightarrow> Inl jsonError
      | Some (v, _) \<Rightarrow> (case into_struct f zero v of None \<Rightarrow> Inl jsonError | Some x \<Rightarrow> Inr x))"

text \<open>\<open>fetch\<close> is \<^verbatim>\<open>http.DefaultClient.Do\<close> of a GET request, \<open>bad_url\<close> why none can be built.\<close>

definition Health_Check ::
  "unicode \<Rightarrow> (string \<Rightarrow> gerror option) \<Rightarrow> (string \<Rightarrow> 'w \<Rightarrow> (gerror + http_response) \<times> 'w) \<Rightarrow>
     string \<Rightarrow> 'w \<Rightarrow> gerror option \<times> 'w"
where
  "Health_Check U bad_url fetch url w =
     (case bad_url url of
        Some err \<Rightarrow> (Some (ErrWrap ''health: build request: '' err []), w)
      | None \<Rightarrow>
          (case fetch url w of
             (Inl err, w1) \<Rightarrow> (Some (ErrWrap ''health: request failed: '' err []), w1)
           | (Inr resp, w1) \<Rightarrow>
               (if rs_status resp \<noteq> 200 then
                  (Some (ErrNew (''health: unexpected status '' @ itoa (rs_status resp))), w1)
                else
                  (case decode_first (statusPayload_field U) \<lparr>st_Status = []\<rparr> (body_data (rs_body resp)) of
                     Inl err \<Rightarrow> (Some (ErrWrap ''health: decode response: '' err []), w1)
                   | Inr payload \<Rightarrow>
                       if st_Status payload \<noteq> ''ok'' then
                         (Some (ErrNew (''health: unexpected status field '' @ goQuote U (st_Status payload))), w1)
                       else (None, w1)))))"

section \<open>Properties\<close>

text \<open>
  Unless the multiplexer redirects, the endpoint answers 200 with the fixed body only to a GET
  of \<^verbatim>\<open>/health\<close>, 405 with an Allow header to any other method there, and 404 to any
  other path.
\<close>

lemma health_endpoint:
  assumes "redirect meth path = None"
  shows "rp_status (Handler redirect meth path) =
     (if path \<noteq> ''/health'' then 404 else if meth \<noteq> ''GET'' then 405 else 200)
   \<and> (rp_body (Handler redirect meth path) = healthBody \<longleftrightarrow> path = ''/health'' \<and> meth = ''GET'')
   \<and> (map_of (rp_headers (Handler redirect meth path)) ''Allow'' = Some ''GET'' \<longleftrightarrow>
        path = ''/health'' \<and> meth \<noteq> ''GET'')"
  using assms by (simp add: Handler_def health_func_def http_Error_def healthBody_def)

lemma decode_healthBody:
  "decode_first (statusPayload_field U) \<lparr>st_Status = []\<rparr> healthBody = Inr \<lparr>st_Status = ''ok''\<rparr>"
proof -
  have "jvalue (2 * length healthBody + 2) 0 healthBody = Some (JObj [(''status'', JStr ''ok'')], [])"
    by code_simp
  then show ?thesis
    by (simp add: decode_first_def statusPayload_field_def field_named_def)
qed

text \<open>
  What the probe accepts, without the decoder: the body begins with a JSON object whose members
  with the name \<^verbatim>\<open>status\<close>, up to the case of the letters, are strings or null, and
  the last of the strings is \<^verbatim>\<open>ok\<close>.
\<close>

definition status_values :: "unicode \<Rightarrow> (string \<times> json) list \<Rightarrow> json list" where
  "status_values U ms = map snd (filter (\<lambda>m. field_named U ''status'' (fst m)) ms)"

definition strings_of :: "json list \<Rightarrow> string list" where
  "strings_of vs = concat (map (\<lambda>v. case v of JStr s \<Rightarrow> [s] | _ \<Rightarrow> []) vs)"

definition reports_ok :: "unicode \<Rightarrow> string \<Rightarrow> bool" where
  "reports_ok U body =
     (case jvalue (2 * length body + 2) 0 body of
        Some (JObj ms, _) \<Rightarrow>
          list_all (\<lambda>v. case v of JStr _ \<Rightarrow> True | JNull \<Rightarrow> True | _ \<Rightarrow> False) (status_values U ms)
          \<and> (case rev (strings_of (status_values U ms)) of [] \<Rightarrow> False | s # _ \<Rightarrow> s = ''ok'')
      | _ \<Rightarrow> False)"

lemma status_values_simps [simp]:
  "status_values U [] = []"
  "status_values U ((k, v) # ms) = (if field_named U ''status'' k then v # status_values U ms else status_values U ms)"
  by (simp_all add: status_values_def)

lemma strings_of_simps [simp]:
  "strings_of [] = []"
  "strings_of (v # vs) = (case v of JStr s \<Rightarrow> [s] | _ \<Rightarrow> []) @ strings_of vs"
  by (simp_all add: strings_of_def)

lemma status_field:
  "statusPayload_field U k v p =
     (if field_named U ''status'' k then
        (case v of JStr s \<Rightarrow> Some (p\<lparr>st_Status := s\<rparr>) | JNull \<Rightarrow> Some p | _ \<Rightarrow> None)
      else Some p)"
  by (simp add: statusPayload_field_def split: json.split)

lemma status_members:
  "into_members (statusPayload_field U) ms p =
     (if list_all (\<lambda>v. case v of JStr _ \<Rightarrow> True | JNull \<Rightarrow> True | _ \<Rightarrow> False) (status_values U ms)
      then Some (p\<lparr>st_Status := last (st_Status p # strings_of (status_values U ms))\<rparr>) else None)"
proof (induction ms arbitrary: p)
  case Nil
  show ?case by simp
next
  case (Cons m ms)
  obtain k v where m: "m = (k, v)" by fastforce
  show ?case
    using status_field [of U k v p] by (cases v) (simp_all add: m Cons.IH)
qed

lemma decode_status:
  "(\<exists>p. decode_first (statusPayload_field U) \<lparr>st_Status = []\<rparr> body = Inr p \<and> st_Status p = ''ok'')
     \<longleftrightarrow> reports_ok U body"
proof (cases "jvalue (2 * length body + 2) 0 body")
  case None
  then show ?thesis by (simp only: decode_first_def reports_ok_def) simp
next
  case (Some vr)
  obtain v r where vr: "vr = (v, r)" by fastforce
  have d: "decode_first f z body = (case into_struct f z v of None \<Rightarrow> Inl jsonError | Some x \<Rightarrow> Inr x)"
    for f and z :: statusPayload
    by (simp only: decode_first_def Some vr option.case prod.case)
  show ?thesis
  proof (cases v)
    case (JObj ms)
    have "last ([] # ss) = ''ok'' \<longleftrightarrow> (case rev ss of [] \<Rightarrow> False | s # _ \<Rightarrow> s = ''ok'')" for ss :: "string list"
      by (cases ss rule: rev_cases) simp_all
    moreover have "reports_ok U body =
        (list_all (\<lambda>v. case v of JStr _ \<Rightarrow> True | JNull \<Rightarrow> True | _ \<Rightarrow> False) (status_values U ms)
          \<and> (case rev (strings_of (status_values U ms)) of [] \<Rightarrow> False | s # _ \<Rightarrow> s = ''ok''))"
      by (simp only: reports_ok_def Some vr JObj option.case prod.case json.case)
    ultimately show ?thesis by (simp add: d JObj status_members del: last.simps)
  qed (simp_all only: d reports_ok_def Some vr option.case prod.case json.case, simp_all)
qed

text \<open>
  C37. The probe succeeds exactly when it should: whatever is answered to it, it succeeds if and
  only if a request could be built, there was a response with status 200, and its body begins with a
  JSON object that reports the status \<^verbatim>\<open>ok\<close>. So it accepts, for any Unicode tables,
  the reply of the handler to a GET of \<^verbatim>\<open>/health\<close> that is not redirected, and refuses
  every other reply of the handler, as long as no redirect has the status 200.
\<close>

theorem probe_accepts_endpoint:
  "(fst (Health_Check U bad_url fetch url w) = None \<longleftrightarrow>
      bad_url url = None
      \<and> (\<exists>resp w'. fetch url w = (Inr resp, w') \<and> rs_status resp = 200
           \<and> reports_ok U (body_data (rs_body resp))))
   \<and> (bad_url url = None \<longrightarrow> pred_option (\<lambda>reply. rp_status reply \<noteq> 200) (redirect meth path) \<longrightarrow>
      fst (fetch url w) = Inr (received (Handler redirect meth path)) \<longrightarrow>
      (fst (Health_Check U bad_url fetch url w) = None \<longleftrightarrow>
         redirect meth path = None \<and> path = ''/health'' \<and> meth = ''GET''))"
proof -
  have iff: "fst (Health_Check U bad_url fetch url w) = None \<longleftrightarrow>
      bad_url url = None
      \<and> (\<exists>resp w'. fetch url w = (Inr resp, w') \<and> rs_status resp = 200
           \<and> reports_ok U (body_data (rs_body resp)))"
    by (auto simp: Health_Check_def simp flip: decode_status split: option.splits prod.splits sum.splits)
  have "reports_ok U healthBody" using decode_healthBody by (auto simp flip: decode_status)
  then have "rs_status resp = 200 \<and> reports_ok U (body_data (rs_body resp)) \<longleftrightarrow>
      redirect meth path = None \<and> path = ''/health'' \<and> meth = ''GET''"
    if "resp = received (Handler redirect meth path)"
      "pred_option (\<lambda>reply. rp_status reply \<noteq> 200) (redirect meth path)" for resp
    using that by (auto simp: received_def Handler_def health_func_def http_Error_def split: option.splits)
  with iff show ?thesis by (auto simp: prod_eq_iff)
qed

theorem probe_accepts_endpoint_witness:
  "fst (Health_Check ascii_tables (\<lambda>_. None)
     (\<lambda>url w. (Inr (received (Handler (\<lambda>_ _. None) ''GET'' ''/health'')), w)) ''http://127.0.0.1:8080/health'' (0::int)) = None
   \<and> fst (Health_Check ascii_tables (\<lambda>_. None)
     (\<lambda>url w. (Inr \<lparr>rs_status = 200, rs_header = (\<lambda>_. []),
          rs_body = \<lparr>body_data = ''{\"status\":\"degraded\"}'', body_fail = None\<rparr>\<rparr>, w)) ''http://127.0.0.1:8080/health'' (0::int)) \<noteq> None"
proof
  show "fst (Health_Check ascii_tables (\<lambda>_. None)
     (\<lambda>url w. (Inr (received (Handler (\<lambda>_ _. None) ''GET'' ''/health'')), w)) ''http://127.0.0.1:8080/health'' (0::int)) = None"
    using probe_accepts_endpoint [of ascii_tables "\<lambda>_. None" "\<lambda>url w. (Inr (received (Handler (\<lambda>_ _. None) ''GET'' ''/health'')), w)"
      "''http://127.0.0.1:8080/health''" "0::int" "\<lambda>_ _. None" "''GET''" "''/health''"] by simp
next
  have "\<not> reports_ok ascii_tables ''{\"status\":\"degraded\"}''" by code_simp
  then show "fst (Health_Check ascii_tables (\<lambda>_. None)
     (\<lambda>url w. (Inr \<lparr>rs_status = 200, rs_header = (\<lambda>_. []),
          rs_body = \<lparr>body_data = ''{\"status\":\"degraded\"}'', body_fail = None\<rparr>\<rparr>, w)) ''http://127.0.0.1:8080/health'' (0::int)) \<noteq> None"
    using probe_accepts_endpoint [THEN conjunct1, of ascii_tables "\<lambda>_. None" _ _ "0::int"] by (simp del: not_None_eq)
qed

end
