(* ===== verification/Relay.thy ===== *)
theory Relay
  imports Cf_Worker Smtp_Conn Config Health
begin

text \<open>
  \<^verbatim>\<open>cmd/relay/main.go\<close>: the wiring of the components, the start and the shutdown of
  the process. What the operating system answers to the calls of \<^verbatim>\<open>run\<close> is the record
  \<open>answers\<close> (each call is made at most once); what the process does is the list of
  \<open>action\<close>s. The theorems here are about the components together.
\<close>

section \<open>Wiring\<close>

definition buildSender :: "'w runtime \<Rightarrow> config \<Rightarrow> gerror + 'w send_fun" where
  "buildSender rt cfg =
     (if CloudflareTransport cfg = TransportREST then
        (case NewREST rt \<lparr>rc_BaseURL = CloudflareAPIBaseURL cfg, rc_AccountID = CloudflareAccountID cfg,
             rc_APIToken = CloudflareAPIToken cfg, rc_Timeout = CloudflareTimeout cfg,
             rc_MaxRetries = CloudflareMaxRetries cfg, rc_HTTPClient = None, rc_Now = None,
             rc_Sleep = None\<rparr> of
           Inl err \<Rightarrow> Inl err
         | Inr c \<Rightarrow> Inr (REST_Send rt c))
      else if CloudflareTransport cfg = TransportWorker then
        (case NewWorker rt \<lparr>wc_URL = WorkerURL cfg, wc_Secret = WorkerSecret cfg,
             wc_Timeout = CloudflareTimeout cfg, wc_MaxRetries = CloudflareMaxRetries cfg,
             wc_HTTPClient = None, wc_Sleep = None\<rparr> of
           Inl err \<Rightarrow> Inl err
         | Inr c \<Rightarrow> Inr (Worker_Send rt c))
      else Inl (ErrNew (''unsupported transport '' @ goQuote (rt_unicode rt) (CloudflareTransport cfg))))"

definition VersionTLS12 :: int where
  "VersionTLS12 = 771"

definition buildTLS :: "(string \<Rightarrow> string \<Rightarrow> gerror + string) \<Rightarrow> config \<Rightarrow> gerror + tls_config option" where
  "buildTLS loadKeyPair cfg =
     (if SMTPTLSCert cfg = [] \<or> SMTPTLSKey cfg = [] then Inr None
      else (case loadKeyPair (SMTPTLSCert cfg) (SMTPTLSKey cfg) of
              Inl err \<Rightarrow> Inl (ErrWrap ''load key pair: '' err [])
            | Inr cert \<Rightarrow> Inr (Some \<lparr>Certificates = [cert], MinVersion = VersionTLS12\<rparr>)))"

text \<open>The options that \<^verbatim>\<open>run\<close> fills in.\<close>

definition relay_options :: "config \<Rightarrow> 'w send_fun \<Rightarrow> logger \<Rightarrow> tls_config option \<Rightarrow> 'w options" where
  "relay_options cfg send lg tls =
     \<lparr>opt_Addr = SMTPAddr cfg, opt_Domain = [], opt_Username = SMTPUser cfg,
      opt_Password = SMTPPassword cfg, opt_MaxMessageBytes = SMTPMaxMessageBytes cfg,
      opt_MaxRecipients = SMTPMaxRecipients cfg, opt_ReadTimeout = SMTPReadTimeout cfg,
      opt_WriteTimeout = SMTPWriteTimeout cfg, opt_TLSConfig = tls,
      opt_Policy = Some (NewSenderPolicy (AllowedFromDomains cfg)), opt_Sender = Some send,
      opt_Logger = Some lg, opt_NewID = None, opt_Now = None\<rparr>"

section \<open>The process\<close>

datatype stop_cause = Signal | Listener_died "gerror option"

record answers =
  an_keypair :: "string \<Rightarrow> string \<Rightarrow> gerror + string"
  an_listen_smtp :: "gerror + string"           \<comment> \<open>the bound address\<close>
  an_listen_health :: "gerror + string"
  an_stop :: stop_cause                         \<comment> \<open>what the \<^verbatim>\<open>select\<close> receives\<close>
  an_shutdown_smtp :: "gerror option"
  an_shutdown_health :: "gerror option"

datatype 'w action =
    A_listen string
  | A_close_smtp
  | A_log log_record
  | A_serve_smtp "'w smtp_server"
  | A_serve_health health_server
  | A_shutdown_smtp
  | A_shutdown_health

definition log_actions :: "logger \<Rightarrow> log_level \<Rightarrow> string \<Rightarrow> (string \<times> attr) list \<Rightarrow> 'w action list" where
  "log_actions lg lvl msg attrs = map A_log (logger_Log lg lvl msg attrs [])"

definition shutdownGrace :: int where
  "shutdownGrace = 20 * second"

definition shutdown_warning :: "logger \<Rightarrow> string \<Rightarrow> gerror option \<Rightarrow> 'w action list" where
  "shutdown_warning lg msg err =
     (case err of
        None \<Rightarrow> []
      | Some e \<Rightarrow>
          if errorsIs e DeadlineExceeded then []
          else log_actions lg LevelWarn msg [(''error'', AString (errorText e))])"

definition shutdown_actions :: "answers \<Rightarrow> logger \<Rightarrow> 'w action list" where
  "shutdown_actions an lg =
     [A_shutdown_smtp] @ shutdown_warning lg ''smtp shutdown'' (an_shutdown_smtp an)
     @ [A_shutdown_health] @ shutdown_warning lg ''health shutdown'' (an_shutdown_health an)"

definition start_attrs :: "string \<Rightarrow> config \<Rightarrow> tls_config option \<Rightarrow> string \<Rightarrow> string \<Rightarrow> (string \<times> attr) list" where
  "start_attrs version cfg tls smtpAddr healthAddr =
     [(''version'', AString version), (''smtp_addr'', AString smtpAddr),
      (''health_addr'', AString healthAddr), (''transport'', AString (CloudflareTransport cfg)),
      (''allowed_from_domains'', AInt (int (length (AllowedFromDomains cfg)))),
      (''smtp_tls'', ABool (tls \<noteq> None))]"

text \<open>From the bound listeners to the exit.\<close>

definition serve ::
  "answers \<Rightarrow> logger \<Rightarrow> 'w smtp_server \<Rightarrow> health_server \<Rightarrow> gerror option \<times> 'w action list"
where
  "serve an lg smtpSrv healthSrv =
     (let served = [A_serve_smtp smtpSrv, A_serve_health healthSrv];
          stopped = shutdown_actions an lg @ log_actions lg LevelInfo ''relay stopped'' []
      in case an_stop an of
           Signal \<Rightarrow>
             (None, served @ log_actions lg LevelInfo ''shutdown signal received''
                [(''grace'', ADuration shutdownGrace)] @ stopped)
         | Listener_died None \<Rightarrow> (None, served @ stopped)
         | Listener_died (Some e) \<Rightarrow>
             if \<not> errorsIs e ServerClosed \<and> \<not> errorsIs e NetClosed then
               (Some (ErrWrap ''serve: '' e []), served @ shutdown_actions an lg)
             else (None, served @ stopped))"

definition run ::
  "string \<Rightarrow> config_lib \<Rightarrow> 'w runtime \<Rightarrow> 'w defaults \<Rightarrow> getenv \<Rightarrow> answers \<Rightarrow>
     gerror option \<times> 'w action list"
where
  "run version L rt df getenv an =
     (case loadFrom L getenv of
        Inl err \<Rightarrow> (Some err, [])
      | Inr cfg \<Rightarrow>
     (case New_logger (cl_unicode L) (LogLevel cfg) of
        Inl err \<Rightarrow> (Some err, [])
      | Inr lg \<Rightarrow>
     (case buildSender rt cfg of
        Inl err \<Rightarrow> (Some (ErrWrap ''cloudflare transport: '' err []), [])
      | Inr send \<Rightarrow>
     (case buildTLS (an_keypair an) cfg of
        Inl err \<Rightarrow> (Some (ErrWrap ''smtp tls: '' err []), [])
      | Inr tls \<Rightarrow>
     (case New_server df (relay_options cfg send lg tls) of
        Inl err \<Rightarrow> (Some (ErrWrap ''smtp server: '' err []), [])
      | Inr smtpSrv \<Rightarrow>
     (case an_listen_smtp an of
        Inl err \<Rightarrow> (Some (ErrWrap ''listen smtp: '' err []), [A_listen (SMTPAddr cfg)])
      | Inr smtpAddr \<Rightarrow>
     (case an_listen_health an of
        Inl err \<Rightarrow>
          (Some (ErrWrap ''listen health: '' err []),
           [A_listen (SMTPAddr cfg), A_listen (HealthAddr cfg), A_close_smtp])
      | Inr healthAddr \<Rightarrow>
          (case serve an lg smtpSrv (New_health (HealthAddr cfg)) of
             (err, acts) \<Rightarrow>
               (err, [A_listen (SMTPAddr cfg), A_listen (HealthAddr cfg)]
                  @ log_actions lg LevelInfo ''relay starting''
                      (start_attrs version cfg tls smtpAddr healthAddr) @ acts)))))))))"

section \<open>The container probe and \<^verbatim>\<open>main\<close>\<close>

definition defaultHealthPort :: int where
  "defaultHealthPort = 8080"

text \<open>The probe runs under a context of \<open>healthcheckTimeout\<close>, which \<open>fetch\<close> is given.\<close>

definition healthcheckTimeout :: int where
  "healthcheckTimeout = 5 * second"

definition health_url :: "config_lib \<Rightarrow> getenv \<Rightarrow> string" where
  "health_url L getenv =
     (let port = (case loadFrom L getenv of Inr cfg \<Rightarrow> HealthPort cfg | Inl _ \<Rightarrow> defaultHealthPort)
      in ''http://127.0.0.1:'' @ itoa port @ ''/health'')"

definition runHealthcheck ::
  "config_lib \<Rightarrow> (string \<Rightarrow> gerror option) \<Rightarrow> (int \<Rightarrow> string \<Rightarrow> 'v \<Rightarrow> (gerror + http_response) \<times> 'v) \<Rightarrow>
     getenv \<Rightarrow> 'v \<Rightarrow> gerror option \<times> 'v"
where
  "runHealthcheck L bad_url fetch getenv w =
     Health_Check (cl_unicode L) bad_url (fetch healthcheckTimeout) (health_url L getenv) w"

text \<open>
  \<^verbatim>\<open>main\<close> by its two flags: the lines written to standard output and standard error,
  and the exit code. \<open>probed\<close> and \<open>outcome\<close> are the results of \<^verbatim>\<open>runHealthcheck\<close> and
  \<^verbatim>\<open>run\<close>, of which at most one is called.
\<close>

definition relay_main ::
  "bool \<Rightarrow> bool \<Rightarrow> string \<Rightarrow> (unit \<Rightarrow> gerror option) \<Rightarrow> (unit \<Rightarrow> gerror option) \<Rightarrow>
     string list \<times> string list \<times> int"
where
  "relay_main healthcheck showVersion version probed outcome =
     (if showVersion then ([version], [], 0)
      else if healthcheck then
        (case probed () of
           Some err \<Rightarrow> ([], [''healthcheck failed: '' @ errorText err], 1)
         | None \<Rightarrow> ([], [], 0))
      else
        (case outcome () of
           Some err \<Rightarrow> ([], [''fatal: '' @ errorText err], 1)
         | None \<Rightarrow> ([], [], 0)))"

section \<open>The components together\<close>

lemma buildSender_sender:
  assumes "buildSender rt cfg = Inr send"
  shows "sender send"
  using assms rest_sender.sender_axioms worker_sender.sender_axioms
  by (auto simp: buildSender_def split: if_splits sum.splits)

lemma buildSender_ok:
  assumes "transport_ok L cfg" and "0 \<le> CloudflareMaxRetries cfg" and "CloudflareAPIBaseURL cfg \<noteq> []"
  obtains send where "buildSender rt cfg = Inr send"
  using assms by (auto simp: buildSender_def transport_ok_def NewREST_def NewWorker_def Let_def
      TransportREST_def TransportWorker_def split: if_splits)

lemma New_logger_ok:
  assumes "LogLevel cfg \<in> {''debug'', ''info'', ''warn'', ''error''}"
  obtains lg where "New_logger U (LogLevel cfg) = Inr lg"
proof -
  have "toLower U ''debug'' = ''debug''" "toLower U ''info'' = ''info''"
    "toLower U ''warn'' = ''warn''" "toLower U ''error'' = ''error''"
    by (simp_all add: toLower_def lower_byte_def)
  with assms that show thesis by (auto simp: New_logger_def parseLevel_def Let_def)
qed

lemma relay_server_ok:
  assumes "loadFrom L g = Inr cfg"
  obtains sv where "New_server df (relay_options cfg send lg tls) = Inr sv"
  using loadFrom_ok_fields [OF assms]
  by (auto simp: New_server_def validate_def relay_options_def)

lemma relay_server_fields:
  assumes "New_server df (relay_options cfg send lg tls) = Inr sv"
  shows "ef_Policy (sv_backend sv) = NewSenderPolicy (AllowedFromDomains cfg)"
    and "ef_Sender (sv_backend sv) = send" and "ef_Logger (sv_backend sv) = lg"
    and "ef_Username (sv_backend sv) = SMTPUser cfg" and "ef_Password (sv_backend sv) = SMTPPassword cfg"
    and "ef_MaxRecipients (sv_backend sv) = SMTPMaxRecipients cfg" and "0 < SMTPMaxRecipients cfg"
    and "sv_MaxRecipients sv = SMTPMaxRecipients cfg"
    and "sv_AllowInsecureAuth sv = (tls = None)" and "ef_Now (sv_backend sv) = time_Now df"
    and "ef_NewID (sv_backend sv) = uuid_NewString df"
  using assms by (auto simp: New_server_def validate_def relay_options_def orElse_def
      split: sum.splits if_splits)

lemma relay_server_record:
  assumes "New_server df (relay_options cfg send lg tls) = Inr sv"
  shows "sv = \<lparr>sv_backend =
              \<lparr>ef_Addr = SMTPAddr cfg, ef_Domain = ''localhost'', ef_Username = SMTPUser cfg,
               ef_Password = SMTPPassword cfg, ef_MaxMessageBytes = SMTPMaxMessageBytes cfg,
               ef_MaxRecipients = SMTPMaxRecipients cfg, ef_ReadTimeout = SMTPReadTimeout cfg,
               ef_WriteTimeout = SMTPWriteTimeout cfg, ef_TLSConfig = tls,
               ef_Policy = NewSenderPolicy (AllowedFromDomains cfg), ef_Sender = send, ef_Logger = lg,
               ef_NewID = uuid_NewString df, ef_Now = time_Now df\<rparr>,
            sv_Addr = SMTPAddr cfg, sv_Domain = ''localhost'',
            sv_MaxMessageBytes = SMTPMaxMessageBytes cfg, sv_MaxRecipients = SMTPMaxRecipients cfg,
            sv_ReadTimeout = SMTPReadTimeout cfg, sv_WriteTimeout = SMTPWriteTimeout cfg,
            sv_TLSConfig = tls, sv_AllowInsecureAuth = (tls = None)\<rparr>"
  using assms by (auto simp: New_server_def validate_def relay_options_def orElse_def defaultDomain_def
      split: sum.splits if_splits)

text \<open>
  Trimming cannot move a sender to another domain: an envelope sender whose domain an entry
  of the normalized list admits keeps that domain when \<^verbatim>\<open>resolveFrom\<close> trims it.
\<close>

lemma trimmed_domain:
  assumes "ends_nonspace d" and "lowerASCII d = Address_Domain \<lparr>Name = n, Addr = from\<rparr>"
    and "Addr a = trimSpace from"
  shows "Address_Domain a = lowerASCII d"
proof -
  have "Address_Domain \<lparr>Name = n, Addr = from\<rparr> \<noteq> []"
    using assms(1,2) by (metis ends_nonspace_def lowerASCII_eq_Nil)
  then obtain pre dn where f: "from = pre @ CHR ''@'' # dn" "CHR ''@'' \<notin> set dn"
      "lowerASCII d = lowerASCII dn"
    using Address_Domain_split [of "\<lparr>Name = n, Addr = from\<rparr>"] assms(2) by auto
  then have "ends_nonspace dn"
    using assms(1) ends_nonspace_lower [of d] ends_nonspace_lower [of dn] by (simp add: lowerASCII_def)
  from trimSpace_at [OF this, of pre] obtain pre' where "trimSpace from = pre' @ CHR ''@'' # dn"
    unfolding f(1) by blast
  with assms(3) have "a = \<lparr>Name = Name a, Addr = pre' @ CHR ''@'' # dn\<rparr>" by (cases a) simp
  then show ?thesis using Address_Domain_at [OF f(2), of "Name a" pre'] f(3) by metis
qed

lemma handed_domain:
  assumes "loadFrom L g = Inr cfg" and "lower_ok (cl_unicode L)"
    and "New_server df (relay_options cfg send lg tls) = Inr sv" and "handed_ok pf (sv_backend sv) (s, m)"
  shows "AllowedFromDomains cfg = [] \<or>
    Address_Domain (From m) \<in> lowerASCII ` set (AllowedFromDomains cfg)"
proof (cases "AllowedFromDomains cfg = []")
  case False
  with assms(4) obtain d where d: "d \<in> set (AllowedFromDomains cfg)"
      "lowerASCII d = Address_Domain \<lparr>Name = [], Addr = s_from s\<rparr>"
    by (auto simp: handed_ok_def envelope_ok_def relay_server_fields(1) [OF assms(3)] Allows_NewSenderPolicy)
  have "ends_nonspace d"
    using d(1) normalizeDomains_ends [OF assms(2)] loadFrom_ok_fields(10) [OF assms(1)] by metis
  from trimmed_domain [OF this d(2)] assms(4) have "Address_Domain (From m) = lowerASCII d"
    by (simp add: handed_ok_def)
  with d(1) show ?thesis by auto
qed simp

text \<open>
  C3. The allowlist holds end to end: on a relay started from an environment, every message
  that is handed to Cloudflare on any connection has a From address whose domain is in
  \<^verbatim>\<open>ALLOWED_FROM_DOMAINS\<close>, unless that list is empty. Trimming, header rewriting and
  the order of commands cannot get around it.
\<close>

theorem delivered_from_allowed_domain:
  assumes "loadFrom L g = Inr cfg" and "lower_ok (cl_unicode L)"
    and "New_server df (relay_options cfg send lg tls) = Inr sv"
    and "conn_run pf (sv_backend sv) (new_conn w logs) evs c" and "(s, m) \<in> set (c_handed c)"
  shows "AllowedFromDomains cfg = [] \<or>
    Address_Domain (From m) \<in> lowerASCII ` set (AllowedFromDomains cfg)"
proof -
  have "conn_ok pf (sv_backend sv) c"
    using conn_run_ok [OF assms(4)] relay_server_fields(6,7) [OF assms(3)] by simp
  with assms(5) have "handed_ok pf (sv_backend sv) (s, m)"
    by (auto simp: conn_ok_def list_all_iff)
  then show ?thesis by (rule handed_domain [OF assms(1-3)])
qed

definition example_defaults :: "'w defaults" where
  "example_defaults =
     \<lparr>slog_Default = \<lparr>lg_level = LevelInfo\<rparr>, uuid_NewString = (\<lambda>w. (''id'', w)),
      time_Now = (\<lambda>w. (0, w))\<rparr>"

theorem delivered_from_allowed_domain_witness:
  "\<exists>cfg sv c s m. loadFrom example_lib example_env = Inr cfg
    \<and> New_server example_defaults
        (relay_options cfg (ef_Sender example_opts) \<lparr>lg_level = LevelInfo\<rparr> None) = Inr sv
    \<and> conn_run example_platform (sv_backend sv) (new_conn 0 [])
        (login_mail (sv_backend sv) ''s@y.org'' [''a@x.org''] ''raw'') c
    \<and> c_handed c = [(s, m)] \<and> Address_Domain (From m) \<in> lowerASCII ` {''y.org''}"
proof -
  obtain cfg where cfg: "loadFrom example_lib example_env = Inr cfg"
    and ds: "AllowedFromDomains cfg = [''y.org'']" using example_loads by blast
  obtain sv where sv: "New_server example_defaults
      (relay_options cfg (ef_Sender example_opts) \<lparr>lg_level = LevelInfo\<rparr> None) = Inr sv"
    by (rule relay_server_ok [OF cfg])
  note f = relay_server_fields [OF sv]
  have "Allows (ef_Policy (sv_backend sv)) \<lparr>Name = [], Addr = ''s@y.org''\<rparr>"
    using example_allows(1) by (simp add: f(1) ds example_opts_def)
  moreover have "int (length [''a@x.org'']) \<le> ef_MaxRecipients (sv_backend sv)"
    using f(6,7) by simp
  moreover have "ef_Now (sv_backend sv) 0 = (0, 0)"
    by (simp add: f(10) example_defaults_def)
  moreover obtain m where "Parse (pf_unicode example_platform) (pf_create_reader example_platform)
     (pf_now example_platform 0) ''raw'' ''s@y.org'' [''a@x.org''] = Inr m" using example_parses by blast
  ultimately obtain c s m' where
    run: "conn_run example_platform (sv_backend sv) (new_conn 0 [])
      (login_mail (sv_backend sv) ''s@y.org'' [''a@x.org''] ''raw'') c"
    and h: "c_handed c = [(s, m')]"
    by (blast dest: authorised_run)
  have "lower_ok (cl_unicode example_lib)"
    by (simp add: lower_ok_def example_lib_def ascii_tables_def)
  from delivered_from_allowed_domain [OF cfg this sv run, of s m'] h ds
  have "Address_Domain (From m') \<in> lowerASCII ` {''y.org''}" by simp
  with cfg sv run h show ?thesis by blast
qed

text \<open>A relay of the example environment over the scripted network.\<close>

lemma example_relay:
  obtains cfg send and sv :: "script smtp_server" where "loadFrom example_lib example_env = Inr cfg"
    and "buildSender script_runtime cfg = Inr send"
    and "New_server example_defaults (relay_options cfg send \<lparr>lg_level = LevelInfo\<rparr> None) = Inr sv"
proof -
  have "case loadFrom example_lib example_env of Inl _ \<Rightarrow> False
    | Inr cfg \<Rightarrow> CloudflareAPIBaseURL cfg \<noteq> []" by code_simp
  then obtain cfg where cfg: "loadFrom example_lib example_env = Inr cfg"
    and base: "CloudflareAPIBaseURL cfg \<noteq> []" by (auto split: sum.splits)
  obtain send where send: "buildSender script_runtime cfg = Inr send"
    by (rule buildSender_ok [OF loadFrom_ok_fields(8,6) [OF cfg] base])
  obtain sv where sv: "New_server example_defaults
      (relay_options cfg send \<lparr>lg_level = LevelInfo\<rparr> None) = Inr sv"
    by (rule relay_server_ok [OF cfg])
  from that [OF cfg send sv] show thesis .
qed

text \<open>
  C7. One DATA command, whatever happens in it, writes one record to the log of the relay,
  and record and reply agree: sent with success, deferred with 451 and class 4, rejected with
  550 and class 5 or for size, for either transport and any network.
\<close>

theorem data_reply_matches_log:
  assumes "buildSender rt cfg = Inr send" and "New_server df (relay_options cfg send lg tls) = Inr sv"
  shows "\<exists>d reply w'. Data pf (sv_backend sv) body s w logs = (reply, w', LogDelivery lg d logs)
    \<and> outcome_fits d reply"
  using sender.Data_logs_outcome [OF buildSender_sender [OF assms(1)] relay_server_fields(2) [OF assms(2)]]
  by (simp add: relay_server_fields(3) [OF assms(2)])

theorem data_reply_matches_log_witness:
  "\<exists>cfg send sv. loadFrom example_lib example_env = Inr cfg \<and> buildSender script_runtime cfg = Inr send
    \<and> New_server example_defaults (relay_options cfg send \<lparr>lg_level = LevelInfo\<rparr> None) = Inr sv
    \<and> (\<exists>d reply w'. Data \<lparr>pf_unicode = ascii_tables, pf_create_reader = (\<lambda>_. (example_reader, None)),
           pf_now = (\<lambda>_. 0), pf_with_timeout = (\<lambda>_ w. w)\<rparr> (sv_backend sv) (Inr ''raw'') NewSession
           \<lparr>replies = [script_reply 503 ''{}''], sent = 0, slept = []\<rparr> []
         = (reply, w', LogDelivery \<lparr>lg_level = LevelInfo\<rparr> d []) \<and> outcome_fits d reply)"
proof -
  obtain cfg send and sv :: "script smtp_server" where cfg: "loadFrom example_lib example_env = Inr cfg"
    and send: "buildSender script_runtime cfg = Inr send"
    and sv: "New_server example_defaults (relay_options cfg send \<lparr>lg_level = LevelInfo\<rparr> None) = Inr sv"
    by (rule example_relay)
  from data_reply_matches_log [OF send sv] cfg send sv show ?thesis by blast
qed

text \<open>
  C35. Whatever a client sends and whatever the provider answers, an error that a callback of
  the session returns is a well-formed SMTP reply: a code of 451, 530 or 550 with an enhanced
  code of the same class and a text without control characters, so that nothing from the
  client, the message or the provider can break the reply line, or one of the errors for which
  the library has its own reply.
\<close>

theorem replies_well_formed:
  assumes "buildSender rt cfg = Inr send" and "New_server df (relay_options cfg send lg tls) = Inr sv"
  shows "pred_option reply_ok (fst (Mail U (sv_backend sv) from s))
    \<and> pred_option reply_ok (fst (Rcpt to s))
    \<and> pred_option reply_ok (fst (authenticate (sv_backend sv) u p s))
    \<and> (case Auth mech of Inl e \<Rightarrow> reply_ok e | Inr _ \<Rightarrow> True)
    \<and> pred_option reply_ok (fst (Data pf (sv_backend sv) body s w logs))"
  using sender.Data_reply [OF buildSender_sender [OF assms(1)] relay_server_fields(2) [OF assms(2)]]
  by (simp add: Mail_reply authenticate_reply Rcpt_def Auth_reply split: sum.split)

theorem replies_well_formed_witness:
  "\<exists>cfg send sv. loadFrom example_lib example_env = Inr cfg \<and> buildSender script_runtime cfg = Inr send
    \<and> New_server example_defaults (relay_options cfg send \<lparr>lg_level = LevelInfo\<rparr> None) = Inr sv
    \<and> pred_option reply_ok (fst (Mail ascii_tables (sv_backend sv) (''evil@'' @ [CHR 0x0D, CHR 0x0A])
         (NewSession\<lparr>authenticated := True\<rparr>)))"
proof -
  obtain cfg send and sv :: "script smtp_server" where cfg: "loadFrom example_lib example_env = Inr cfg"
    and send: "buildSender script_runtime cfg = Inr send"
    and sv: "New_server example_defaults (relay_options cfg send \<lparr>lg_level = LevelInfo\<rparr> None) = Inr sv"
    by (rule example_relay)
  from replies_well_formed [OF send sv] cfg send sv show ?thesis by blast
qed

section \<open>Start and shutdown\<close>

text \<open>The actions that concern the two servers, in order.\<close>

fun phase :: "'w action \<Rightarrow> string list" where
  "phase (A_listen _) = []"
| "phase A_close_smtp = [''close smtp'']"
| "phase (A_log _) = []"
| "phase (A_serve_smtp _) = [''serve smtp'']"
| "phase (A_serve_health _) = [''serve health'']"
| "phase A_shutdown_smtp = [''shutdown smtp'']"
| "phase A_shutdown_health = [''shutdown health'']"

definition phases :: "'w action list \<Rightarrow> string list" where
  "phases acts = concat (map phase acts)"

lemma phases_append [simp]: "phases (xs @ ys) = phases xs @ phases ys"
  by (simp add: phases_def)

lemma phases_Cons [simp]: "phases (x # xs) = phase x @ phases xs" "phases [] = []"
  by (simp_all add: phases_def)

lemma phases_log [simp]: "phases (log_actions lg lvl msg attrs) = []"
  by (simp add: log_actions_def logger_Log_def)

lemma phases_warning [simp]: "phases (shutdown_warning lg msg err) = []"
  by (simp add: shutdown_warning_def split: option.split)

lemma phases_shutdown [simp]:
  "phases (shutdown_actions an lg) = [''shutdown smtp'', ''shutdown health'']"
  by (simp add: shutdown_actions_def)

lemma serve_phases:
  "phases (snd (serve an lg sv hs)) = [''serve smtp'', ''serve health'', ''shutdown smtp'', ''shutdown health'']"
  by (simp add: serve_def Let_def split: stop_cause.split option.split)

text \<open>
  C28. The process never stays half up: either both servers are started and, however the run
  ends, both are shut down, the SMTP server first so that transactions in flight can finish;
  or none is started, the run returns an error, and an SMTP listener that was already bound
  is closed again.
\<close>

theorem run_lifecycle:
  "case run version L rt df g an of (err, acts) \<Rightarrow>
     phases acts = [''serve smtp'', ''serve health'', ''shutdown smtp'', ''shutdown health'']
     \<or> (\<exists>e. err = Some e \<and>
          (length acts \<le> 1 \<and> phases acts = [] \<or> length acts = 3 \<and> phases acts = [''close smtp'']))"
proof -
  have served: "phases acts = [''serve smtp'', ''serve health'', ''shutdown smtp'', ''shutdown health'']"
    if "serve an lg sv hs = (err, acts)" for lg and sv :: "'a smtp_server" and hs err acts
    using serve_phases [of an lg sv hs] that by simp
  show ?thesis by (auto simp: run_def dest: served split: sum.split prod.split)
qed

text \<open>
  C27. A configuration that loads starts the relay it describes, as long as the API base URL is
  not empty, the key pair loads if one is configured, both ports can be bound and a
  termination signal is what ends the process: it listens on the two configured addresses, and
  the server that it runs on the first has the configured address, credentials, limit on the
  message size, limit on recipients, time limits, allowlist, log level and transport; it has the
  certificate, with TLS 1.2 as the least version, exactly when one is configured, and offers
  authentication without TLS exactly when none is; the health server runs on the other address,
  and the process ends without an error.
\<close>

theorem run_starts:
  assumes "loadFrom L g = Inr cfg" and "CloudflareAPIBaseURL cfg \<noteq> []"
    and "buildTLS (an_keypair an) cfg = Inr tls"
    and "an_listen_smtp an = Inr smtpAddr" and "an_listen_health an = Inr healthAddr"
    and "an_stop an = Signal"
  shows "\<exists>acts sv send lg.
      run version L rt df g an = (None, A_listen (SMTPAddr cfg) # A_listen (HealthAddr cfg) # acts)
    \<and> A_serve_smtp sv \<in> set acts \<and> A_serve_health (New_health (HealthAddr cfg)) \<in> set acts
    \<and> buildSender rt cfg = Inr send \<and> New_logger (cl_unicode L) (LogLevel cfg) = Inr lg
    \<and> sv = \<lparr>sv_backend =
              \<lparr>ef_Addr = SMTPAddr cfg, ef_Domain = ''localhost'', ef_Username = SMTPUser cfg,
               ef_Password = SMTPPassword cfg, ef_MaxMessageBytes = SMTPMaxMessageBytes cfg,
               ef_MaxRecipients = SMTPMaxRecipients cfg, ef_ReadTimeout = SMTPReadTimeout cfg,
               ef_WriteTimeout = SMTPWriteTimeout cfg, ef_TLSConfig = tls,
               ef_Policy = NewSenderPolicy (AllowedFromDomains cfg), ef_Sender = send, ef_Logger = lg,
               ef_NewID = uuid_NewString df, ef_Now = time_Now df\<rparr>,
            sv_Addr = SMTPAddr cfg, sv_Domain = ''localhost'',
            sv_MaxMessageBytes = SMTPMaxMessageBytes cfg, sv_MaxRecipients = SMTPMaxRecipients cfg,
            sv_ReadTimeout = SMTPReadTimeout cfg, sv_WriteTimeout = SMTPWriteTimeout cfg,
            sv_TLSConfig = tls,
            sv_AllowInsecureAuth = (SMTPTLSCert cfg = [] \<or> SMTPTLSKey cfg = [])\<rparr>
    \<and> (if SMTPTLSCert cfg = [] \<or> SMTPTLSKey cfg = [] then tls = None
       else \<exists>cert. an_keypair an (SMTPTLSCert cfg) (SMTPTLSKey cfg) = Inr cert
              \<and> tls = Some \<lparr>Certificates = [cert], MinVersion = 771\<rparr>)"
proof -
  obtain lg where lg: "New_logger (cl_unicode L) (LogLevel cfg) = Inr lg"
    by (rule New_logger_ok [OF loadFrom_ok_fields(9) [OF assms(1)]])
  obtain send where send: "buildSender rt cfg = Inr send"
    by (rule buildSender_ok [OF loadFrom_ok_fields(8,6) [OF assms(1)] assms(2)])
  obtain sv where sv: "New_server df (relay_options cfg send lg tls) = Inr sv"
    by (rule relay_server_ok [OF assms(1)])
  have t: "if SMTPTLSCert cfg = [] \<or> SMTPTLSKey cfg = [] then tls = None
       else \<exists>cert. an_keypair an (SMTPTLSCert cfg) (SMTPTLSKey cfg) = Inr cert
              \<and> tls = Some \<lparr>Certificates = [cert], MinVersion = 771\<rparr>"
    using assms(3) by (auto simp: buildTLS_def VersionTLS12_def split: if_splits sum.splits)
  then have "(SMTPTLSCert cfg = [] \<or> SMTPTLSKey cfg = []) = (tls = None)" by (auto split: if_splits)
  moreover have "\<exists>acts. run version L rt df g an = (None, A_listen (SMTPAddr cfg) # A_listen (HealthAddr cfg) # acts)
    \<and> A_serve_smtp sv \<in> set acts \<and> A_serve_health (New_health (HealthAddr cfg)) \<in> set acts"
    using assms by (simp add: run_def lg send sv serve_def Let_def)
  ultimately show ?thesis
    using lg send relay_server_record [OF sv] t by (simp only:) blast
qed

definition example_answers :: answers where
  "example_answers =
     \<lparr>an_keypair = (\<lambda>_ _. Inl (ErrNew ''no key'')), an_listen_smtp = Inr ''0.0.0.0:2525'',
      an_listen_health = Inr ''0.0.0.0:8080'', an_stop = Signal, an_shutdown_smtp = None,
      an_shutdown_health = None\<rparr>"

theorem run_starts_witness:
  "\<exists>cfg acts sv. loadFrom example_lib example_env = Inr cfg
    \<and> run ''v1'' example_lib script_runtime example_defaults example_env example_answers = (None, acts)
    \<and> A_serve_smtp sv \<in> set acts \<and> sv_AllowInsecureAuth sv \<and> sv_Addr sv = SMTPAddr cfg
    \<and> sv_MaxMessageBytes sv = SMTPMaxMessageBytes cfg \<and> sv_ReadTimeout sv = SMTPReadTimeout cfg"
proof -
  have "case loadFrom example_lib example_env of Inl _ \<Rightarrow> False
    | Inr cfg \<Rightarrow> CloudflareAPIBaseURL cfg \<noteq> [] \<and> SMTPTLSCert cfg = []" by code_simp
  then obtain cfg where cfg: "loadFrom example_lib example_env = Inr cfg"
    and c: "CloudflareAPIBaseURL cfg \<noteq> []" "SMTPTLSCert cfg = []" by (auto split: sum.splits)
  have "buildTLS (an_keypair example_answers) cfg = Inr None" by (simp add: buildTLS_def c)
  from run_starts [OF cfg c(1) this, of "''0.0.0.0:2525''" "''0.0.0.0:8080''" "''v1''" script_runtime example_defaults]
  obtain acts and sv :: "script smtp_server" where
    "run ''v1'' example_lib script_runtime example_defaults example_env example_answers =
      (None, A_listen (SMTPAddr cfg) # A_listen (HealthAddr cfg) # acts)" "A_serve_smtp sv \<in> set acts"
    "sv_AllowInsecureAuth sv" "sv_Addr sv = SMTPAddr cfg"
    "sv_MaxMessageBytes sv = SMTPMaxMessageBytes cfg" "sv_ReadTimeout sv = SMTPReadTimeout cfg"
    by (auto simp: example_answers_def c)
  with cfg show ?thesis by (intro exI [of _ cfg] exI [of _ "A_listen (SMTPAddr cfg) # A_listen (HealthAddr cfg) # acts"]
      exI [of _ sv]) simp
qed

text \<open>
  C39. One mistake escapes the validation: with the REST transport and an API base URL that is
  set to the empty string the configuration loads, and the process then fails to start.
\<close>

theorem empty_base_url_fails_late:
  assumes "loadFrom L g = Inr cfg" and "CloudflareTransport cfg = ''rest''"
    and "CloudflareAPIBaseURL cfg = []"
  shows "run version L rt df g an =
    (Some (ErrWrap ''cloudflare transport: '' (ErrNew ''cloudflare: RESTConfig.BaseURL must not be empty'') []), [])"
proof -
  obtain lg where "New_logger (cl_unicode L) (LogLevel cfg) = Inr lg"
    by (rule New_logger_ok [OF loadFrom_ok_fields(9) [OF assms(1)]])
  with assms show ?thesis by (simp add: run_def buildSender_def TransportREST_def NewREST_def)
qed

theorem empty_base_url_fails_late_witness:
  "fst (run ''v1'' example_lib script_runtime (example_defaults :: script defaults)
     (example_env(''CLOUDFLARE_API_BASE_URL'' \<mapsto> [])) example_answers)
   = Some (ErrWrap ''cloudflare transport: '' (ErrNew ''cloudflare: RESTConfig.BaseURL must not be empty'') [])"
proof -
  let ?g = "example_env(''CLOUDFLARE_API_BASE_URL'' \<mapsto> [])"
  have "case loadFrom example_lib ?g of Inl _ \<Rightarrow> False
    | Inr cfg \<Rightarrow> CloudflareTransport cfg = ''rest'' \<and> CloudflareAPIBaseURL cfg = []" by code_simp
  then obtain cfg where cfg: "loadFrom example_lib ?g = Inr cfg" "CloudflareTransport cfg = ''rest''"
      "CloudflareAPIBaseURL cfg = []" by (auto split: sum.splits)
  show ?thesis by (simp only: empty_base_url_fails_late [OF cfg] fst_conv)
qed

text \<open>
  The probe of the container reports the running process: when the health handler answers
  the probe's request on the configured port, or on 8080 when this invocation's own
  configuration does not load, the command exits with 0, and when nothing answers with 1.
\<close>

lemma healthcheck_exit:
  assumes "bad_url (health_url L g) = None" and "redirect ''GET'' ''/health'' = None"
    and "fetch healthcheckTimeout (health_url L g) w =
      ((if up then Inr (received (Handler redirect ''GET'' ''/health'')) else Inl e), w)"
  shows "relay_main True False version (\<lambda>_. fst (runHealthcheck L bad_url fetch g w)) ran' =
      (if up then ([], [], 0)
       else ([], [''healthcheck failed: '' @ ''health: request failed: '' @ errorText e], 1))
    \<and> (case loadFrom L g of
         Inl _ \<Rightarrow> health_url L g = ''http://127.0.0.1:'' @ itoa 8080 @ ''/health''
       | Inr cfg \<Rightarrow> health_url L g = ''http://127.0.0.1:'' @ itoa (HealthPort cfg) @ ''/health'')"
proof -
  have "case loadFrom L g of
         Inl _ \<Rightarrow> health_url L g = ''http://127.0.0.1:'' @ itoa 8080 @ ''/health''
       | Inr cfg \<Rightarrow> health_url L g = ''http://127.0.0.1:'' @ itoa (HealthPort cfg) @ ''/health''"
    by (simp add: health_url_def defaultHealthPort_def Let_def split: sum.split)
  moreover have "fst (runHealthcheck L bad_url fetch g w) =
      (if up then None else Some (ErrWrap ''health: request failed: '' e []))"
    using assms by (simp add: runHealthcheck_def Health_Check_def received_def Handler_def
        health_func_def decode_healthBody)
  ultimately show ?thesis by (simp add: relay_main_def)
qed

end
