(* ===== verification/Smtp_Server.thy ===== *)
theory Smtp_Server
  imports Smtp_Conn
begin

text \<open>
  All connections of a server together. A session of \<^verbatim>\<open>session.go\<close> is an object that the
  callbacks of its connection reach through a pointer, so the sessions live in a heap: that two
  connections never share one is a consequence of what \<^verbatim>\<open>NewSession\<close> of the backend
  allocates. The sender, the clock and the log are shared. The steps of the connections
  interleave in any order, and in between the shared world changes in any way. A callback is
  one step: two deliveries that overlap in time meet only in the world.
\<close>

section \<open>Sessions in the heap\<close>

text \<open>
  A pointer to a session is the index of its cell. \<^verbatim>\<open>NewSession\<close> of the backend
  evaluates \<^verbatim>\<open>&session{...}\<close>: it puts the struct in a new cell and returns its
  address.
\<close>

definition backend_NewSession :: "session list \<Rightarrow> nat \<times> session list" where
  "backend_NewSession heap = (length heap, heap @ [NewSession])"

text \<open>What the library keeps of a connection, with the ghost of the messages handed over.\<close>

record link =
  l_ref :: nat
  l_mail :: bool
  l_handed :: "(session \<times> message) list"

record 'w pool =
  p_heap :: "session list"
  p_links :: "nat \<Rightarrow> link option"
  p_world :: 'w
  p_logs :: "log_record list"

definition new_pool :: "'w \<Rightarrow> 'w pool" where
  "new_pool w = \<lparr>p_heap = [], p_links = (\<lambda>_. None), p_world = w, p_logs = []\<rparr>"

text \<open>A connection as its callbacks see it, and the pool after one of them.\<close>

definition conn_at :: "'w pool \<Rightarrow> link \<Rightarrow> 'w conn" where
  "conn_at p l =
     \<lparr>c_sess = p_heap p ! l_ref l, c_mail = l_mail l, c_world = p_world p, c_logs = p_logs p,
      c_handed = l_handed l\<rparr>"

definition p_conns :: "'w pool \<Rightarrow> nat \<Rightarrow> 'w conn option" where
  "p_conns p i = map_option (conn_at p) (p_links p i)"

definition put_conn :: "'w pool \<Rightarrow> nat \<Rightarrow> nat \<Rightarrow> 'w conn \<Rightarrow> 'w pool" where
  "put_conn p i r c =
     \<lparr>p_heap = (p_heap p)[r := c_sess c],
      p_links = (p_links p)(i \<mapsto> \<lparr>l_ref = r, l_mail = c_mail c, l_handed = c_handed c\<rparr>),
      p_world = c_world c, p_logs = c_logs c\<rparr>"

section \<open>Steps\<close>

datatype pool_event = Accept nat | Client nat event | Elsewhere

inductive pool_step :: "'w platform \<Rightarrow> 'w effective \<Rightarrow> 'w pool \<Rightarrow> pool_event \<Rightarrow> 'w pool \<Rightarrow> bool"
  for pf :: "'w platform" and opts :: "'w effective"
where
  accept: "p_links p i = None \<Longrightarrow> backend_NewSession (p_heap p) = (r, h) \<Longrightarrow>
    pool_step pf opts p (Accept i)
      (p\<lparr>p_heap := h, p_links := (p_links p)(i \<mapsto> \<lparr>l_ref = r, l_mail = False, l_handed = []\<rparr>)\<rparr>)"
| client: "p_links p i = Some l \<Longrightarrow> ev \<noteq> Ev_StartTLS \<Longrightarrow>
    conn_step pf opts (conn_at p l) ev c' \<Longrightarrow>
    pool_step pf opts p (Client i ev) (put_conn p i (l_ref l) c')"
| tls: "p_links p i = Some l \<Longrightarrow> backend_NewSession (p_heap p) = (r, h) \<Longrightarrow>
    pool_step pf opts p (Client i Ev_StartTLS)
      (p\<lparr>p_heap := h, p_links := (p_links p)(i \<mapsto> \<lparr>l_ref = r, l_mail = False, l_handed = l_handed l\<rparr>)\<rparr>)"
| elsewhere: "pool_step pf opts p Elsewhere (p\<lparr>p_world := w\<rparr>)"

inductive_cases pool_stepE: "pool_step pf opts p ev p'"

inductive pool_run :: "'w platform \<Rightarrow> 'w effective \<Rightarrow> 'w pool \<Rightarrow> pool_event list \<Rightarrow> 'w pool \<Rightarrow> bool"
  for pf :: "'w platform" and opts :: "'w effective" and p0 :: "'w pool"
where
  pool_start: "pool_run pf opts p0 [] p0"
| pool_next: "pool_run pf opts p0 evs p \<Longrightarrow> pool_step pf opts p ev p' \<Longrightarrow>
    pool_run pf opts p0 (evs @ [ev]) p'"

section \<open>One connection of the pool\<close>

text \<open>What the client of connection \<open>i\<close> did.\<close>

fun event_of :: "nat \<Rightarrow> pool_event \<Rightarrow> event list" where
  "event_of i (Client j ev) = (if j = i then [ev] else [])"
| "event_of i _ = []"

definition events_of :: "nat \<Rightarrow> pool_event list \<Rightarrow> event list" where
  "events_of i evs = concat (map (event_of i) evs)"

lemma events_of_simps [simp]:
  "events_of i [] = []" "events_of i (evs @ [ev]) = events_of i evs @ event_of i ev"
  by (simp_all add: events_of_def)

text \<open>The pointers of the connections are allocated, and no two of them are the same.\<close>

definition separate :: "'w pool \<Rightarrow> bool" where
  "separate p \<longleftrightarrow>
     (\<forall>i l. p_links p i = Some l \<longrightarrow> l_ref l < length (p_heap p))
     \<and> (\<forall>i j l k. p_links p i = Some l \<longrightarrow> p_links p j = Some k \<longrightarrow> l_ref l = l_ref k \<longrightarrow> i = j)"

lemma separate_less: "separate p \<Longrightarrow> p_links p i = Some l \<Longrightarrow> l_ref l < length (p_heap p)"
  by (auto simp: separate_def)

lemma separate_inj:
  "separate p \<Longrightarrow> p_links p i = Some l \<Longrightarrow> p_links p j = Some k \<Longrightarrow> l_ref l = l_ref k \<Longrightarrow> i = j"
  unfolding separate_def by blast

lemma separate_alloc:
  assumes "separate p" and "backend_NewSession (p_heap p) = (r, h)"
  shows "separate (p\<lparr>p_heap := h, p_links := (p_links p)(i \<mapsto> \<lparr>l_ref = r, l_mail = b, l_handed = hs\<rparr>)\<rparr>)"
proof -
  have r: "r = length (p_heap p)" "length h = Suc r" using assms(2) by (auto simp: backend_NewSession_def)
  have fresh: "l_ref l \<noteq> r" if "p_links p k = Some l" for k l
    using separate_less [OF assms(1) that] r by simp
  show ?thesis
    using assms(1) fresh fresh [symmetric] r unfolding separate_def
    by (simp add: less_Suc_eq)
qed

lemma separate_refs:
  assumes "separate p" and "length (p_heap q) = length (p_heap p)"
    and "\<And>i l. p_links q i = Some l \<Longrightarrow> \<exists>k. p_links p i = Some k \<and> l_ref k = l_ref l"
  shows "separate q"
proof -
  have "l_ref l < length (p_heap q)" if "p_links q i = Some l" for i l
    using assms(3) [OF that] separate_less [OF assms(1), of i] assms(2) by auto
  moreover have "i = j" if "p_links q i = Some l" "p_links q j = Some k" "l_ref l = l_ref k" for i j l k
    using assms(3) [OF that(1)] assms(3) [OF that(2)] that(3) separate_inj [OF assms(1), of i _ j] by auto
  ultimately show ?thesis unfolding separate_def by blast
qed

lemma separate_step:
  assumes "pool_step pf opts p ev p'" and "separate p"
  shows "separate p'"
  using assms(1)
proof cases
  case (client i l ev c')
  then show ?thesis by (intro separate_refs [OF assms(2)]) (auto simp: put_conn_def split: if_splits)
next
  case (elsewhere w)
  then show ?thesis by (intro separate_refs [OF assms(2)]) simp_all
qed (simp_all add: separate_alloc [OF assms(2)])

lemma separate_run: "pool_run pf opts (new_pool w) evs p \<Longrightarrow> separate p"
proof (induction rule: pool_run.induct)
  case pool_start
  show ?case by (simp add: separate_def new_pool_def)
next
  case (pool_next evs p ev p')
  then show ?case using separate_step by blast
qed

text \<open>A write through one pointer and a new cell leave the other connections as they were.\<close>

lemma put_conns:
  assumes "separate p" and "p_links p j = Some l"
  shows "p_conns (put_conn p j (l_ref l) d) i =
    (if i = j then Some d
     else map_option (\<lambda>c. c\<lparr>c_world := c_world d, c_logs := c_logs d\<rparr>) (p_conns p i))"
  using separate_less [OF assms] separate_inj [OF assms(1) _ assms(2), of i]
  by (cases "p_links p i") (auto simp: p_conns_def conn_at_def put_conn_def nth_list_update)

lemma alloc_conns:
  assumes "separate p" and "backend_NewSession (p_heap p) = (r, h)"
  shows "p_conns (p\<lparr>p_heap := h, p_links := (p_links p)(j \<mapsto> \<lparr>l_ref = r, l_mail = b, l_handed = hs\<rparr>)\<rparr>) i =
    (if i = j then Some ((new_conn (p_world p) (p_logs p))\<lparr>c_mail := b, c_handed := hs\<rparr>) else p_conns p i)"
  using separate_less [OF assms(1), of i] assms(2)
  by (cases "p_links p i") (auto simp: p_conns_def conn_at_def new_conn_def backend_NewSession_def nth_append)

text \<open>
  What a step of the pool is to connection \<open>i\<close>: its beginning, one step of its own, or a
  change of the shared world and log alone.
\<close>

lemma pool_step_conn:
  assumes "pool_step pf opts p ev p'" and "separate p" and "p_conns p' i = Some c'"
  shows "(p_conns p i = None \<and> event_of i ev = [] \<and> (\<exists>w logs. c' = new_conn w logs))
    \<or> (\<exists>c e. p_conns p i = Some c \<and> event_of i ev = [e] \<and> conn_step pf opts c e c')
    \<or> (\<exists>c w logs. p_conns p i = Some c \<and> event_of i ev = [] \<and> c' = c\<lparr>c_world := w, c_logs := logs\<rparr>)"
    (is "?new \<or> ?own \<or> ?other")
  using assms(1)
proof cases
  case (accept j r h)
  note a = alloc_conns [OF assms(2) accept(4), of j False "[]" i]
  show ?thesis
  proof (cases "i = j")
    case True
    with assms(3) accept a have "p_conns p i = None" "c' = new_conn (p_world p) (p_logs p)"
      by (auto simp: p_conns_def [of p] new_conn_def)
    with accept(1) have ?new by auto
    then show ?thesis ..
  next
    case False
    with assms(3) accept(2) a have "p_conns p i = Some (c'\<lparr>c_world := c_world c', c_logs := c_logs c'\<rparr>)" by simp
    with accept(1) have ?other
      by (intro exI [of _ c'] exI [of _ "c_world c'"] exI [of _ "c_logs c'"]) simp
    then show ?thesis by simp
  qed
next
  case (client j l ev' d)
  note u = put_conns [OF assms(2) client(3), of d i]
  show ?thesis
  proof (cases "i = j")
    case True
    with assms(3) client u have ?own by (auto simp: p_conns_def [of p])
    then show ?thesis by simp
  next
    case False
    with assms(3) client u have ?other by auto
    then show ?thesis by simp
  qed
next
  case (tls j l r h)
  note a = alloc_conns [OF assms(2) tls(4), of j False "l_handed l" i]
  show ?thesis
  proof (cases "i = j")
    case True
    have "c' = (conn_at p l)\<lparr>c_sess := NewSession, c_mail := False\<rparr>"
      using True assms(3) tls(2) a by (simp add: conn_at_def new_conn_def)
    with True tls have ?own by (auto simp: p_conns_def [of p] intro: starttls)
    then show ?thesis by simp
  next
    case False
    with assms(3) tls(2) a have "p_conns p i = Some (c'\<lparr>c_world := c_world c', c_logs := c_logs c'\<rparr>)" by simp
    with False tls(1) have ?other
      by (intro exI [of _ c'] exI [of _ "c_world c'"] exI [of _ "c_logs c'"]) simp
    then show ?thesis by simp
  qed
next
  case (elsewhere w)
  with assms(3) have ?other by (auto simp: p_conns_def conn_at_def)
  then show ?thesis by simp
qed

text \<open>
  An invariant of a connection that does not read the world or the log, and that may depend on
  the events of the connection so far, holds of every connection of a pool.
\<close>

lemma pool_unborn: "pool_run pf opts (new_pool w) evs p \<Longrightarrow> p_conns p i = None \<Longrightarrow> events_of i evs = []"
proof (induction rule: pool_run.induct)
  case (pool_next evs p ev p')
  from pool_next.hyps(2) pool_next.prems have "p_conns p i = None \<and> event_of i ev = []"
    by cases (auto simp: p_conns_def put_conn_def split: if_splits)
  with pool_next.IH show ?case by simp
qed simp

lemma pool_run_invariant:
  assumes "pool_run pf opts (new_pool w) evs p" and "p_conns p i = Some c"
    and new: "\<And>w logs. I [] (new_conn w logs)"
    and step: "\<And>es c ev c'. I es c \<Longrightarrow> conn_step pf opts c ev c' \<Longrightarrow> I (es @ [ev]) c'"
    and world: "\<And>es c w logs. I es c \<Longrightarrow> I es (c\<lparr>c_world := w, c_logs := logs\<rparr>)"
  shows "I (events_of i evs) c"
  using assms(1,2)
proof (induction arbitrary: c rule: pool_run.induct)
  case pool_start
  then show ?case by (simp add: new_pool_def p_conns_def)
next
  case (pool_next evs p ev p')
  note IH = pool_next.IH
  from pool_step_conn [OF pool_next.hyps(2) separate_run [OF pool_next.hyps(1)] pool_next.prems]
  show ?case
  proof (elim disjE exE conjE)
    fix d e assume "p_conns p i = Some d" "event_of i ev = [e]" "conn_step pf opts d e c"
    then show ?thesis using IH step by simp
  next
    fix d w logs assume "p_conns p i = Some d" "event_of i ev = []" "c = d\<lparr>c_world := w, c_logs := logs\<rparr>"
    then show ?thesis using IH world by simp
  next
    fix w logs assume "p_conns p i = None" "event_of i ev = []" "c = new_conn w logs"
    then show ?thesis using pool_unborn [OF pool_next.hyps(1)] new by simp
  qed
qed

lemma pool_conn_inv:
  assumes "pool_run pf opts (new_pool w) evs p" and "p_conns p i = Some c" and "0 \<le> ef_MaxRecipients opts"
  shows "conn_inv pf opts (events_of i evs) c"
  using assms(1,2)
proof (rule pool_run_invariant [where I = "conn_inv pf opts"])
  show "conn_inv pf opts [] (new_conn w logs)" for w logs by (rule conn_inv_new [OF assms(3)])
  show "conn_inv pf opts (es @ [ev]) c'" if "conn_inv pf opts es c" "conn_step pf opts c ev c'" for es c ev c'
    using conn_step_inv [OF that(2) assms(3) that(1)] .
qed (auto simp: conn_inv_def conn_ok_def tracks_def)

lemma pool_idle:
  assumes "pool_run pf opts (new_pool w) evs p" and "p_conns p i = Some c"
    and "list_all (\<lambda>ev. \<not> presents opts ev) (events_of i evs)"
  shows "conn_idle c"
proof -
  have "list_all (\<lambda>ev. \<not> presents opts ev) (events_of i evs) \<longrightarrow> conn_idle c"
    using assms(1,2)
  proof (rule pool_run_invariant [where I = "\<lambda>es c. list_all (\<lambda>ev. \<not> presents opts ev) es \<longrightarrow> conn_idle c"])
    show "list_all (\<lambda>ev. \<not> presents opts ev) [] \<longrightarrow> conn_idle (new_conn w logs)" for w logs
      by (simp add: conn_idle_def new_conn_def NewSession_def)
  qed (auto simp: conn_idle_def [of "_\<lparr>c_world := _, c_logs := _\<rparr>"] dest: conn_step_idle
      simp flip: conn_idle_def)
  with assms(3) show ?thesis by simp
qed

section \<open>Properties\<close>

text \<open>
  C6. Connections are isolated from each other, although their sessions live in one heap and are
  reached through pointers: however the steps interleave and whatever else happens in the
  process, the session that the callbacks of connection \<open>i\<close> see is the one that stands for
  the transaction of this client's own commands, and each message handed over on it is the
  message of one of its own DATA commands, with the sender and the recipients that its own
  commands named before. Credentials presented on other connections do not authenticate it:
  without its own it hands over nothing.
\<close>

theorem connections_isolated:
  assumes "pool_run pf opts (new_pool w) evs p" and "p_conns p i = Some c"
    and "0 \<le> ef_MaxRecipients opts"
  shows "c_sess c = session_of (transaction opts (events_of i evs))
    \<and> (c_mail c \<longleftrightarrow> t_env (transaction opts (events_of i evs)) \<noteq> None)
    \<and> list_all (\<lambda>(s, m). handed_for pf opts (events_of i evs) s m) (c_handed c)
    \<and> (list_all (\<lambda>ev. \<not> presents opts ev) (events_of i evs) \<longrightarrow>
         c_handed c = [] \<and> \<not> authenticated (c_sess c))"
  using pool_conn_inv [OF assms] pool_idle [OF assms(1,2)]
  by (simp add: conn_inv_def conn_idle_def tracks_def)

theorem connections_isolated_witness:
  "\<exists>p c0 c1. pool_run example_platform example_opts (new_pool 0)
      [Accept 0, Accept 1, Client 0 (Ev_Plain ''u'' ''p'')] p
    \<and> p_conns p 0 = Some c0 \<and> c_sess c0 = NewSession\<lparr>authenticated := True\<rparr>
    \<and> p_conns p 1 = Some c1 \<and> c_sess c1 = NewSession \<and> c_handed c1 = []"
proof -
  let ?s = "NewSession\<lparr>authenticated := True\<rparr>"
  let ?l = "\<lambda>r. \<lparr>l_ref = r, l_mail = False, l_handed = []\<rparr>"
  let ?q = "\<lambda>hp ls. \<lparr>p_heap = hp, p_links = ls, p_world = (0::int), p_logs = []\<rparr>"
  let ?p1 = "?q [NewSession] [0 \<mapsto> ?l 0]" and ?p2 = "?q [NewSession, NewSession] [0 \<mapsto> ?l 0, 1 \<mapsto> ?l 1]"
  let ?p3 = "put_conn ?p2 0 0 ((conn_at ?p2 (?l 0))\<lparr>c_sess := ?s\<rparr>)"
  have "pool_step example_platform example_opts (new_pool 0) (Accept 0) ?p1"
    using accept [of "new_pool (0::int)" 0 0 "[NewSession]"] by (simp add: new_pool_def backend_NewSession_def)
  note r1 = pool_next [OF pool_start this]
  have "pool_step example_platform example_opts ?p1 (Accept 1) ?p2"
    using accept [of ?p1 1 1 "[NewSession, NewSession]"] by (simp add: backend_NewSession_def)
  note r2 = pool_next [OF r1 this]
  have "conn_step example_platform example_opts (conn_at ?p2 (?l 0)) (Ev_Plain ''u'' ''p'')
      ((conn_at ?p2 (?l 0))\<lparr>c_sess := ?s\<rparr>)"
    by (rule plain [of _ _ _ _ None]) (simp add: authenticate_eq example_opts_def conn_at_def)
  then have "pool_step example_platform example_opts ?p2 (Client 0 (Ev_Plain ''u'' ''p'')) ?p3"
    using client [of ?p2 0 "?l 0" "Ev_Plain ''u'' ''p''"] by simp
  from pool_next [OF r2 this] have run: "pool_run example_platform example_opts (new_pool 0)
      [Accept 0, Accept 1, Client 0 (Ev_Plain ''u'' ''p'')] ?p3" by simp
  obtain c0 c1 where c: "p_conns ?p3 0 = Some c0" "p_conns ?p3 1 = Some c1"
    by (simp add: p_conns_def put_conn_def)
  have max: "0 \<le> ef_MaxRecipients example_opts" by (simp add: example_opts_def)
  from connections_isolated [OF run c(1) max] connections_isolated [OF run c(2) max]
  have "c_sess c0 = ?s" "c_sess c1 = NewSession" "c_handed c1 = []"
    by (simp_all add: events_of_def example_opts_def transaction_def txn_step_def session_of_def
        presents_def NewSession_def)
  with run c show ?thesis by blast
qed

end
