(* ===== verification/End_To_End.thy ===== *)
theory End_To_End
  imports Relay Smtp_Server
begin

text \<open>
  From the commands of the clients to the requests on the wire: the configured transport, the
  callbacks of the sessions and the interleaving of the connections together. The network is
  observed through \<open>obs\<close>, the exchanges that the HTTP clients of the process have had; an
  exchange is a request with what came back.
\<close>

section \<open>The configured transport\<close>

text \<open>The request for a message, by the configuration alone.\<close>

definition relay_request :: "config \<Rightarrow> message \<Rightarrow> http_request" where
  "relay_request cfg msg =
     (if CloudflareTransport cfg = TransportREST then
        \<lparr>rq_method = ''POST'',
         rq_url = CloudflareAPIBaseURL cfg @ ''/accounts/'' @ CloudflareAccountID cfg @ ''/email/sending/send'',
         rq_headers = [(''Authorization'', ''Bearer '' @ CloudflareAPIToken cfg), (''Content-Type'', ''application/json'')],
         rq_body = json_text (payload_json (buildPayload msg))\<rparr>
      else
        \<lparr>rq_method = ''POST'', rq_url = WorkerURL cfg,
         rq_headers = [(''Authorization'', ''Bearer '' @ WorkerSecret cfg), (''Content-Type'', ''application/json'')],
         rq_body = json_text (payload_json (buildPayload msg))\<rparr>)"

text \<open>The provider took the message: its reply could be read and says \<^verbatim>\<open>success\<close>.\<close>

definition provider_accepted :: "unicode \<Rightarrow> config \<Rightarrow> exchange \<Rightarrow> bool" where
  "provider_accepted U cfg x =
     (case snd x of
        Inl _ \<Rightarrow> False
      | Inr resp \<Rightarrow>
          (case readAndDrainBody (rs_body resp) of
             Inl _ \<Rightarrow> False
           | Inr body \<Rightarrow>
               if CloudflareTransport cfg = TransportREST then
                 (case unmarshal (restResponse_field U) zero_restResponse body of
                    Inl _ \<Rightarrow> False | Inr r \<Rightarrow> rr_Success r)
               else
                 (case unmarshal (workerResponse_field U) zero_workerResponse body of
                    Inl _ \<Rightarrow> False | Inr r \<Rightarrow> wr_Success r)))"

text \<open>
  The exchanges \<open>xs\<close> of one message: all with its request, at most one per attempt, and
  none after the one that was accepted.
\<close>

definition delivery_exchanges :: "unicode \<Rightarrow> config \<Rightarrow> message \<Rightarrow> bool \<Rightarrow> exchange list \<Rightarrow> bool" where
  "delivery_exchanges U cfg m ok xs \<longleftrightarrow>
     list_all (\<lambda>x. fst x = relay_request cfg m) xs \<and> int (length xs) \<le> CloudflareMaxRetries cfg + 1
     \<and> (if ok then xs \<noteq> [] \<and> provider_accepted U cfg (last xs)
             \<and> list_all (Not \<circ> provider_accepted U cfg) (butlast xs)
        else list_all (Not \<circ> provider_accepted U cfg) xs)"

lemma rest_accepted:
  "CloudflareTransport cfg = TransportREST \<Longrightarrow> accepted (parseRESTResponse U) = provider_accepted U cfg"
  by (intro ext) (auto simp: accepted_def provider_accepted_def parseRESTResponse_def split: sum.split list.split)

lemma worker_accepted:
  "CloudflareTransport cfg \<noteq> TransportREST \<Longrightarrow> accepted (parseWorkerResponse U) = provider_accepted U cfg"
  by (intro ext) (auto simp: accepted_def provider_accepted_def parseWorkerResponse_def split: sum.split)

lemma rest_transport_exchanges:
  assumes "NewREST rt rcfg = Inr c" and "rcfg = \<lparr>rc_BaseURL = CloudflareAPIBaseURL cfg,
      rc_AccountID = CloudflareAccountID cfg, rc_APIToken = CloudflareAPIToken cfg,
      rc_Timeout = CloudflareTimeout cfg, rc_MaxRetries = CloudflareMaxRetries cfg,
      rc_HTTPClient = None, rc_Now = None, rc_Sleep = None\<rparr>"
    and "CloudflareTransport cfg = TransportREST" and "observes rt obs" and "REST_Send rt c m w = (oc, w')"
  shows "\<exists>xs. obs w' = obs w @ xs \<and> delivery_exchanges (rt_unicode rt) cfg m (snd oc = None) xs
    \<and> (xs = [] \<longrightarrow> fst (rt_ctx_err rt w) \<noteq> None \<or> rt_bad_url rt (rq_url (relay_request cfg m)) \<noteq> None)"
proof -
  note c = NewREST_cases [OF assms(1)]
  have "records_exchanges (rest_net rt c) obs"
    using assms(2) by (intro NewREST_observes [OF assms(4,1)]) simp_all
  note xs = REST_exchanges [OF this assms(5)]
  have "rest_request c m = relay_request cfg m" "rest_endpoint c = rq_url (relay_request cfg m)"
    "1 + max 0 (r_maxRetries c) = CloudflareMaxRetries cfg + 1"
    using c assms(2,3) by (simp_all add: relay_request_def rest_request_def rest_endpoint_def)
  with xs show ?thesis by (simp only: delivery_exchanges_def conclusive_def rest_accepted [OF assms(3)] conj_assoc)
qed

lemma worker_transport_exchanges:
  assumes "NewWorker rt wcfg = Inr c" and "wcfg = \<lparr>wc_URL = WorkerURL cfg, wc_Secret = WorkerSecret cfg,
      wc_Timeout = CloudflareTimeout cfg, wc_MaxRetries = CloudflareMaxRetries cfg,
      wc_HTTPClient = None, wc_Sleep = None\<rparr>"
    and "CloudflareTransport cfg \<noteq> TransportREST" and "observes rt obs" and "Worker_Send rt c m w = (oc, w')"
  shows "\<exists>xs. obs w' = obs w @ xs \<and> delivery_exchanges (rt_unicode rt) cfg m (snd oc = None) xs
    \<and> (xs = [] \<longrightarrow> fst (rt_ctx_err rt w) \<noteq> None \<or> rt_bad_url rt (rq_url (relay_request cfg m)) \<noteq> None)"
proof -
  note c = NewWorker_cases [OF assms(1)]
  have "records_exchanges (worker_net rt c) obs"
    using assms(2) by (intro NewWorker_observes [OF assms(4,1)]) simp_all
  note xs = Worker_exchanges [OF this assms(5)]
  have "worker_request c m = relay_request cfg m" "w_url c = rq_url (relay_request cfg m)"
    "1 + max 0 (w_maxRetries c) = CloudflareMaxRetries cfg + 1"
    using c assms(2,3) by (simp_all add: relay_request_def worker_request_def)
  with xs show ?thesis by (simp only: delivery_exchanges_def conclusive_def worker_accepted [OF assms(3)] conj_assoc)
qed

lemma buildSender_exchanges:
  assumes "buildSender rt cfg = Inr send" and "observes rt obs" and "send m w = (oc, w')"
  shows "\<exists>xs. obs w' = obs w @ xs \<and> delivery_exchanges (rt_unicode rt) cfg m (snd oc = None) xs
    \<and> (xs = [] \<longrightarrow> fst (rt_ctx_err rt w) \<noteq> None \<or> rt_bad_url rt (rq_url (relay_request cfg m)) \<noteq> None)"
proof (cases "CloudflareTransport cfg = TransportREST")
  case True
  with assms(1) obtain c where c: "NewREST rt \<lparr>rc_BaseURL = CloudflareAPIBaseURL cfg,
      rc_AccountID = CloudflareAccountID cfg, rc_APIToken = CloudflareAPIToken cfg,
      rc_Timeout = CloudflareTimeout cfg, rc_MaxRetries = CloudflareMaxRetries cfg,
      rc_HTTPClient = None, rc_Now = None, rc_Sleep = None\<rparr> = Inr c" "send = REST_Send rt c"
    by (auto simp: buildSender_def split: sum.splits)
  from rest_transport_exchanges [OF c(1) refl True assms(2)] assms(3) c(2) show ?thesis by blast
next
  case False
  with assms(1) obtain c where c: "NewWorker rt \<lparr>wc_URL = WorkerURL cfg, wc_Secret = WorkerSecret cfg,
      wc_Timeout = CloudflareTimeout cfg, wc_MaxRetries = CloudflareMaxRetries cfg,
      wc_HTTPClient = None, wc_Sleep = None\<rparr> = Inr c" "send = Worker_Send rt c"
    by (auto simp: buildSender_def split: sum.splits if_splits)
  from worker_transport_exchanges [OF c(1) refl False assms(2)] assms(3) c(2) show ?thesis by blast
qed

section \<open>One DATA command\<close>

text \<open>Ids, clocks and timeouts of the process do not use its HTTP clients.\<close>

definition quiet :: "'w platform \<Rightarrow> 'w defaults \<Rightarrow> ('w \<Rightarrow> exchange list) \<Rightarrow> bool" where
  "quiet pf df obs \<longleftrightarrow>
     (\<forall>w. obs (snd (uuid_NewString df w)) = obs w) \<and> (\<forall>w. obs (snd (time_Now df w)) = obs w)
     \<and> (\<forall>d w. obs (pf_with_timeout pf d w) = obs w)"

lemma quiet_eqs:
  assumes "quiet pf df obs"
  shows "uuid_NewString df w = (i, w') \<Longrightarrow> obs w' = obs w" and "time_Now df w = (t, w') \<Longrightarrow> obs w' = obs w"
    and "obs (pf_with_timeout pf d w) = obs w"
  using assms unfolding quiet_def by (metis snd_conv)+

lemma settle_None: "snd (settle m oc) = None \<longleftrightarrow> snd oc = None"
  by (cases oc) (auto simp: settle_def Let_def split: option.split)

lemma prepare_obs:
  assumes "\<And>w i w'. ef_NewID opts w = (i, w') \<Longrightarrow> obs w' = obs w" and "prepare pf opts body s w = (r, w')"
  shows "obs w' = obs w"
  using assms(2) by (auto simp: prepare_def dest: assms(1) split: sum.splits if_splits prod.splits)

lemma Data_exchanges:
  assumes "buildSender rt cfg = Inr send" and "New_server df (relay_options cfg send lg tls) = Inr sv"
    and "observes rt obs" and "quiet pf df obs"
    and "Data pf (sv_backend sv) body s w logs = (reply, w', logs')"
  shows "case handed_by pf (sv_backend sv) body s w of
      [] \<Rightarrow> obs w' = obs w \<and> reply \<noteq> None
    | m # _ \<Rightarrow> \<exists>xs. obs w' = obs w @ xs \<and> delivery_exchanges (rt_unicode rt) cfg m (reply = None) xs
        \<and> (xs = [] \<longrightarrow> (\<exists>w. fst (rt_ctx_err rt (pf_with_timeout pf sendTimeout w)) \<noteq> None)
             \<or> rt_bad_url rt (rq_url (relay_request cfg m)) \<noteq> None)"
proof -
  let ?o = "sv_backend sv"
  note q = quiet_eqs [OF assms(4)] and now = relay_server_fields(2,10,11) [OF assms(2)]
  obtain start w1 where n1: "time_Now df w = (start, w1)" by fastforce
  obtain r w2 where p: "prepare pf ?o body s w1 = (r, w2)" by fastforce
  have "obs w2 = obs w1" by (rule prepare_obs [OF _ p]) (simp add: now q(1))
  then have o2: "obs w2 = obs w" using q(2) [OF n1] by simp
  show ?thesis
  proof (cases r)
    case (Inl de)
    with assms(5) show ?thesis
      by (auto simp: Data_def handed_by_def now n1 p o2 dest: q(2) split: prod.splits)
  next
    case (Inr m)
    obtain oc w3 where s: "send m (pf_with_timeout pf sendTimeout w2) = (oc, w3)" by fastforce
    obtain d where "settle m oc = (d, reply)" and "obs w' = obs w3"
      using assms(5) by (auto simp: Data_def now n1 p Inr s dest: q(2) split: prod.splits)
    with settle_None [of m oc] have "obs w' = obs w3" "snd oc = None \<longleftrightarrow> reply = None" by simp_all
    moreover obtain xs where "obs w3 = obs w @ xs" "delivery_exchanges (rt_unicode rt) cfg m (snd oc = None) xs"
        "xs = [] \<longrightarrow> fst (rt_ctx_err rt (pf_with_timeout pf sendTimeout w2)) \<noteq> None
           \<or> rt_bad_url rt (rq_url (relay_request cfg m)) \<noteq> None"
      using buildSender_exchanges [OF assms(1,3) s] o2 q(3) by metis
    ultimately have "\<exists>xs. obs w' = obs w @ xs \<and> delivery_exchanges (rt_unicode rt) cfg m (reply = None) xs
        \<and> (xs = [] \<longrightarrow> (\<exists>w. fst (rt_ctx_err rt (pf_with_timeout pf sendTimeout w)) \<noteq> None)
             \<or> rt_bad_url rt (rq_url (relay_request cfg m)) \<noteq> None)"
      by (intro exI [of _ xs]) auto
    then show ?thesis by (simp add: handed_by_def now n1 p Inr)
  qed
qed

section \<open>Connections and the server\<close>

lemma conn_step_exchanges:
  assumes "buildSender rt cfg = Inr send" and "New_server df (relay_options cfg send lg tls) = Inr sv"
    and "observes rt obs" and "quiet pf df obs" and "conn_step pf (sv_backend sv) c ev c'"
  shows "\<exists>hs bs. c_handed c' = c_handed c @ hs \<and> obs (c_world c') = obs (c_world c) @ concat bs
    \<and> list_all2 (\<lambda>sm xs. \<exists>ok. delivery_exchanges (rt_unicode rt) cfg (snd sm) ok xs) hs bs"
  using assms(5)
proof cases
  case (data body reply w' logs')
  show ?thesis
  proof (cases "handed_by pf (sv_backend sv) body (c_sess c) (c_world c)")
    case Nil
    with Data_exchanges [OF assms(1-4) data(4)] data(2) show ?thesis
      by (intro exI [of _ "[]"]) simp
  next
    case (Cons m ms)
    then have "ms = []" by (auto simp: handed_by_def split: prod.splits sum.splits)
    with Data_exchanges [OF assms(1-4) data(4)] data(2) Cons obtain xs
      where "obs (c_world c') = obs (c_world c) @ xs"
        "delivery_exchanges (rt_unicode rt) cfg m (reply = None) xs" by auto
    with Cons \<open>ms = []\<close> data(2) show ?thesis
      by (intro exI [of _ "[(c_sess c, m)]"] exI [of _ "[xs]"]) auto
  qed
qed (auto intro!: exI [of _ "[]"])

lemma conn_run_exchanges:
  assumes "buildSender rt cfg = Inr send" and "New_server df (relay_options cfg send lg tls) = Inr sv"
    and "observes rt obs" and "quiet pf df obs" and "conn_run pf (sv_backend sv) (new_conn w logs) evs c"
  shows "\<exists>bs. obs (c_world c) = obs w @ concat bs
    \<and> list_all2 (\<lambda>sm xs. \<exists>ok. delivery_exchanges (rt_unicode rt) cfg (snd sm) ok xs) (c_handed c) bs"
  using assms(5)
proof (induction rule: conn_run.induct)
  case run_start
  show ?case by (intro exI [of _ "[]"]) (simp add: new_conn_def)
next
  case (run_step evs c ev c')
  from run_step.IH obtain bs where bs: "obs (c_world c) = obs w @ concat bs"
    "list_all2 (\<lambda>sm xs. \<exists>ok. delivery_exchanges (rt_unicode rt) cfg (snd sm) ok xs) (c_handed c) bs" by blast
  from conn_step_exchanges [OF assms(1-4) run_step.hyps(2)] obtain hs cs where
    "c_handed c' = c_handed c @ hs" "obs (c_world c') = obs (c_world c) @ concat cs"
    "list_all2 (\<lambda>sm xs. \<exists>ok. delivery_exchanges (rt_unicode rt) cfg (snd sm) ok xs) hs cs" by blast
  with bs show ?case by (intro exI [of _ "bs @ cs"]) (simp add: list_all2_appendI)
qed

text \<open>Every exchange of the process goes back to a message that a connection handed over.\<close>

definition handed_in :: "'w pool \<Rightarrow> nat \<Rightarrow> session \<times> message \<Rightarrow> bool" where
  "handed_in p i sm \<longleftrightarrow> (\<exists>c. p_conns p i = Some c \<and> sm \<in> set (c_handed c))"

lemma conn_step_handed: "conn_step pf opts c ev c' \<Longrightarrow> set (c_handed c) \<subseteq> set (c_handed c')"
  by (erule conn_stepE) auto

lemma pool_step_handed:
  assumes "pool_step pf opts p ev p'" and "handed_in p i sm"
  shows "handed_in p' i sm"
  using assms(1)
proof cases
  case (client j l ev' c')
  with conn_step_handed [OF client(5)] assms(2) show ?thesis
    by (auto simp: handed_in_def p_conns_def put_conn_def conn_at_def)
qed (use assms(2) in \<open>auto simp: handed_in_def p_conns_def conn_at_def\<close>)

lemma pool_step_exchange:
  assumes "buildSender rt cfg = Inr send" and "New_server df (relay_options cfg send lg tls) = Inr sv"
    and "observes rt obs" and "quiet pf df obs" and "pool_step pf (sv_backend sv) p ev p'"
    and "ev \<noteq> Elsewhere" and "x \<in> set (obs (p_world p'))"
  shows "x \<in> set (obs (p_world p)) \<or> (\<exists>i sm. handed_in p' i sm \<and> fst x = relay_request cfg (snd sm))"
  using assms(5)
proof cases
  case (client j l ev' c')
  obtain hs bs where h: "c_handed c' = l_handed l @ hs" "obs (c_world c') = obs (p_world p) @ concat bs"
      "list_all2 (\<lambda>sm xs. \<exists>ok. delivery_exchanges (rt_unicode rt) cfg (snd sm) ok xs) hs bs"
    using conn_step_exchanges [OF assms(1-4) client(5)] by (auto simp: conn_at_def)
  show ?thesis
  proof (cases "x \<in> set (obs (p_world p))")
    case False
    then obtain b where b: "b \<in> set bs" "x \<in> set b" using assms(7) client(2) h(2) by (auto simp: put_conn_def)
    from b(1) obtain n where n: "n < length bs" "b = bs ! n" by (auto simp: in_set_conv_nth)
    with h(3) obtain ok where "delivery_exchanges (rt_unicode rt) cfg (snd (hs ! n)) ok b"
      by (auto dest: list_all2_nthD2)
    moreover have "hs ! n \<in> set hs" using n(1) list_all2_lengthD [OF h(3)] by simp
    ultimately obtain sm where sm: "sm \<in> set hs" "delivery_exchanges (rt_unicode rt) cfg (snd sm) ok b"
      by blast
    have "handed_in p' j sm" using sm(1) h(1) client(2)
      by (simp add: handed_in_def p_conns_def put_conn_def conn_at_def)
    moreover have "fst x = relay_request cfg (snd sm)"
      using sm(2) b(2) by (simp add: delivery_exchanges_def list_all_iff)
    ultimately show ?thesis by blast
  qed simp
qed (use assms(6,7) in simp_all)

lemma pool_exchange_handed:
  assumes "buildSender rt cfg = Inr send" and "New_server df (relay_options cfg send lg tls) = Inr sv"
    and "observes rt obs" and "quiet pf df obs" and "pool_run pf (sv_backend sv) (new_pool w) evs p"
    and "Elsewhere \<notin> set evs" and "obs w = []" and "x \<in> set (obs (p_world p))"
  shows "\<exists>i sm. handed_in p i sm \<and> fst x = relay_request cfg (snd sm)"
  using assms(5,6,8)
proof (induction arbitrary: x rule: pool_run.induct)
  case pool_start
  then show ?case by (simp add: new_pool_def assms(7))
next
  case (pool_next evs p ev p')
  from pool_next.prems(1) have ev: "ev \<noteq> Elsewhere" and evs: "Elsewhere \<notin> set evs" by auto
  from pool_step_exchange [OF assms(1-4) pool_next.hyps(2) ev pool_next.prems(2)] show ?case
  proof
    assume "x \<in> set (obs (p_world p))"
    with pool_next.IH [OF evs] pool_step_handed [OF pool_next.hyps(2)] show ?case by blast
  qed
qed

text \<open>A connection on its own is a server with one connection.\<close>

lemma pool_of_conn:
  assumes "conn_run pf opts (new_conn w []) evs c" and "Ev_StartTLS \<notin> set evs"
  shows "\<exists>p. pool_run pf opts (new_pool w) (Accept 0 # map (Client 0) evs) p
    \<and> (\<exists>l. p_links p 0 = Some l \<and> l_ref l < length (p_heap p) \<and> conn_at p l = c)"
  using assms
proof (induction rule: conn_run.induct)
  case run_start
  let ?l = "\<lparr>l_ref = 0, l_mail = False, l_handed = []\<rparr>"
  have "pool_run pf opts (new_pool w) ([] @ [Accept 0])
      ((new_pool w)\<lparr>p_heap := [NewSession], p_links := (p_links (new_pool w))(0 \<mapsto> ?l)\<rparr>)"
    by (rule pool_next [OF pool_start accept]) (simp_all add: new_pool_def backend_NewSession_def)
  then show ?case by (force simp: new_pool_def new_conn_def conn_at_def)
next
  case (run_step evs c ev c')
  then obtain p l where p: "pool_run pf opts (new_pool w) (Accept 0 # map (Client 0) evs) p"
    "p_links p 0 = Some l" "l_ref l < length (p_heap p)" "conn_at p l = c" by auto
  have "pool_step pf opts p (Client 0 ev) (put_conn p 0 (l_ref l) c')"
    using run_step.hyps(2) run_step.prems p by (intro client) auto
  from pool_next [OF p(1) this] p(3) show ?case
    by (intro exI [of _ "put_conn p 0 (l_ref l) c'"]) (simp add: put_conn_def conn_at_def)
qed

section \<open>An authorised message is posted\<close>

lemma authorised_posted:
  assumes "buildSender rt cfg = Inr send" and "New_server df (relay_options cfg send lg tls) = Inr sv"
    and "observes rt obs" and "quiet pf df obs"
    and "\<And>w. fst (rt_ctx_err rt (pf_with_timeout pf sendTimeout w)) = None"
    and "\<And>m. rt_bad_url rt (rq_url (relay_request cfg m)) = None"
    and "time_Now df w = (start, w1)"
    and "Parse (pf_unicode pf) (pf_create_reader pf) (pf_now pf w1) raw (s_from s) (s_recipients s) = Inr m"
    and "Data pf (sv_backend sv) (Inr raw) s w logs = (reply, w', logs')"
  shows "\<exists>i xs. obs w' = obs w @ xs \<and> xs \<noteq> []
    \<and> list_all (\<lambda>x. fst x = relay_request cfg (m\<lparr>ID := i\<rparr>)) xs
    \<and> (reply = None \<longleftrightarrow> provider_accepted (rt_unicode rt) cfg (last xs))"
proof -
  note f = relay_server_fields [OF assms(2)]
  obtain i where h: "handed_by pf (sv_backend sv) (Inr raw) s w = [m\<lparr>ID := i\<rparr>]"
    using assms(7,8) f(10) by (simp add: handed_by_def prepare_def case_prod_beta)
  from Data_exchanges [OF assms(1-4,9)] h assms(5,6) obtain xs where
    xs: "obs w' = obs w @ xs" "delivery_exchanges (rt_unicode rt) cfg (m\<lparr>ID := i\<rparr>) (reply = None) xs" "xs \<noteq> []"
    by auto
  with last_in_set [of xs] show ?thesis
    by (intro exI [of _ i] exI [of _ xs]) (cases reply, auto simp: delivery_exchanges_def list_all_iff)
qed

section \<open>A concrete relay\<close>

text \<open>The world is the list of exchanges; the provider accepts everything.\<close>

definition wire_reply :: "gerror + http_response" where
  "wire_reply =
     Inr \<lparr>rs_status = 200, rs_header = (\<lambda>_. []),
          rs_body = \<lparr>body_data = ''{\"success\":true}'', body_fail = None\<rparr>\<rparr>"

definition wire_runtime :: "exchange list runtime" where
  "wire_runtime =
     \<lparr>rt_ctx_err = (\<lambda>w. (None, w)), rt_wait = (\<lambda>d w. (None, w)), rt_now = (\<lambda>w. (0, w)),
      rt_client = (\<lambda>d t rq w. (wire_reply, w @ [(rq, wire_reply)])), rt_rand = (\<lambda>n w. (n - 1, w)),
      rt_parse_time = (\<lambda>_. None), rt_bad_url = (\<lambda>_. None), rt_unicode = ascii_tables\<rparr>"

definition wire_platform :: "exchange list platform" where
  "wire_platform =
     \<lparr>pf_unicode = ascii_tables, pf_create_reader = (\<lambda>_. (example_reader, None)),
      pf_now = (\<lambda>w. 0), pf_with_timeout = (\<lambda>_ w. w)\<rparr>"

lemma wire_world:
  "observes wire_runtime (\<lambda>w. w)" "quiet wire_platform example_defaults (\<lambda>w. w)"
  "fst (rt_ctx_err wire_runtime (pf_with_timeout wire_platform d w)) = None"
  "rt_bad_url wire_runtime url = None" "time_Now example_defaults w = (0, w)"
  by (simp_all add: observes_def quiet_def wire_runtime_def wire_platform_def example_defaults_def)

lemma wire_parses:
  obtains m where "Parse (pf_unicode wire_platform) (pf_create_reader wire_platform)
     (pf_now wire_platform w) ''raw'' ''s@y.org'' [''a@x.org''] = Inr m"
  using example_parses by (auto simp: wire_platform_def example_platform_def)

lemma wire_relay:
  obtains cfg send and sv :: "exchange list smtp_server" where "loadFrom example_lib example_env = Inr cfg"
    and "buildSender wire_runtime cfg = Inr send"
    and "New_server example_defaults (relay_options cfg send \<lparr>lg_level = LevelInfo\<rparr> None) = Inr sv"
    and "Allows (NewSenderPolicy (AllowedFromDomains cfg)) \<lparr>Name = [], Addr = ''s@y.org''\<rparr>"
    and "int (length [''a@x.org'']) \<le> SMTPMaxRecipients cfg"
    and "AllowedFromDomains cfg = [''y.org'']"
proof -
  have "case loadFrom example_lib example_env of Inl _ \<Rightarrow> False
    | Inr cfg \<Rightarrow> CloudflareAPIBaseURL cfg \<noteq> []" by code_simp
  then obtain cfg where cfg: "loadFrom example_lib example_env = Inr cfg"
    and base: "CloudflareAPIBaseURL cfg \<noteq> []" by (auto split: sum.splits)
  have ds: "AllowedFromDomains cfg = [''y.org'']" using example_loads cfg by auto
  obtain send where send: "buildSender wire_runtime cfg = Inr send"
    by (rule buildSender_ok [OF loadFrom_ok_fields(8,6) [OF cfg] base])
  obtain sv where sv: "New_server example_defaults
      (relay_options cfg send \<lparr>lg_level = LevelInfo\<rparr> None) = Inr sv"
    by (rule relay_server_ok [OF cfg])
  have "Allows (NewSenderPolicy (AllowedFromDomains cfg)) \<lparr>Name = [], Addr = ''s@y.org''\<rparr>"
    using example_allows(1) by (simp add: ds example_opts_def)
  moreover have "int (length [''a@x.org'']) \<le> SMTPMaxRecipients cfg"
    using relay_server_fields(7) [OF sv] by simp
  ultimately show thesis using that [OF cfg send sv] ds by blast
qed

text \<open>One message of an authorised client, up to the exchange.\<close>

lemma wire_run:
  obtains cfg send c and sv :: "exchange list smtp_server" where "loadFrom example_lib example_env = Inr cfg"
    and "buildSender wire_runtime cfg = Inr send"
    and "New_server example_defaults (relay_options cfg send \<lparr>lg_level = LevelInfo\<rparr> None) = Inr sv"
    and "conn_run wire_platform (sv_backend sv) (new_conn [] [])
      (login_mail (sv_backend sv) ''s@y.org'' [''a@x.org''] ''raw'') c"
    and "c_world c \<noteq> []"
proof -
  obtain cfg send and sv :: "exchange list smtp_server" where cfg: "loadFrom example_lib example_env = Inr cfg"
    and send: "buildSender wire_runtime cfg = Inr send"
    and sv: "New_server example_defaults (relay_options cfg send \<lparr>lg_level = LevelInfo\<rparr> None) = Inr sv"
    and al: "Allows (NewSenderPolicy (AllowedFromDomains cfg)) \<lparr>Name = [], Addr = ''s@y.org''\<rparr>"
      "int (length [''a@x.org'']) \<le> SMTPMaxRecipients cfg" by (rule wire_relay)
  obtain m where m: "Parse (pf_unicode wire_platform) (pf_create_reader wire_platform)
     (pf_now wire_platform []) ''raw'' ''s@y.org'' [''a@x.org''] = Inr m" by (rule wire_parses)
  note f = relay_server_fields [OF sv]
  have al': "Allows (ef_Policy (sv_backend sv)) \<lparr>Name = [], Addr = ''s@y.org''\<rparr>"
    "int (length [''a@x.org'']) \<le> ef_MaxRecipients (sv_backend sv)" "ef_Now (sv_backend sv) [] = (0, [])"
    using al f(1,6,10) wire_world(5) by simp_all
  let ?s = "\<lparr>authenticated = True, s_from = ''s@y.org'', s_recipients = [''a@x.org'']\<rparr>"
  obtain c where c: "conn_run wire_platform (sv_backend sv) (new_conn [] [])
      (login_mail (sv_backend sv) ''s@y.org'' [''a@x.org''] ''raw'') c"
    and cw: "c_world c = fst (snd (Data wire_platform (sv_backend sv) (Inr ''raw'') ?s [] []))"
    using authorised_run [OF al' m] by blast
  obtain reply w' logs' where d: "Data wire_platform (sv_backend sv) (Inr ''raw'') ?s [] [] = (reply, w', logs')"
    by (metis surj_pair)
  have "w' \<noteq> []"
    using authorised_posted [OF send sv wire_world(1,2) wire_world(3) wire_world(4) wire_world(5) _ d] m by force
  then show thesis using that [OF cfg send sv c] cw d by simp
qed

section \<open>Properties\<close>

text \<open>
  C1. Only authorised mail reaches the wire: in a server with any number of connections whose
  steps interleave in any order, every HTTP request that was ever made is the POST of the
  configured transport, with its URL and token, and its body reads back as a message that some
  connection handed over; this connection presented the credentials, its session was
  authenticated, the From domain is on the configured list unless that is empty, and the
  recipients are those of the session.
\<close>

theorem wire_carries_authorised_mail:
  assumes "loadFrom L g = Inr cfg" and "lower_ok (cl_unicode L)" and "buildSender rt cfg = Inr send"
    and "New_server df (relay_options cfg send lg tls) = Inr sv"
    and "observes rt obs" and "quiet pf df obs"
    and "pool_run pf (sv_backend sv) (new_pool w) evs p" and "Elsewhere \<notin> set evs" and "obs w = []"
    and "x \<in> set (obs (p_world p))"
  shows "\<exists>i s m. handed_in p i (s, m) \<and> fst x = relay_request cfg m
    \<and> map_option message_of (json_parse (rq_body (fst x))) = Some (utf8_message m)
    \<and> \<not> list_all (\<lambda>ev. \<not> presents (sv_backend sv) ev) (events_of i evs) \<and> authenticated s
    \<and> (AllowedFromDomains cfg = [] \<or>
        Address_Domain (From m) \<in> lowerASCII ` set (AllowedFromDomains cfg))
    \<and> keys_of (pf_unicode pf) (To m @ Cc m @ Bcc m) = envelopeSet (pf_unicode pf) (s_recipients s)"
proof -
  obtain i s m where h: "handed_in p i (s, m)" and x: "fst x = relay_request cfg m"
    using pool_exchange_handed [OF assms(3-10)] by auto
  then obtain c where c: "p_conns p i = Some c" "(s, m) \<in> set (c_handed c)" by (auto simp: handed_in_def)
  have "0 \<le> ef_MaxRecipients (sv_backend sv)" using relay_server_fields(6,7) [OF assms(4)] by simp
  from pool_conn_inv [OF assms(7) c(1) this] c(2) have ok: "handed_ok pf (sv_backend sv) (s, m)"
    by (auto simp: conn_inv_def conn_ok_def list_all_iff)
  have "\<not> list_all (\<lambda>ev. \<not> presents (sv_backend sv) ev) (events_of i evs)"
    using pool_idle [OF assms(7) c(1)] c(2) by (auto simp: conn_idle_def)
  moreover have "rq_body (fst x) = json_text (payload_json (buildPayload m))"
    by (simp add: x relay_request_def)
  then have "map_option message_of (json_parse (rq_body (fst x))) = Some (utf8_message m)"
    by (simp only: payload_reads_back)
  ultimately show ?thesis
    using h x ok handed_domain [OF assms(1,2,4) ok] by (auto simp: handed_ok_def envelope_ok_def)
qed

theorem wire_carries_authorised_mail_witness:
  "\<exists>cfg send sv p x i s m. buildSender wire_runtime cfg = Inr send
    \<and> New_server example_defaults (relay_options cfg send \<lparr>lg_level = LevelInfo\<rparr> None) = Inr sv
    \<and> pool_run wire_platform (sv_backend sv) (new_pool [])
        (Accept 0 # map (Client 0) (login_mail (sv_backend sv) ''s@y.org'' [''a@x.org''] ''raw'')) p
    \<and> x \<in> set (p_world p) \<and> fst x = relay_request cfg m \<and> handed_in p i (s, m) \<and> authenticated s"
proof -
  obtain cfg send c and sv :: "exchange list smtp_server" where cfg: "loadFrom example_lib example_env = Inr cfg"
    and send: "buildSender wire_runtime cfg = Inr send"
    and sv: "New_server example_defaults (relay_options cfg send \<lparr>lg_level = LevelInfo\<rparr> None) = Inr sv"
    and c: "conn_run wire_platform (sv_backend sv) (new_conn [] [])
      (login_mail (sv_backend sv) ''s@y.org'' [''a@x.org''] ''raw'') c"
    and ne: "c_world c \<noteq> []" by (rule wire_run)
  have "Ev_StartTLS \<notin> set (login_mail (sv_backend sv) ''s@y.org'' [''a@x.org''] ''raw'')"
    by (simp add: login_mail_def mail_events_def)
  from pool_of_conn [OF c this] obtain p where p: "pool_run wire_platform (sv_backend sv) (new_pool [])
      (Accept 0 # map (Client 0) (login_mail (sv_backend sv) ''s@y.org'' [''a@x.org''] ''raw'')) p"
    and w: "p_world p = c_world c" by (auto simp: conn_at_def)
  have "lower_ok (cl_unicode example_lib)" by (simp add: lower_ok_def example_lib_def ascii_tables_def)
  moreover obtain x where x: "x \<in> set (p_world p)" using ne by (cases "c_world c") (auto simp: w)
  ultimately obtain i s m' where "handed_in p i (s, m')" "fst x = relay_request cfg m'" "authenticated s"
    using wire_carries_authorised_mail [OF cfg _ send sv wire_world(1,2) p, of x] by auto
  with send sv p x show ?thesis by blast
qed

text \<open>
  C2. The reply to DATA is the truth about the provider: the client is told that its message
  was accepted if and only if the last HTTP exchange of this command came back with a reply
  that could be read and reported success; nothing is posted after such an exchange, so an
  accepted message is never posted again, at most \<^verbatim>\<open>MaxRetries + 1\<close> exchanges are made, all with the
  request for this message, and a command that hands nothing over makes none and fails.
\<close>

theorem reply_tells_acceptance:
  assumes "buildSender rt cfg = Inr send" and "New_server df (relay_options cfg send lg tls) = Inr sv"
    and "observes rt obs" and "quiet pf df obs"
    and "Data pf (sv_backend sv) body s w logs = (reply, w', logs')"
  shows "\<exists>xs. obs w' = obs w @ xs \<and> int (length xs) \<le> CloudflareMaxRetries cfg + 1
    \<and> (reply = None \<longleftrightarrow> (\<exists>x \<in> set xs. provider_accepted (rt_unicode rt) cfg x))
    \<and> list_all (Not \<circ> provider_accepted (rt_unicode rt) cfg) (butlast xs)
    \<and> (case handed_by pf (sv_backend sv) body s w of
         [] \<Rightarrow> xs = [] | m # _ \<Rightarrow> list_all (\<lambda>x. fst x = relay_request cfg m) xs)"
proof (cases "handed_by pf (sv_backend sv) body s w")
  case Nil
  have "0 \<le> CloudflareMaxRetries cfg"
    using assms(1) by (auto simp: buildSender_def dest!: NewREST_cases NewWorker_cases split: if_splits sum.splits)
  with Data_exchanges [OF assms] Nil show ?thesis by (intro exI [of _ "[]"]) simp
next
  case (Cons m ms)
  with Data_exchanges [OF assms] obtain xs where o: "obs w' = obs w @ xs"
    and d: "delivery_exchanges (rt_unicode rt) cfg m (reply = None) xs" by auto
  let ?P = "provider_accepted (rt_unicode rt) cfg"
  have "reply = None \<longleftrightarrow> (\<exists>x \<in> set xs. ?P x)"
    using d last_in_set [of xs] by (cases "reply = None") (auto simp: delivery_exchanges_def list_all_iff)
  moreover have "list_all (Not \<circ> ?P) (butlast xs)"
    using d by (cases "reply = None") (auto simp: delivery_exchanges_def list_all_iff dest: in_set_butlastD)
  ultimately show ?thesis using o d Cons by (intro exI [of _ xs]) (simp add: delivery_exchanges_def)
qed

theorem reply_tells_acceptance_witness:
  "\<exists>cfg send sv reply w' logs'. buildSender wire_runtime cfg = Inr send
    \<and> New_server example_defaults (relay_options cfg send \<lparr>lg_level = LevelInfo\<rparr> None) = Inr sv
    \<and> Data wire_platform (sv_backend sv) (Inl (ErrNew ''reset'')) NewSession [] [] = (reply, w', logs')
    \<and> w' = [] \<and> reply \<noteq> None"
proof -
  obtain cfg send and sv :: "exchange list smtp_server" where cfg: "loadFrom example_lib example_env = Inr cfg"
    and send: "buildSender wire_runtime cfg = Inr send"
    and sv: "New_server example_defaults (relay_options cfg send \<lparr>lg_level = LevelInfo\<rparr> None) = Inr sv"
    by (rule wire_relay)
  obtain reply w' logs' where d: "Data wire_platform (sv_backend sv) (Inl (ErrNew ''reset'')) NewSession [] [] =
      (reply, w', logs')" by (metis surj_pair)
  have "handed_by wire_platform (sv_backend sv) (Inl (ErrNew ''reset'')) NewSession [] = []"
    by (simp add: handed_by_def prepare_def split: if_split)
  with reply_tells_acceptance [OF send sv wire_world(1,2) d] have "w' = [] \<and> reply \<noteq> None" by simp
  with send sv d show ?thesis by blast
qed

text \<open>
  C11. A connection's traffic is its messages, one after the other: the exchanges that a
  connection causes are, in the order in which its messages were handed over, a block for each
  message with at most \<^verbatim>\<open>MaxRetries + 1\<close> exchanges of its request, of which only the last
  can be an acceptance. No message is posted for another's sake, and none after it was accepted.
\<close>

theorem traffic_is_one_block_per_message:
  assumes "buildSender rt cfg = Inr send" and "New_server df (relay_options cfg send lg tls) = Inr sv"
    and "observes rt obs" and "quiet pf df obs" and "conn_run pf (sv_backend sv) (new_conn w logs) evs c"
  shows "\<exists>blocks. obs (c_world c) = obs w @ concat blocks
    \<and> list_all2 (\<lambda>(s, m) xs. int (length xs) \<le> CloudflareMaxRetries cfg + 1
         \<and> list_all (\<lambda>x. fst x = relay_request cfg m) xs
         \<and> list_all (Not \<circ> provider_accepted (rt_unicode rt) cfg) (butlast xs))
       (c_handed c) blocks"
proof -
  obtain bs where "obs (c_world c) = obs w @ concat bs" and
    bs: "list_all2 (\<lambda>sm xs. \<exists>ok. delivery_exchanges (rt_unicode rt) cfg (snd sm) ok xs) (c_handed c) bs"
    using conn_run_exchanges [OF assms] by blast
  moreover have "list_all2 (\<lambda>(s, m) xs. int (length xs) \<le> CloudflareMaxRetries cfg + 1
         \<and> list_all (\<lambda>x. fst x = relay_request cfg m) xs
         \<and> list_all (Not \<circ> provider_accepted (rt_unicode rt) cfg) (butlast xs)) (c_handed c) bs"
    using bs by (rule list_all2_mono)
      (auto simp: delivery_exchanges_def list_all_iff dest: in_set_butlastD split: if_splits)
  ultimately show ?thesis by blast
qed

theorem traffic_is_one_block_per_message_witness:
  "\<exists>cfg send sv c blocks. buildSender wire_runtime cfg = Inr send
    \<and> New_server example_defaults (relay_options cfg send \<lparr>lg_level = LevelInfo\<rparr> None) = Inr sv
    \<and> conn_run wire_platform (sv_backend sv) (new_conn [] [])
        (login_mail (sv_backend sv) ''s@y.org'' [''a@x.org''] ''raw'') c
    \<and> c_world c = concat blocks \<and> c_world c \<noteq> [] \<and> length blocks = length (c_handed c)"
proof -
  obtain cfg send c and sv :: "exchange list smtp_server" where cfg: "loadFrom example_lib example_env = Inr cfg"
    and send: "buildSender wire_runtime cfg = Inr send"
    and sv: "New_server example_defaults (relay_options cfg send \<lparr>lg_level = LevelInfo\<rparr> None) = Inr sv"
    and c: "conn_run wire_platform (sv_backend sv) (new_conn [] [])
      (login_mail (sv_backend sv) ''s@y.org'' [''a@x.org''] ''raw'') c"
    and ne: "c_world c \<noteq> []" by (rule wire_run)
  from traffic_is_one_block_per_message [OF send sv wire_world(1,2) c] obtain blocks where
    "c_world c = concat blocks" "length blocks = length (c_handed c)" by (auto dest: list_all2_lengthD)
  with send sv c ne show ?thesis by blast
qed

text \<open>
  C29. An authorised client is served. The callbacks, in the order of a transaction: the configured
  credentials authenticate a new session, MAIL with an admitted sender and every RCPT succeed, and
  DATA with a message that parses posts this message, under a fresh ID, at least once to the
  provider; the client is told of success exactly when the provider accepted the last of these
  requests. This presumes that the endpoint is a URL a request can be built for, that a
  fresh context is not done at once, and that the body was read to its end. Which commands reach
  the callbacks is left to the library: it refuses a body over \<^verbatim>\<open>MaxMessageBytes\<close>,
  a recipient over \<^verbatim>\<open>MaxRecipients\<close>, DATA without RCPT and, unless
  \<^verbatim>\<open>AllowInsecureAuth\<close> is set, AUTH in plain text.
\<close>

theorem authorised_mail_is_posted:
  assumes "buildSender rt cfg = Inr send" and "New_server df (relay_options cfg send lg tls) = Inr sv"
    and "observes rt obs" and "quiet pf df obs"
    and "\<And>w. fst (rt_ctx_err rt (pf_with_timeout pf sendTimeout w)) = None"
    and "\<And>m. rt_bad_url rt (rq_url (relay_request cfg m)) = None"
    and "Allows (NewSenderPolicy (AllowedFromDomains cfg)) \<lparr>Name = [], Addr = from\<rparr>"
    and "time_Now df w = (start, w1)"
    and "Parse (pf_unicode pf) (pf_create_reader pf) (pf_now pf w1) raw from rs = Inr m"
  shows "\<exists>s1 s2 s3 reply w' logs' i xs.
      authenticate (sv_backend sv) (SMTPUser cfg) (SMTPPassword cfg) NewSession = (None, s1)
    \<and> Mail (pf_unicode pf) (sv_backend sv) from s1 = (None, s2)
    \<and> (\<forall>to s. fst (Rcpt to s) = None) \<and> fold (\<lambda>to s. snd (Rcpt to s)) rs s2 = s3
    \<and> Data pf (sv_backend sv) (Inr raw) s3 w logs = (reply, w', logs')
    \<and> obs w' = obs w @ xs \<and> xs \<noteq> []
    \<and> list_all (\<lambda>x. fst x = relay_request cfg (m\<lparr>ID := i\<rparr>)) xs
    \<and> (reply = None \<longleftrightarrow> provider_accepted (rt_unicode rt) cfg (last xs))"
proof -
  note f = relay_server_fields [OF assms(2)]
  let ?s1 = "NewSession\<lparr>authenticated := True\<rparr>" and ?s2 = "\<lparr>authenticated = True, s_from = from, s_recipients = []\<rparr>"
  let ?s3 = "\<lparr>authenticated = True, s_from = from, s_recipients = rs\<rparr>"
  have auth: "authenticate (sv_backend sv) (SMTPUser cfg) (SMTPPassword cfg) NewSession = (None, ?s1)"
    using f(4,5) by (simp add: authenticate_eq)
  have mail: "Mail (pf_unicode pf) (sv_backend sv) from ?s1 = (None, ?s2)"
    using Check_None [THEN iffD2, OF assms(7)] f(1) by (simp add: Mail_def Let_def NewSession_def)
  have rcpts: "\<forall>to s. fst (Rcpt to s) = None" "fold (\<lambda>to s. snd (Rcpt to s)) rs ?s2 = ?s3"
    by (simp_all only: fold_Rcpt) (simp_all add: Rcpt_def)
  obtain reply w' logs' where d: "Data pf (sv_backend sv) (Inr raw) ?s3 w logs = (reply, w', logs')"
    by (metis surj_pair)
  from authorised_posted [OF assms(1-6,8) _ d] assms(9) obtain i xs where "obs w' = obs w @ xs" "xs \<noteq> []"
    "list_all (\<lambda>x. fst x = relay_request cfg (m\<lparr>ID := i\<rparr>)) xs"
    "reply = None \<longleftrightarrow> provider_accepted (rt_unicode rt) cfg (last xs)" by auto
  with auth mail rcpts d show ?thesis by blast
qed

theorem authorised_mail_is_posted_witness:
  "\<exists>cfg send sv s3 reply w' logs'. buildSender wire_runtime cfg = Inr send
    \<and> New_server example_defaults (relay_options cfg send \<lparr>lg_level = LevelInfo\<rparr> None) = Inr sv
    \<and> Data wire_platform (sv_backend sv) (Inr ''raw'') s3 [] [] = (reply, w', logs') \<and> w' \<noteq> []
    \<and> (reply = None \<longleftrightarrow> provider_accepted ascii_tables cfg (last w'))"
proof -
  obtain cfg send and sv :: "exchange list smtp_server" where cfg: "loadFrom example_lib example_env = Inr cfg"
    and send: "buildSender wire_runtime cfg = Inr send"
    and sv: "New_server example_defaults (relay_options cfg send \<lparr>lg_level = LevelInfo\<rparr> None) = Inr sv"
    and al: "Allows (NewSenderPolicy (AllowedFromDomains cfg)) \<lparr>Name = [], Addr = ''s@y.org''\<rparr>"
      "int (length [''a@x.org'']) \<le> SMTPMaxRecipients cfg" by (rule wire_relay)
  obtain m where m: "Parse (pf_unicode wire_platform) (pf_create_reader wire_platform)
     (pf_now wire_platform []) ''raw'' ''s@y.org'' [''a@x.org''] = Inr m" by (rule wire_parses)
  have "rt_unicode wire_runtime = ascii_tables" by (simp add: wire_runtime_def)
  with authorised_mail_is_posted [OF send sv wire_world(1,2) wire_world(3) wire_world(4) al(1) wire_world(5) m,
      where logs = "[]"] send sv show ?thesis by force
qed

end
