(* ===== verification/Listening.thy ===== *)
theory Listening
  imports Smtp_Options Health
begin

text \<open>
  The four methods that \<^verbatim>\<open>smtpserver.Server\<close> and \<^verbatim>\<open>health.Server\<close> put around the
  server of a library: \<^verbatim>\<open>Serve\<close>, \<^verbatim>\<open>ListenAndServe\<close>, \<^verbatim>\<open>Shutdown\<close> and
  \<^verbatim>\<open>Addr\<close>. Each ends in a call of the library's server, whose result it returns; the
  only state of their own is the address under the mutex, which other goroutines read while
  \<^verbatim>\<open>Serve\<close> blocks. A method is its locked section: the new address and the call it ends in.
\<close>

datatype inner_call = Inner_Serve string | Inner_ListenAndServe | Inner_Shutdown

record smtp_wrapper =
  sw_addr :: string

record health_wrapper =
  hw_addr :: string

text \<open>\<^verbatim>\<open>internal/smtpserver/server.go\<close>; a listener is its \<^verbatim>\<open>Addr().String()\<close>.\<close>

definition smtp_Serve :: "string \<Rightarrow> smtp_wrapper \<Rightarrow> inner_call \<times> smtp_wrapper" where
  "smtp_Serve l s = (Inner_Serve l, s\<lparr>sw_addr := l\<rparr>)"

definition smtp_ListenAndServe :: "smtp_wrapper \<Rightarrow> inner_call \<times> smtp_wrapper" where
  "smtp_ListenAndServe s = (Inner_ListenAndServe, s)"

definition smtp_Shutdown :: "smtp_wrapper \<Rightarrow> inner_call \<times> smtp_wrapper" where
  "smtp_Shutdown s = (Inner_Shutdown, s)"

definition smtp_Addr :: "smtp_wrapper \<Rightarrow> string" where
  "smtp_Addr s = sw_addr s"

text \<open>\<^verbatim>\<open>internal/health/health.go\<close>\<close>

definition health_Serve :: "string \<Rightarrow> health_wrapper \<Rightarrow> inner_call \<times> health_wrapper" where
  "health_Serve l s = (Inner_Serve l, s\<lparr>hw_addr := l\<rparr>)"

definition health_ListenAndServe :: "health_wrapper \<Rightarrow> inner_call \<times> health_wrapper" where
  "health_ListenAndServe s = (Inner_ListenAndServe, s)"

definition health_Shutdown :: "health_wrapper \<Rightarrow> inner_call \<times> health_wrapper" where
  "health_Shutdown s = (Inner_Shutdown, s)"

definition health_Addr :: "health_wrapper \<Rightarrow> string" where
  "health_Addr s = hw_addr s"

section \<open>The contract of the two wrappers\<close>

text \<open>
  The locked sections of all goroutines take effect one after the other, so a history is a
  list of calls in the order of the mutex.
\<close>

datatype server_op = Op_Serve string | Op_ListenAndServe | Op_Shutdown

fun last_served :: "server_op list \<Rightarrow> string \<Rightarrow> string" where
  "last_served [] a = a"
| "last_served (Op_Serve l # ops) a = last_served ops l"
| "last_served (_ # ops) a = last_served ops a"

fun history ::
  "(string \<Rightarrow> 's \<Rightarrow> inner_call \<times> 's) \<Rightarrow> ('s \<Rightarrow> inner_call \<times> 's) \<Rightarrow> ('s \<Rightarrow> inner_call \<times> 's) \<Rightarrow>
     server_op list \<Rightarrow> 's \<Rightarrow> 's"
where
  "history sv la sd [] s = s"
| "history sv la sd (Op_Serve l # ops) s = history sv la sd ops (snd (sv l s))"
| "history sv la sd (Op_ListenAndServe # ops) s = history sv la sd ops (snd (la s))"
| "history sv la sd (Op_Shutdown # ops) s = history sv la sd ops (snd (sd s))"

locale wrapper =
  fixes serve :: "string \<Rightarrow> 's \<Rightarrow> inner_call \<times> 's"
    and listen_and_serve shutdown :: "'s \<Rightarrow> inner_call \<times> 's"
    and addr :: "'s \<Rightarrow> string"
  assumes serve_records: "addr (snd (serve l s)) = l"
    and listen_keeps: "addr (snd (listen_and_serve s)) = addr s"
    and shutdown_keeps: "addr (snd (shutdown s)) = addr s"
    and delegates: "fst (serve l s) = Inner_Serve l" "fst (listen_and_serve s) = Inner_ListenAndServe"
      "fst (shutdown s) = Inner_Shutdown"
begin

lemma addr_history: "addr (history serve listen_and_serve shutdown ops s) = last_served ops (addr s)"
proof (induction ops arbitrary: s)
  case Nil
  show ?case by simp
next
  case (Cons op ops)
  then show ?case by (cases op) (simp_all add: serve_records listen_keeps shutdown_keeps)
qed

lemma addr_without_Serve:
  assumes "\<forall>l. Op_Serve l \<notin> set ops"
  shows "addr (history serve listen_and_serve shutdown ops s) = addr s"
proof -
  have "last_served ops a = a" for a
    using assms by (induction ops a rule: last_served.induct) auto
  then show ?thesis by (simp add: addr_history)
qed

end

interpretation smtp: wrapper smtp_Serve smtp_ListenAndServe smtp_Shutdown smtp_Addr
  by unfold_locales (simp_all add: smtp_Serve_def smtp_ListenAndServe_def smtp_Shutdown_def smtp_Addr_def)

interpretation health: wrapper health_Serve health_ListenAndServe health_Shutdown health_Addr
  by unfold_locales
    (simp_all add: health_Serve_def health_ListenAndServe_def health_Shutdown_def health_Addr_def)

text \<open>
  C38. \<^verbatim>\<open>Addr\<close> of either server gives the address of the listener that
  \<^verbatim>\<open>Serve\<close> was last given, in every order of calls from other goroutines and also after a
  shutdown; a server that is only started with \<^verbatim>\<open>ListenAndServe\<close> never reports an
  address, although its comment promises one.
\<close>

theorem addr_reports_listener:
  "smtp_Addr (history smtp_Serve smtp_ListenAndServe smtp_Shutdown ops \<lparr>sw_addr = []\<rparr>) = last_served ops []
   \<and> health_Addr (history health_Serve health_ListenAndServe health_Shutdown ops \<lparr>hw_addr = []\<rparr>) = last_served ops []
   \<and> smtp_Addr (history smtp_Serve smtp_ListenAndServe smtp_Shutdown [Op_ListenAndServe] \<lparr>sw_addr = []\<rparr>) = []
   \<and> health_Addr (history health_Serve health_ListenAndServe health_Shutdown [Op_ListenAndServe] \<lparr>hw_addr = []\<rparr>) = []"
  unfolding smtp.addr_history health.addr_history by (simp add: smtp_Addr_def health_Addr_def)

end
