(* ===== verification/Log_Json.thy ===== *)
theory Log_Json
  imports Logging Json_Roundtrip
begin

text \<open>
  The line that \<^verbatim>\<open>slog.NewJSONHandler\<close>, which \<^verbatim>\<open>logging.New\<close> installs, writes for
  a record. A handler has its own way of escaping strings; a slice of strings goes through
  \<^verbatim>\<open>encoding/json\<close> without HTML escaping, which writes a nil slice as null. The text
  of the time is an argument.
\<close>

section \<open>Escaping\<close>

definition slog_seg :: "rune \<times> string \<Rightarrow> string" where
  "slog_seg p =
     (let r = fst p; b = snd p in
      if r < 0x80 then
        (if r = 0x22 \<or> r = 0x5C then CHR 0x5C # b
         else if r = 10 then [CHR 0x5C, CHR ''n'']
         else if r = 13 then [CHR 0x5C, CHR ''r'']
         else if r = 9 then [CHR 0x5C, CHR ''t'']
         else if r < 0x20 then [CHR 0x5C, CHR ''u''] @ hex 4 r
         else b)
      else if length b = 1 then [CHR 0x5C, CHR ''u''] @ ''fffd''
      else if r = 0x2028 \<or> r = 0x2029 then [CHR 0x5C, CHR ''u''] @ hex 4 r
      else b)"

definition marshal_seg :: "rune \<times> string \<Rightarrow> string" where
  "marshal_seg p = (if fst p = 0x3C \<or> fst p = 0x3E \<or> fst p = 0x26 then snd p else escape_seg p)"

text \<open>Both stand for the same bytes as the escapes of \<^verbatim>\<open>json.Marshal\<close>.\<close>

lemma ascii_seg:
  assumes "p \<in> set (segs s)" and "fst p < 0x80"
  obtains c where "p = (byte c, [c])" "byte c < 0x80"
  using assms by (cases rule: seg_cases) (auto simp: runeError_def)

lemma seg_value_ascii [simp]: "byte c < 0x80 \<Longrightarrow> seg_value (byte c, [c]) = [c]"
  by (simp add: seg_value_def)

lemma string_body_same:
  assumes "byte c < 0x80" "0x20 \<le> byte c" "c \<noteq> CHR 0x22" "c \<noteq> CHR 0x5C"
  shows "string_body ([c] @ u) = map_option (apfst ((@) (seg_value (byte c, [c])))) (string_body u)"
  using assms by (simp only: seg_value_ascii) (simp add: string_body_plain)

lemma marshal_seg_value:
  assumes "p \<in> set (segs s)"
  shows "string_body (marshal_seg p @ u) = map_option (apfst ((@) (seg_value p))) (string_body u)"
proof (cases "fst p = 0x3C \<or> fst p = 0x3E \<or> fst p = 0x26")
  case True
  then have "fst p < 0x80" by auto
  with assms obtain c where c: "p = (byte c, [c])" "byte c < 0x80" by (rule ascii_seg)
  have "c \<noteq> CHR 0x22" "c \<noteq> CHR 0x5C" "0x20 \<le> byte c"
    using True unfolding c(1) by auto
  note same = string_body_same [OF c(2) this(3,1,2)]
  have "marshal_seg p = [c]" using True unfolding c(1) marshal_seg_def by simp
  then show ?thesis unfolding c(1) by (simp only: same)
next
  case False
  with string_body_escape [OF assms] show ?thesis by (simp add: marshal_seg_def)
qed

lemma slog_seg_value:
  assumes "p \<in> set (segs s)"
  shows "string_body (slog_seg p @ u) = map_option (apfst ((@) (seg_value p))) (string_body u)"
proof (cases "fst p \<in> {8, 12, 0x3C, 0x3E, 0x26}")
  case True
  then have "fst p < 0x80" by auto
  with assms obtain c where c: "p = (byte c, [c])" "byte c < 0x80" by (rule ascii_seg)
  have k: "byte c \<in> {8, 12, 0x3C, 0x3E, 0x26}" using True unfolding c(1) by simp
  show ?thesis
  proof (cases "byte c < 0x20")
    case low: True
    have "slog_seg p = CHR 0x5C # CHR ''u'' # hex 4 (byte c)"
      using k low unfolding c(1) slog_seg_def Let_def fst_conv snd_conv by auto
    moreover have "encode_rune (byte c) = [c]" using c(2) by (simp add: encode_rune_def)
    ultimately show ?thesis using string_body_u [of "byte c" u] c(2) unfolding c(1) by simp
  next
    case False
    have "c \<noteq> CHR 0x22" "c \<noteq> CHR 0x5C" "0x20 \<le> byte c" using k False by auto
    note same = string_body_same [OF c(2) this(3,1,2)]
    have "slog_seg p = [c]"
      using k False unfolding c(1) slog_seg_def Let_def fst_conv snd_conv by auto
    then show ?thesis unfolding c(1) by (simp only: same)
  qed
next
  case False
  then have "slog_seg p = escape_seg p" by (auto simp: slog_seg_def escape_seg_def Let_def)
  with string_body_escape [OF assms] show ?thesis by simp
qed

interpretation slog: string_escape slog_seg
  by unfold_locales (rule slog_seg_value)

interpretation marshal: string_escape marshal_seg
  by unfold_locales (rule marshal_seg_value)

section \<open>The line of a record\<close>

fun attr_text :: "attr \<Rightarrow> string" where
  "attr_text (AString s) = quoted slog_seg s"
| "attr_text (AStrings None) = ''null''"
| "attr_text (AStrings (Some ss)) = CHR ''['' # commas (map (quoted marshal_seg) ss) @ '']''"
| "attr_text (AInt n) = itoa n"
| "attr_text (ADuration d) = itoa d"
| "attr_text (ABool b) = (if b then ''true'' else ''false'')"

fun level_text :: "log_level \<Rightarrow> string" where
  "level_text LevelDebug = ''DEBUG''"
| "level_text LevelInfo = ''INFO''"
| "level_text LevelWarn = ''WARN''"
| "level_text LevelError = ''ERROR''"

definition record_attrs :: "string \<Rightarrow> log_record \<Rightarrow> (string \<times> attr) list" where
  "record_attrs time r =
     [(''time'', AString time), (''level'', AString (level_text (rec_level r))),
      (''msg'', AString (rec_msg r))] @ rec_attrs r"

definition log_line :: "string \<Rightarrow> log_record \<Rightarrow> string" where
  "log_line time r =
     CHR ''{'' # commas (map (\<lambda>ka. member_text (quoted slog_seg (fst ka), attr_text (snd ka))) (record_attrs time r))
     @ [CHR ''}'', CHR 0x0A]"

section \<open>Lines are read back\<close>

fun attr_json :: "attr \<Rightarrow> json" where
  "attr_json (AString s) = JStr (utf8 s)"
| "attr_json (AStrings None) = JNull"
| "attr_json (AStrings (Some ss)) = JArr (map (\<lambda>s. JStr (utf8 s)) ss)"
| "attr_json (AInt n) = JNum (itoa n)"
| "attr_json (ADuration d) = JNum (itoa d)"
| "attr_json (ABool b) = JBool b"

lemma attr_reads: "reads_as_json (attr_text a) (attr_json a)"
proof (cases a rule: attr_text.cases)
  case (3 ss)
  have "list_all2 reads_as_json (map (quoted marshal_seg) ss) (map (\<lambda>s. JStr (utf8 s)) ss)"
    using reads_JStr [OF marshal.reads_quoted] by (simp add: list_all2_map1 list_all2_map2 list_all2_same)
  from reads_JArr [OF this] 3 show ?thesis by simp
qed (simp_all add: reads_JStr slog.reads_quoted reads_JNum reads_literal [simplified] del: nums_ok.simps(1))

lemma attr_depth: "depth (attr_json a) \<le> 1"
proof -
  have "foldr (\<lambda>j. max (depth j)) (map (\<lambda>s. JStr (utf8 s)) ss) (0::int) = 0" for ss
    by (induction ss) simp_all
  then show ?thesis by (cases a rule: attr_text.cases) simp_all
qed

definition record_json :: "string \<Rightarrow> log_record \<Rightarrow> json" where
  "record_json time r = JObj (map (\<lambda>ka. (utf8 (fst ka), attr_json (snd ka))) (record_attrs time r))"

lemma log_line_reads:
  "\<exists>t. log_line time r = t @ [CHR 0x0A] \<and> json_parse t = Some (record_json time r)"
proof -
  let ?as = "record_attrs time r"
  let ?qts = "map (\<lambda>ka. (quoted slog_seg (fst ka), attr_text (snd ka))) ?as"
  let ?t = "CHR ''{'' # commas (map member_text ?qts) @ ''}''"
  have "list_all2 reads_member ?qts (map (\<lambda>ka. (utf8 (fst ka), attr_json (snd ka))) ?as)"
    using slog.reads_quoted attr_reads
    by (simp add: list_all2_map1 list_all2_map2 list_all2_same reads_member_def)
  note reads = reads_JObj [OF this]
  have "foldr (\<lambda>m. max (depth (snd m))) (map (\<lambda>ka. (utf8 (fst ka), attr_json (snd ka))) as) (0::int) \<le> 1" for as
    using attr_depth by (induction as) simp_all
  then have "depth (record_json time r) \<le> 2" by (simp add: record_json_def del: foldr_map)
  then have "json_parse ?t = Some (record_json time r)"
    using json_parse_reads [OF reads] by (simp add: record_json_def max_nesting_def)
  moreover have "log_line time r = ?t @ [CHR 0x0A]" by (simp add: log_line_def comp_def)
  ultimately show ?thesis by blast
qed

section \<open>A record is one line\<close>

text \<open>No control byte is left, so the line ends where the record ends.\<close>

definition one_line :: "string \<Rightarrow> bool" where
  "one_line t \<longleftrightarrow> list_all (\<lambda>c. 0x20 \<le> byte c) t"

lemma one_line_simps [simp]:
  "one_line []" "one_line (c # t) \<longleftrightarrow> 0x20 \<le> byte c \<and> one_line t"
  "one_line (s @ t) \<longleftrightarrow> one_line s \<and> one_line t"
  by (simp_all add: one_line_def)

lemma one_line_concat: "one_line (concat ss) \<longleftrightarrow> list_all one_line ss"
  by (induction ss) simp_all

lemma one_line_commas: "list_all one_line ss \<Longrightarrow> one_line (commas ss)"
  by (induction ss rule: commas.induct) simp_all

lemma one_line_hex: "one_line (hex w n)"
  using clean_hex [of w n] by (auto simp: clean_text_def one_line_def list_all_iff)

lemma one_line_itoa: "one_line (itoa n)"
proof -
  have "0x20 \<le> byte c" if "is_num_char c" for c using that by (auto simp: is_num_char_def)
  with nums_ok_itoa [of n] show ?thesis by (auto simp: one_line_def list_all_iff simp del: nums_ok_itoa)
qed

lemma one_line_segs:
  assumes "p \<in> set (segs s)"
  shows "one_line (slog_seg p)" and "one_line (marshal_seg p)"
proof -
  have "one_line (slog_seg p) \<and> one_line (marshal_seg p)"
    using assms
  proof (cases rule: seg_cases)
    case (ascii c)
    show ?thesis
      unfolding ascii(1) slog_seg_def marshal_seg_def escape_seg_def Let_def fst_conv snd_conv
      using ascii(2) by (auto simp: one_line_hex)
  next
    case (bad c)
    then show ?thesis by (simp add: slog_seg_def marshal_seg_def escape_seg_def runeError_def one_line_hex)
  next
    case (long r b)
    then have "one_line b" by (fastforce simp: one_line_def list_all_iff)
    with long show ?thesis by (auto simp: slog_seg_def marshal_seg_def escape_seg_def Let_def one_line_hex)
  qed
  then show "one_line (slog_seg p)" "one_line (marshal_seg p)" by simp_all
qed

lemma one_line_quoted: "one_line (quoted slog_seg s)" "one_line (quoted marshal_seg s)"
  using one_line_segs by (auto simp: quoted_def one_line_concat list_all_iff)

lemma one_line_attr: "one_line (attr_text a)"
  by (cases a rule: attr_text.cases) (auto simp: one_line_quoted one_line_itoa list_all_iff intro: one_line_commas)

lemma log_line_one:
  "\<exists>t. log_line time r = t @ [CHR 0x0A] \<and> one_line t \<and> json_parse t = Some (record_json time r)"
proof -
  obtain t where t: "log_line time r = t @ [CHR 0x0A]" "json_parse t = Some (record_json time r)"
    using log_line_reads by blast
  let ?ms = "map (\<lambda>ka. member_text (quoted slog_seg (fst ka), attr_text (snd ka))) (record_attrs time r)"
  have "list_all one_line ?ms"
    by (simp add: list_all_iff member_text_def one_line_quoted one_line_attr)
  then have "one_line (CHR ''{'' # commas ?ms @ ''}'')" by (simp add: one_line_commas)
  moreover have "t = CHR ''{'' # commas ?ms @ ''}''" using t(1) by (simp add: log_line_def)
  ultimately show ?thesis using t by blast
qed

section \<open>The record of a delivery\<close>

lemma utf8_names:
  "utf8 ''time'' = ''time''" "utf8 ''level'' = ''level''" "utf8 ''msg'' = ''msg''"
  "utf8 ''message_id'' = ''message_id''" "utf8 ''from'' = ''from''" "utf8 ''to'' = ''to''"
  "utf8 ''subject'' = ''subject''" "utf8 ''result'' = ''result''"
  "utf8 ''duration_ms'' = ''duration_ms''" "utf8 ''attempts'' = ''attempts''"
  "utf8 ''rfc_message_id'' = ''rfc_message_id''" "utf8 ''http_status'' = ''http_status''"
  "utf8 ''provider_code'' = ''provider_code''" "utf8 ''error'' = ''error''"
  by (simp_all add: utf8_ascii)

lemma delivery_names:
  assumes "rec_attrs r = delivery_attrs d"
  shows "map (utf8 \<circ> fst) (record_attrs time r) = map fst (record_attrs time r)"
    and "distinct (map fst (record_attrs time r))"
  using assms by (auto simp: record_attrs_def delivery_attrs_def utf8_names split: option.split)

text \<open>
  What the line of a delivery has to say, by the fields of the delivery: the level by the result,
  the subject cut to 120 characters, the duration in whole milliseconds without its fraction.
\<close>

definition level_name :: "string \<Rightarrow> string" where
  "level_name result =
     (if result = ''deferred'' then ''WARN'' else if result = ''rejected'' then ''ERROR'' else ''INFO'')"

definition whole_ms :: "int \<Rightarrow> int" where
  "whole_ms ns = sgn ns * (\<bar>ns\<bar> div 10 ^ 6)"

lemma whole_ms_eq: "milliseconds d = whole_ms d"
  by (simp add: milliseconds_def whole_ms_def sgn_if)

lemma level_name_eq: "level_text (levelForResult result) = level_name result"
  by (simp add: levelForResult_def level_name_def)

lemma delivery_members:
  "\<exists>ms. record_json time \<lparr>rec_level = levelForResult (Result d), rec_msg = ''message delivery handled'',
      rec_attrs = delivery_attrs d\<rparr> = JObj ms \<and> distinct (map fst ms)
    \<and> map_of ms =
        [''time'' \<mapsto> JStr (utf8 time), ''level'' \<mapsto> JStr (level_name (Result d)),
         ''msg'' \<mapsto> JStr ''message delivery handled'', ''message_id'' \<mapsto> JStr (utf8 (MessageID d)),
         ''from'' \<mapsto> JStr (utf8 (D_From d)),
         ''to'' \<mapsto> (case D_To d of None \<Rightarrow> JNull | Some to \<Rightarrow> JArr (map (\<lambda>s. JStr (utf8 s)) to)),
         ''subject'' \<mapsto> JStr (utf8 (TruncateSubject (D_Subject d) 120)),
         ''result'' \<mapsto> JStr (utf8 (Result d)),
         ''duration_ms'' \<mapsto> JNum (itoa (whole_ms (Duration d))),
         ''attempts'' \<mapsto> JNum (itoa (D_Attempts d))]
        (''rfc_message_id'' := if D_RFCMessageID d = [] then None else Some (JStr (utf8 (D_RFCMessageID d))),
         ''http_status'' := if D_HTTPStatus d = 0 then None else Some (JNum (itoa (D_HTTPStatus d))),
         ''provider_code'' := if D_ProviderCode d = 0 then None else Some (JNum (itoa (D_ProviderCode d))),
         ''error'' := map_option (\<lambda>e. JStr (utf8 (errorText e))) (D_Err d))"
proof -
  let ?r = "\<lparr>rec_level = levelForResult (Result d), rec_msg = ''message delivery handled'',
    rec_attrs = delivery_attrs d\<rparr>"
  let ?ms = "map (\<lambda>ka. (utf8 (fst ka), attr_json (snd ka))) (record_attrs time ?r)"
  let ?fields = "
        [''time'' \<mapsto> JStr (utf8 time), ''level'' \<mapsto> JStr (level_name (Result d)),
         ''msg'' \<mapsto> JStr ''message delivery handled'', ''message_id'' \<mapsto> JStr (utf8 (MessageID d)),
         ''from'' \<mapsto> JStr (utf8 (D_From d)),
         ''to'' \<mapsto> (case D_To d of None \<Rightarrow> JNull | Some to \<Rightarrow> JArr (map (\<lambda>s. JStr (utf8 s)) to)),
         ''subject'' \<mapsto> JStr (utf8 (TruncateSubject (D_Subject d) 120)),
         ''result'' \<mapsto> JStr (utf8 (Result d)),
         ''duration_ms'' \<mapsto> JNum (itoa (whole_ms (Duration d))),
         ''attempts'' \<mapsto> JNum (itoa (D_Attempts d))]
        (''rfc_message_id'' := if D_RFCMessageID d = [] then None else Some (JStr (utf8 (D_RFCMessageID d))),
         ''http_status'' := if D_HTTPStatus d = 0 then None else Some (JNum (itoa (D_HTTPStatus d))),
         ''provider_code'' := if D_ProviderCode d = 0 then None else Some (JNum (itoa (D_ProviderCode d))),
         ''error'' := map_option (\<lambda>e. JStr (utf8 (errorText e))) (D_Err d))"
  have "map fst ?ms = map fst (record_attrs time ?r)"
    using delivery_names(1) [of ?r d time] by simp
  then have dist: "distinct (map fst ?ms)" using delivery_names(2) [of ?r d time] by (simp only:) simp
  have lit: "utf8 (level_name (Result d)) = level_name (Result d)"
    "utf8 ''message delivery handled'' = ''message delivery handled''"
    by (simp_all add: level_name_def utf8_ascii)
  have to: "attr_json (AStrings to) = (case to of None \<Rightarrow> JNull | Some to \<Rightarrow> JArr (map (\<lambda>s. JStr (utf8 s)) to))"
    for to by (cases to) simp_all
  have "map_of ?ms k = ?fields k" for k
  proof (cases "k \<in> {''time'', ''level'', ''msg'', ''message_id'', ''from'', ''to'', ''subject'', ''result'',
      ''duration_ms'', ''attempts'', ''rfc_message_id'', ''http_status'', ''provider_code'', ''error''}")
    case True
    then show ?thesis
      by (elim insertE emptyE) (simp_all add: record_attrs_def delivery_attrs_def utf8_names
          maxSubjectRunes_def whole_ms_eq level_name_eq lit to split: option.split)
  next
    case False
    then have "k \<notin> fst ` set ?ms"
      by (auto simp: record_attrs_def delivery_attrs_def utf8_names split: option.splits if_splits)
    then have "map_of ?ms k = None" by (simp only: map_of_eq_None_iff not_False_eq_True)
    with False show ?thesis by (simp only: insert_iff de_Morgan_disj fun_upd_other) simp
  qed
  then have "map_of ?ms = ?fields" by (rule ext)
  with dist show ?thesis by (intro exI [of _ ?ms] conjI) (simp_all only: record_json_def)
qed

text \<open>
  C36. One delivery is one line, whatever the client put into it: the line that a delivery
  writes, without the newline that ends it, has no control byte, so no subject, address or
  error text can start a line of its own, and it reads back as one JSON object with distinct
  names that tells every field of the delivery: each of the ten names that are always there has
  the value of its field, and the Message-ID, the HTTP status, the provider code and the error
  are there exactly when they are set.
\<close>

theorem log_lines_unforgeable:
  assumes "lg_level lg \<le> levelForResult (Result d)"
  shows "\<exists>r t ms. LogDelivery lg d out = out @ [r] \<and> log_line time r = t @ [CHR 0x0A]
    \<and> list_all (\<lambda>c. 0x20 \<le> byte c) t \<and> json_parse t = Some (JObj ms) \<and> distinct (map fst ms)
    \<and> map_of ms =
        [''time'' \<mapsto> JStr (utf8 time), ''level'' \<mapsto> JStr (level_name (Result d)),
         ''msg'' \<mapsto> JStr ''message delivery handled'', ''message_id'' \<mapsto> JStr (utf8 (MessageID d)),
         ''from'' \<mapsto> JStr (utf8 (D_From d)),
         ''to'' \<mapsto> (case D_To d of None \<Rightarrow> JNull | Some to \<Rightarrow> JArr (map (\<lambda>s. JStr (utf8 s)) to)),
         ''subject'' \<mapsto> JStr (utf8 (TruncateSubject (D_Subject d) 120)),
         ''result'' \<mapsto> JStr (utf8 (Result d)),
         ''duration_ms'' \<mapsto> JNum (itoa (whole_ms (Duration d))),
         ''attempts'' \<mapsto> JNum (itoa (D_Attempts d))]
        (''rfc_message_id'' := if D_RFCMessageID d = [] then None else Some (JStr (utf8 (D_RFCMessageID d))),
         ''http_status'' := if D_HTTPStatus d = 0 then None else Some (JNum (itoa (D_HTTPStatus d))),
         ''provider_code'' := if D_ProviderCode d = 0 then None else Some (JNum (itoa (D_ProviderCode d))),
         ''error'' := map_option (\<lambda>e. JStr (utf8 (errorText e))) (D_Err d))"
proof -
  let ?fields = "
        [''time'' \<mapsto> JStr (utf8 time), ''level'' \<mapsto> JStr (level_name (Result d)),
         ''msg'' \<mapsto> JStr ''message delivery handled'', ''message_id'' \<mapsto> JStr (utf8 (MessageID d)),
         ''from'' \<mapsto> JStr (utf8 (D_From d)),
         ''to'' \<mapsto> (case D_To d of None \<Rightarrow> JNull | Some to \<Rightarrow> JArr (map (\<lambda>s. JStr (utf8 s)) to)),
         ''subject'' \<mapsto> JStr (utf8 (TruncateSubject (D_Subject d) 120)),
         ''result'' \<mapsto> JStr (utf8 (Result d)),
         ''duration_ms'' \<mapsto> JNum (itoa (whole_ms (Duration d))),
         ''attempts'' \<mapsto> JNum (itoa (D_Attempts d))]
        (''rfc_message_id'' := if D_RFCMessageID d = [] then None else Some (JStr (utf8 (D_RFCMessageID d))),
         ''http_status'' := if D_HTTPStatus d = 0 then None else Some (JNum (itoa (D_HTTPStatus d))),
         ''provider_code'' := if D_ProviderCode d = 0 then None else Some (JNum (itoa (D_ProviderCode d))),
         ''error'' := map_option (\<lambda>e. JStr (utf8 (errorText e))) (D_Err d))"
  let ?r = "\<lparr>rec_level = levelForResult (Result d), rec_msg = ''message delivery handled'',
    rec_attrs = delivery_attrs d\<rparr>"
  have "LogDelivery lg d out = out @ [?r]" by (rule LogDelivery_emits [OF assms])
  moreover obtain t where "log_line time ?r = t @ [CHR 0x0A]" "list_all (\<lambda>c. 0x20 \<le> byte c) t"
    and t: "json_parse t = Some (record_json time ?r)"
    using log_line_one [of time ?r] unfolding one_line_def by blast
  moreover note fields = delivery_members [of time d]
  obtain ms where "record_json time ?r = JObj ms" and m: "distinct (map fst ms)" "map_of ms = ?fields"
    using fields by (elim exE conjE)
  with t have "json_parse t = Some (JObj ms)" by (simp only:)
  ultimately show ?thesis using m by (intro exI [of _ ?r] exI [of _ t] exI [of _ ms] conjI)
qed

definition forged_delivery :: delivery where
  "forged_delivery = example_delivery\<lparr>D_Subject := ''hi'' @ [CHR 0x22, CHR 0x0A] @ ''{}''\<rparr>"

theorem log_lines_unforgeable_witness:
  "\<exists>r t ms. LogDelivery \<lparr>lg_level = LevelInfo\<rparr> forged_delivery [] = [r]
    \<and> log_line ''now'' r = t @ [CHR 0x0A] \<and> list_all (\<lambda>c. 0x20 \<le> byte c) t
    \<and> json_parse t = Some (JObj ms)
    \<and> map_of ms ''subject'' = Some (JStr (''hi'' @ [CHR 0x22, CHR 0x0A] @ ''{}''))
    \<and> map_of ms ''duration_ms'' = Some (JNum ''7'') \<and> map_of ms ''http_status'' = Some (JNum ''200'')
    \<and> map_of ms ''provider_code'' = None"
proof -
  have "lg_level \<lparr>lg_level = LevelInfo\<rparr> \<le> levelForResult (Result forged_delivery)"
    by (simp add: forged_delivery_def example_delivery_def)
  from log_lines_unforgeable [OF this, of "[]" "''now''"]
  obtain r t ms where r: "LogDelivery \<lparr>lg_level = LevelInfo\<rparr> forged_delivery [] = [r]"
    "log_line ''now'' r = t @ [CHR 0x0A]" "list_all (\<lambda>c. 0x20 \<le> byte c) t" "json_parse t = Some (JObj ms)"
    and m: "map_of ms ''subject'' = Some (JStr (utf8 (TruncateSubject (D_Subject forged_delivery) 120)))"
      "map_of ms ''duration_ms'' = Some (JNum (itoa (whole_ms (Duration forged_delivery))))"
      "map_of ms ''http_status'' = (if D_HTTPStatus forged_delivery = 0 then None
         else Some (JNum (itoa (D_HTTPStatus forged_delivery))))"
      "map_of ms ''provider_code'' = (if D_ProviderCode forged_delivery = 0 then None
         else Some (JNum (itoa (D_ProviderCode forged_delivery))))"
    by auto
  have "utf8 (TruncateSubject (D_Subject forged_delivery) 120) = ''hi'' @ [CHR 0x22, CHR 0x0A] @ ''{}''"
    "itoa (whole_ms (Duration forged_delivery)) = ''7''" "itoa (D_HTTPStatus forged_delivery) = ''200''"
    "D_HTTPStatus forged_delivery \<noteq> 0" "D_ProviderCode forged_delivery = 0"
    by code_simp+
  with r m show ?thesis by auto
qed

end
