(* ===== verification/Spec2Isabelle.thy ===== *)
theory Spec2Isabelle
  imports End_To_End Listening Log_Json
begin

text \<open>
  A verification development of the SMTP to Cloudflare relay: the Go program that accepts
  mail on a private SMTP port and hands it to Cloudflare over HTTP.

  \<^bold>\<open>The program.\<close> \<^verbatim>\<open>cmd/relay/main.go\<close> loads the configuration from the
  environment (\<^verbatim>\<open>internal/config\<close>), builds the outbound adapter
  (\<^verbatim>\<open>internal/cloudflare\<close>: REST or Worker), wraps it in an SMTP server
  (\<^verbatim>\<open>internal/smtpserver\<close>) and serves it beside a health endpoint
  (\<^verbatim>\<open>internal/health\<close>) until a signal or a failure. For each connection go-smtp calls
  back into a session, which authenticates the client, checks the sender against the allowlist
  (\<^verbatim>\<open>internal/email/policy.go\<close>), collects the envelope, and on DATA parses the message
  (\<^verbatim>\<open>internal/email/parse.go\<close>), hands it to the adapter, logs the outcome
  (\<^verbatim>\<open>internal/logging\<close>) and turns it into an SMTP reply. The adapter encodes the
  message as JSON, posts it, classifies the reply and retries temporary failures.

  \<^bold>\<open>Go and its libraries.\<close> \<open>Prelude\<close> holds 64-bit wrap-around, durations and
  generic lemmas; \<open>Go_Utf8\<close> runes and UTF-8, \<open>Go_Segments\<close> the shapes a rune can have in a
  string; \<open>Go_Strings\<close> the functions of strings, strconv and unicode; \<open>Go_Time\<close> the
  parser and the printer of durations; \<open>Go_Json\<close> the text that encoding/json writes, the grammar it
  accepts and the decoding into fields; \<open>Go_Http\<close> requests, replies and bodies. Their laws
  are proved: encoding and decoding of runes and of JSON are inverse
  (\<open>Json_Roundtrip\<close>, for every way of escaping that meets its locale
  \<open>string_escape\<close>), a printed duration of whole seconds is parsed back, trimming and
  lowering commute with what the relay asks of them.

  \<^bold>\<open>The components.\<close>
  \<^item> \<open>Email_Errors\<close>, \<open>Email_Message\<close>, \<open>Email_Policy\<close>, \<open>Email_Parse\<close>:
    \<^verbatim>\<open>errors.go\<close>, \<^verbatim>\<open>message.go\<close>, \<^verbatim>\<open>policy.go\<close>, \<^verbatim>\<open>parse.go\<close> of
    \<^verbatim>\<open>internal/email\<close>. An error is the datatype \<open>gerror\<close>, a wrapped error its
    constructor \<open>ErrWrap\<close>. The outbound port is the locale \<open>sender\<close>, the check of a
    sender the locale \<open>sender_check\<close>.
  \<^item> \<open>Cf_Payload\<close>, \<open>Cf_Classify\<close>, \<open>Cf_Send\<close>, \<open>Cf_Rest\<close>,
    \<open>Cf_Worker\<close>: the files of \<^verbatim>\<open>internal/cloudflare\<close>. The network, the clock, the
    random source and the context are functions over a world \<open>'w\<close>; the loop of
    \<^verbatim>\<open>sendLoop\<close> is \<open>loop_round\<close> and \<open>sendLoop\<close>. The locale
    \<open>response_parser\<close>, with its extension \<open>deciding_parser\<close>, is what the loop relies on of
    an adapter; both adapters interpret it, and both are interpretations of \<open>sender\<close>.
  \<^item> \<open>Smtp_Options\<close>, \<open>Smtp_Login\<close>, \<open>Smtp_Session\<close>, \<open>Smtp_Conn\<close>:
    \<^verbatim>\<open>internal/smtpserver\<close>. A callback of the session is a function from a session to
    an error and a session; \<open>Smtp_Conn\<close> has the connection as a step relation over all
    orders in which the library may call them, and what it promises as \<open>transaction\<close>, a machine
    over the commands alone that knows who is authenticated and which envelope is open
    (\<open>conn_inv\<close> is the simulation). \<open>Smtp_Server\<close> is the server with all its
    connections: the sessions are cells of a heap that \<open>backend_NewSession\<close> allocates, a
    connection holds a pointer to its own, and the steps interleave in any order (a callback is
    one step); the sender, the clock and the log are shared. The locale \<open>authenticator\<close> is what the
    LOGIN mechanism relies on; the session interprets it.
  \<^item> \<open>Logging\<close>, \<open>Config\<close>, \<open>Health\<close>: \<^verbatim>\<open>internal/logging\<close>,
    \<^verbatim>\<open>internal/config\<close>, \<^verbatim>\<open>internal/health\<close>. A log record is its level,
    message and attributes, a slice that may be nil an option; \<open>Log_Json\<close> is the line that the JSON handler of slog, which
    \<^verbatim>\<open>logging.New\<close> installs, writes for it.
  \<^item> \<open>Listening\<close>: the methods \<^verbatim>\<open>Serve\<close>, \<^verbatim>\<open>ListenAndServe\<close>,
    \<^verbatim>\<open>Shutdown\<close>, \<^verbatim>\<open>Addr\<close> of both servers (locale \<open>wrapper\<close>).
  \<^item> \<open>Relay\<close>: \<^verbatim>\<open>main.go\<close> and the theorems about the components together.
  \<^item> \<open>End_To_End\<close>: the way from the commands of all clients to the requests on the wire.
    The network is seen through an observation \<open>obs\<close> of the world, the list of exchanges of
    the process's HTTP clients: the hypotheses \<open>observes\<close> and \<open>quiet\<close> say that a call of a
    client appends the request and its outcome, and that contexts, clocks, timers, random numbers
    and ids leave the list alone.
\<close>

text \<open>
  \<^bold>\<open>What is proved.\<close> On the wire: every HTTP request the process makes is the POST for a
  message that an authenticated connection handed over, from an admitted domain and to its own
  recipients; a client is told that its message was accepted if and only if the provider said
  so, and nothing is posted after that; the callbacks of an authorised transaction post its message.
  Sessions: every message that is handed over is that of one DATA command, whose client had
  presented the credentials, with an admitted sender and exactly the recipients that RCPT named
  since the last accepted MAIL, in every order of SMTP commands; the reply to DATA and the log
  record tell the same outcome; the session of a connection stands for the transaction of its
  own commands alone, although all sessions are in one heap; every
  error reply of a session is one well-formed line with a matching enhanced code. Logs: a
  delivery writes one line whatever its content, and the line reads back as all of its fields.
  Parsing: the four recipient loops compute the partition that a set specification states, the
  envelope is delivered exactly, bodies and headers are what a reference function says.
  Outbound: what is posted reads back as the message, replies are understood as written, the
  classification is consistent for every status and code, attempts equal requests whenever a
  request can be built, pauses stay within 0 and 5 s, permanent failures are not retried. Configuration: it loads if and
  only if every variable is valid, a loaded one starts the servers with every field as
  configured, secrets are not printed. Process: both servers run or none, and shutdown drains
  both in order; the probe succeeds exactly on a response that reports the status ok. A program defect that a theorem makes visible is stated as the code behaves: \<open>retry_after_overflow\<close>,
  \<open>unusable_headers_expose_blind\<close>, \<open>empty_base_url_fails_late\<close>,
  \<open>addr_reports_listener\<close>, \<open>rest_attempts_are_requests\<close>.

  \<^bold>\<open>Bounds and termination.\<close> Durations and counters that can overflow in the code
  (\<^verbatim>\<open>time.Duration\<close> products, the shift in \<open>maxDelay\<close>) wrap at 64 bits through
  \<open>wrap64\<close>; \<^verbatim>\<open>ConstantTimeCompare\<close> works on words. The retry loop is a total function
  with the retries left as its measure. The JSON grammar runs on fuel \<open>2 * length + 2\<close>:
  \<open>json_fuel\<close> shows that more fuel changes no answer, and \<open>json_parse_text\<close> that
  every encoded value within the nesting limit of 10000 is read. All other loops are
  structural.

  \<^bold>\<open>Parameters.\<close> Code outside the repository is an argument with its documented
  behaviour as a named hypothesis where one is needed: the MIME reader of go-message
  (\<open>reader\<close>), \<^verbatim>\<open>url.Parse\<close> (what it accepts differs between releases of Go),
  \<^verbatim>\<open>http.ParseTime\<close>, the floating-point product of a duration's decimal fraction
  (\<open>frac\<close>), the text of a log record's time, the Unicode tables beyond
  ASCII (\<open>unicode\<close>), the redirects of \<^verbatim>\<open>http.ServeMux\<close>, the key pair, listeners and
  signals of the operating system (\<open>answers\<close>), uuids and clocks. The dialogue of go-smtp is over-approximated: the
  step relation allows every callback in every state that the library's checks allow, and more
  (it has no limit on the body's size, wants no RCPT before DATA and no TLS for AUTH), so its
  invariants hold for the real dialogue; that a message is posted is stated of the callbacks and
  not of a run.

  \<^bold>\<open>Not modelled.\<close> The Worker script (JavaScript, deployed apart), release scripts and CI;
  sockets, TLS and the library servers' own loops; the text of a JSON decoding error; timing of \<^verbatim>\<open>ConstantTimeCompare\<close>.
\<close>

end
